(* ===== verification/Prelude.thy ===== *)
theory Prelude
  imports Main
begin

text \<open>
  What every component of the model shares.

  A C++ operation that can throw, or whose behaviour the language leaves undefined, returns a
  \<open>'a result\<close>: \<open>Inr x\<close> for the value \<open>x\<close>, \<open>Inl f\<close> for the fault \<open>f\<close>.  The faults name the
  exception (or the undefined access) of the source, one constructor each, so that a theorem
  can say exactly which failure an operation has and when.  \<open>rbind\<close> sequences two such
  operations; \<open>ebind\<close> does the same for operations that also carry a state which survives a
  throw (the file system and the static tables of the handlers do).

  The theory also names the characters that the source writes with an escape, and the few
  generic list lemmas that more than one component uses.
\<close>

section \<open>Faults and results\<close>

datatype fault =
    Out_of_range        \<comment> \<open>\<open>std::out_of_range\<close>: \<open>substr\<close>, \<open>at\<close>, \<open>insert\<close>, \<open>stoi\<close>\<close>
  | Invalid_argument    \<comment> \<open>\<open>std::invalid_argument\<close>: \<open>stoi\<close> without a digit\<close>
  | Length_error        \<comment> \<open>\<open>std::length_error\<close>: \<open>resize\<close> beyond \<open>max_size\<close>\<close>
  | Logic_error         \<comment> \<open>\<open>std::logic_error\<close>: \<open>std::string\<close> made from a null pointer\<close>
  | Filesystem_error    \<comment> \<open>\<open>boost::filesystem::filesystem_error\<close>\<close>
  | System_error        \<comment> \<open>\<open>boost::system::system_error\<close>: the socket has no peer any more\<close>
  | Null_deref          \<comment> \<open>a null pointer is dereferenced\<close>
  | Bad_index           \<comment> \<open>\<open>operator[]\<close> or \<open>back\<close> outside the vector, array or string\<close>
  | Int_overflow        \<comment> \<open>signed integer overflow\<close>
  | Process_exit        \<comment> \<open>\<open>exit(1)\<close>: the program ends here\<close>
  | No_return           \<comment> \<open>a loop does not end\<close>

type_synonym 'a result = "fault + 'a"

named_theorems result_iff \<open>rewriting \<open>rbind m f = Inr y\<close> and its kin\<close>

definition rbind :: "'a result \<Rightarrow> ('a \<Rightarrow> 'b result) \<Rightarrow> 'b result" where
  "rbind r f = (case r of Inl e \<Rightarrow> Inl e | Inr x \<Rightarrow> f x)"

lemma rbind_simps [simp]:
  "rbind (Inl e) f = Inl e"
  "rbind (Inr x) f = f x"
  by (simp_all add: rbind_def)

lemma rbind_Inr_iff [result_iff]: "rbind r f = Inr y \<longleftrightarrow> (\<exists>x. r = Inr x \<and> f x = Inr y)"
  by (cases r) auto

lemma rbind_Inl_iff [result_iff]:
  "rbind r f = Inl e \<longleftrightarrow> r = Inl e \<or> (\<exists>x. r = Inr x \<and> f x = Inl e)"
  by (cases r) auto

lemma rbind_split: "P (rbind r f) \<longleftrightarrow> (\<forall>e. r = Inl e \<longrightarrow> P (Inl e)) \<and> (\<forall>x. r = Inr x \<longrightarrow> P (f x))"
  by (cases r) auto

lemma rbind_split_asm:
  "P (rbind r f) \<longleftrightarrow> \<not> ((\<exists>e. r = Inl e \<and> \<not> P (Inl e)) \<or> (\<exists>x. r = Inr x \<and> \<not> P (f x)))"
  by (cases r) auto

lemmas rbind_splits = rbind_split rbind_split_asm

lemma rbind_cong [fundef_cong]:
  "r = r' \<Longrightarrow> (\<And>x. r' = Inr x \<Longrightarrow> f x = g x) \<Longrightarrow> rbind r f = rbind r' g"
  by (cases r') auto

text \<open>A throw keeps the effects that happened before it, so the state stands beside the result.\<close>

definition ebind ::
  "'a result \<times> 's \<Rightarrow> ('a \<Rightarrow> 's \<Rightarrow> 'b result \<times> 's) \<Rightarrow> 'b result \<times> 's" where
  "ebind r f = (case r of (Inl e, s) \<Rightarrow> (Inl e, s) | (Inr x, s) \<Rightarrow> f x s)"

lemma ebind_simps [simp]:
  "ebind (Inl e, s) f = (Inl e, s)"
  "ebind (Inr x, s) f = f x s"
  by (simp_all add: ebind_def)

lemma ebind_Inr_iff [result_iff]:
  "ebind r f = (Inr y, t) \<longleftrightarrow> (\<exists>x s. r = (Inr x, s) \<and> f x s = (Inr y, t))"
  by (cases r; cases "fst r") auto

lemma ebind_split:
  "P (ebind r f) \<longleftrightarrow> (\<forall>e s. r = (Inl e, s) \<longrightarrow> P (Inl e, s)) \<and> (\<forall>x s. r = (Inr x, s) \<longrightarrow> P (f x s))"
  by (cases r; cases "fst r") auto

lemma ebind_split_asm:
  "P (ebind r f) \<longleftrightarrow>
     \<not> ((\<exists>e s. r = (Inl e, s) \<and> \<not> P (Inl e, s)) \<or> (\<exists>x s. r = (Inr x, s) \<and> \<not> P (f x s)))"
  by (cases r; cases "fst r") auto

lemmas ebind_splits = ebind_split ebind_split_asm

text \<open>A result without an effect.\<close>

definition pure_result :: "'a result \<Rightarrow> 'w \<Rightarrow> 'a result \<times> 'w" where
  "pure_result r w = (r, w)"

lemma pure_result_simps [simp]:
  "fst (pure_result r w) = r" "snd (pure_result r w) = w" "pure_result r w = (r', w') \<longleftrightarrow> r = r' \<and> w = w'"
  by (auto simp: pure_result_def)

text \<open>The faults a result can have.\<close>

definition faults_in :: "fault set \<Rightarrow> 'a result \<Rightarrow> bool" where
  "faults_in A r \<longleftrightarrow> (case r of Inl e \<Rightarrow> e \<in> A | Inr x \<Rightarrow> True)"

lemma faults_in_simps [simp]: "faults_in A (Inl e) \<longleftrightarrow> e \<in> A" "faults_in A (Inr x)"
  by (simp_all add: faults_in_def)

lemma faults_in_rbind [intro!]:
  "faults_in A r \<Longrightarrow> (\<And>x. r = Inr x \<Longrightarrow> faults_in A (f x)) \<Longrightarrow> faults_in A (rbind r f)"
  by (cases r) auto

lemma faults_in_ebind [intro!]:
  "faults_in A (fst r) \<Longrightarrow> (\<And>x s. r = (Inr x, s) \<Longrightarrow> faults_in A (fst (f x s))) \<Longrightarrow> faults_in A (fst (ebind r f))"
  by (cases r; cases "fst r") auto

section \<open>Characters the source writes with an escape\<close>

abbreviation NUL :: char where "NUL \<equiv> CHR 0x00"
abbreviation TAB :: char where "TAB \<equiv> CHR 0x09"
abbreviation LF :: char where "LF \<equiv> CHR 0x0A"
abbreviation CR :: char where "CR \<equiv> CHR 0x0D"
abbreviation SP :: char where "SP \<equiv> CHR 0x20"
abbreviation DQ :: char where "DQ \<equiv> CHR 0x22"
abbreviation SQ :: char where "SQ \<equiv> CHR 0x27"
abbreviation BSL :: char where "BSL \<equiv> CHR 0x5C"
abbreviation SLASH :: char where "SLASH \<equiv> CHR 0x2F"

abbreviation crlf :: string where "crlf \<equiv> [CR, LF]"

section \<open>Lists\<close>

lemma take_eq_iff_append: "take (length p) s = p \<longleftrightarrow> (\<exists>r. s = p @ r)"
proof
  assume *: "take (length p) s = p"
  have "s = take (length p) s @ drop (length p) s" by simp
  with * have "s = p @ drop (length p) s" by simp
  then show "\<exists>r. s = p @ r" by blast
qed auto

lemma takeWhile_append_stop:
  assumes "list_all P xs" and "ys = [] \<or> \<not> P (hd ys)"
  shows "takeWhile P (xs @ ys) = xs" and "dropWhile P (xs @ ys) = ys"
  using assms by (induction xs; cases ys; auto)+

lemma split_at_first_iff:
  "c \<notin> set a \<Longrightarrow> c \<notin> set a' \<Longrightarrow> a @ c # b = a' @ c # b' \<longleftrightarrow> a = a' \<and> b = b'"
proof (induction a arbitrary: a')
  case Nil
  then show ?case by (cases a') auto
next
  case (Cons x a)
  then show ?case by (cases a') auto
qed

lemma map_of_rev_eq: "distinct (map fst xs) \<Longrightarrow> map_of (rev xs) = map_of xs"
  by (rule map_of_eqI) (auto simp: rev_map [symmetric] image_iff)

lemma list_all_concat_map: "list_all P (concat (map f xs)) \<longleftrightarrow> list_all (\<lambda>x. list_all P (f x)) xs"
  by (induction xs) auto

end
