(* ===== verification/Std_String.thy ===== *)
theory Std_String
  imports Prelude "HOL-Library.Word"
begin

text \<open>
  The operations of \<open>std::string\<close> and \<open><string>\<close> that the program calls, on strings as lists
  of bytes (\<open>char\<close>).  \<open>substr\<close> throws when its position is past the end; \<open>find\<close> and
  \<open>find_last_of\<close> return \<open>None\<close> for \<open>npos\<close>, and \<open>size_of\<close> turns such a result into the
  64-bit \<open>size_t\<close> (\<open>npos\<close> is the largest value) where the source does arithmetic on it.
  \<open>stoi\<close> and \<open>to_string\<close> work on 32-bit \<open>int\<close>.

  The lemmas say when \<open>find\<close> succeeds and where, and that \<open>stoi\<close> inverts \<open>to_string\<close>.
\<close>

section \<open>Decimal numbers\<close>

definition is_space :: "char \<Rightarrow> bool" where
  "is_space c \<longleftrightarrow> c = SP \<or> c = TAB \<or> c = LF \<or> c = CHR 0x0B \<or> c = CHR 0x0C \<or> c = CR"

definition is_digit :: "char \<Rightarrow> bool" where
  "is_digit c \<longleftrightarrow> 48 \<le> (of_char c :: nat) \<and> (of_char c :: nat) \<le> 57"

definition digit_char :: "nat \<Rightarrow> char" where
  "digit_char d = char_of (48 + d)"

definition digit_val :: "char \<Rightarrow> nat" where
  "digit_val c = of_char c - 48"

fun nat_to_string :: "nat \<Rightarrow> string" where
  "nat_to_string n =
     (if n < 10 then [digit_char n] else nat_to_string (n div 10) @ [digit_char (n mod 10)])"

declare nat_to_string.simps [simp del]

definition to_string :: "int \<Rightarrow> string" where
  "to_string i =
     (if i < 0 then CHR ''-'' # nat_to_string (nat (- i)) else nat_to_string (nat i))"

definition digits_val :: "string \<Rightarrow> nat" where
  "digits_val ds = foldl (\<lambda>n c. 10 * n + digit_val c) 0 ds"

definition INT_MIN :: int where "INT_MIN = - 2147483648"

definition INT_MAX :: int where "INT_MAX = 2147483647"

definition in_int :: "int \<Rightarrow> bool" where
  "in_int i \<longleftrightarrow> INT_MIN \<le> i \<and> i \<le> INT_MAX"

text \<open>
  \<open>std::stoi\<close>: leading white space, an optional sign, then at least one digit; what follows the
  digits is ignored.  It throws \<open>invalid_argument\<close> without a digit and \<open>out_of_range\<close> for a
  value that is no \<open>int\<close>.
\<close>

definition sign_split :: "string \<Rightarrow> bool \<times> string" where
  "sign_split t =
     (case t of
        [] \<Rightarrow> (False, [])
      | c # r \<Rightarrow> if c = CHR ''-'' then (True, r) else if c = CHR ''+'' then (False, r) else (False, t))"

definition stoi :: "string \<Rightarrow> int result" where
  "stoi s =
     (let (neg, u) = sign_split (dropWhile is_space s);
          ds = takeWhile is_digit u;
          v = (if neg then - int (digits_val ds) else int (digits_val ds))
      in if ds = [] then Inl Invalid_argument
         else if in_int v then Inr v else Inl Out_of_range)"

lemma digit_char_simps [simp]:
  "digit_char 0 = CHR ''0''"
  "digit_char (Suc 0) = CHR ''1''"
  "digit_char 2 = CHR ''2''"
  "digit_char 3 = CHR ''3''"
  "digit_char 4 = CHR ''4''"
  "digit_char 5 = CHR ''5''"
  "digit_char 6 = CHR ''6''"
  "digit_char 7 = CHR ''7''"
  "digit_char 8 = CHR ''8''"
  "digit_char 9 = CHR ''9''"
  "digit_char 1 = CHR ''1''"
  by code_simp+

lemma is_digit_digit_char [simp]: "d < 10 \<Longrightarrow> is_digit (digit_char d)"
  by (simp add: is_digit_def digit_char_def)

lemma digit_val_digit_char [simp]: "d < 10 \<Longrightarrow> digit_val (digit_char d) = d"
  by (simp add: digit_val_def digit_char_def)

lemma is_digit_not_space: "is_digit c \<Longrightarrow> \<not> is_space c"
  by (auto simp: is_digit_def is_space_def)

lemma is_digit_not_sign: "is_digit c \<Longrightarrow> c \<noteq> CHR ''-'' \<and> c \<noteq> CHR ''+''"
  by (auto simp: is_digit_def)

lemma nat_to_string_digits: "list_all is_digit (nat_to_string n)"
proof (induction n rule: nat_to_string.induct)
  case (1 n)
  then show ?case by (subst nat_to_string.simps) simp
qed

lemma nat_to_string_not_Nil [simp]: "nat_to_string n \<noteq> []"
  by (subst nat_to_string.simps) simp

lemma digits_val_nat_to_string [simp]: "digits_val (nat_to_string n) = n"
proof (induction n rule: nat_to_string.induct)
  case (1 n)
  show ?case
  proof (cases "n < 10")
    case True
    then show ?thesis by (subst nat_to_string.simps) (simp add: digits_val_def)
  next
    case False
    with 1 have "digits_val (nat_to_string (n div 10)) = n div 10" by simp
    with False show ?thesis by (subst nat_to_string.simps) (simp add: digits_val_def)
  qed
qed

lemma nat_to_string_inject [simp]: "nat_to_string m = nat_to_string n \<longleftrightarrow> m = n"
  by (metis digits_val_nat_to_string)

lemma nat_to_string_hd: "is_digit (hd (nat_to_string n))"
  using nat_to_string_digits [of n] by (cases "nat_to_string n") auto

lemma takeWhile_digits [simp]: "takeWhile is_digit (nat_to_string n) = nat_to_string n"
  using nat_to_string_digits [of n] by (simp add: list_all_iff)

lemma to_string_not_Nil [simp]: "to_string i \<noteq> []"
  by (simp add: to_string_def)

lemma nat_to_string_not_minus: "nat_to_string n \<noteq> CHR ''-'' # s"
  using nat_to_string_hd [of n] by (auto simp: is_digit_def)

lemma to_string_inject [simp]: "to_string i = to_string j \<longleftrightarrow> i = j"
  using nat_to_string_not_minus by (auto simp: to_string_def dest: sym)

lemma sign_split_digits:
  "is_digit (hd s) \<Longrightarrow> s \<noteq> [] \<Longrightarrow> sign_split s = (False, s)"
  by (cases s) (auto simp: sign_split_def dest: is_digit_not_sign)

lemma dropWhile_space_digits: "is_digit (hd s) \<Longrightarrow> dropWhile is_space s = s"
  by (cases s) (auto dest: is_digit_not_space)

lemmas to_string_eval = to_string_def nat_to_string.simps
lemmas stoi_eval = stoi_def sign_split_def is_space_def is_digit_def digits_val_def digit_val_def
  in_int_def INT_MAX_def INT_MIN_def

text \<open>\<open>stoi\<close> inverts \<open>to_string\<close> on every \<open>int\<close>.\<close>

lemma stoi_to_string: "in_int i \<Longrightarrow> stoi (to_string i) = Inr i"
proof (cases "i < 0")
  case True
  then have "dropWhile is_space (to_string i) = CHR ''-'' # nat_to_string (nat (- i))"
    by (simp add: to_string_def is_space_def)
  moreover assume "in_int i"
  ultimately show ?thesis
    using True by (simp add: stoi_def sign_split_def)
next
  case False
  then have "dropWhile is_space (to_string i) = nat_to_string (nat i)"
    by (simp add: to_string_def dropWhile_space_digits nat_to_string_hd)
  moreover assume "in_int i"
  ultimately show ?thesis
    using False by (simp add: stoi_def sign_split_digits nat_to_string_hd)
qed

lemma stoi_in_int: "stoi s = Inr i \<Longrightarrow> in_int i"
  by (auto simp: stoi_def Let_def split: prod.splits if_splits)

section \<open>Substrings and searches\<close>

definition substr :: "string \<Rightarrow> nat \<Rightarrow> nat \<Rightarrow> string result" where
  "substr s pos n = (if pos \<le> length s then Inr (take n (drop pos s)) else Inl Out_of_range)"

definition substr_from :: "string \<Rightarrow> nat \<Rightarrow> string result" where
  "substr_from s pos = (if pos \<le> length s then Inr (drop pos s) else Inl Out_of_range)"

fun find_at :: "string \<Rightarrow> string \<Rightarrow> nat option" where
  "find_at p [] = (if p = [] then Some 0 else None)"
| "find_at p (c # s) =
     (if take (length p) (c # s) = p then Some 0 else map_option Suc (find_at p s))"

text \<open>\<open>s.find(p, pos)\<close>\<close>

definition find_str :: "string \<Rightarrow> string \<Rightarrow> nat \<Rightarrow> nat option" where
  "find_str s p pos =
     (if pos \<le> length s then map_option ((+) pos) (find_at p (drop pos s)) else None)"

text \<open>\<open>s.find_last_of(c)\<close>\<close>

fun find_last_of :: "char \<Rightarrow> string \<Rightarrow> nat option" where
  "find_last_of c [] = None"
| "find_last_of c (d # s) =
     (case find_last_of c s of Some i \<Rightarrow> Some (Suc i) | None \<Rightarrow> if c = d then Some 0 else None)"

text \<open>\<open>std::replace(s.begin(), s.end(), a, b)\<close>, and the C string a \<open>std::string\<close> passes on.\<close>

definition replace_char :: "char \<Rightarrow> char \<Rightarrow> string \<Rightarrow> string" where
  "replace_char a b s = map (\<lambda>c. if c = a then b else c) s"

definition c_str :: "string \<Rightarrow> string" where
  "c_str s = takeWhile (\<lambda>c. c \<noteq> NUL) s"

text \<open>\<open>s.insert(pos, t)\<close>, with the \<open>out_of_range\<close> it throws.\<close>

definition insert_at :: "string \<Rightarrow> nat \<Rightarrow> string \<Rightarrow> string result" where
  "insert_at s pos t = (if pos \<le> length s then Inr (take pos s @ t @ drop pos s) else Inl Out_of_range)"

text \<open>A search result as the \<open>size_t\<close> the source computes with.\<close>

type_synonym size_t = "64 word"

definition size_of :: "nat option \<Rightarrow> size_t" where
  "size_of r = (case r of None \<Rightarrow> - 1 | Some i \<Rightarrow> of_nat i)"

lemma substr_0 [simp]: "substr s 0 n = Inr (take n s)"
  by (simp add: substr_def)

lemma substr_from_append [simp]: "substr_from (a @ s) (length a) = Inr s"
  by (simp add: substr_from_def)

lemma substr_append [simp]: "substr (a @ s) (length a) n = Inr (take n s)"
  by (simp add: substr_def)

lemma find_at_NoneD: "find_at p s = None \<Longrightarrow> s \<noteq> a @ p @ b"
proof (induction s arbitrary: a)
  case (Cons c s)
  show ?case
  proof (cases a)
    case Nil
    with Cons.prems show ?thesis by (auto split: if_splits simp: take_eq_iff_append)
  next
    case (Cons x xs)
    with Cons.prems Cons.IH [of xs] show ?thesis by (auto split: if_splits)
  qed
qed (auto split: if_splits)

lemma find_at_SomeD:
  "find_at p s = Some i \<Longrightarrow> i + length p \<le> length s \<and> take (length p) (drop i s) = p"
proof (induction s arbitrary: i)
  case (Cons c s)
  show ?case
  proof (cases "take (length p) (c # s) = p")
    case True
    then have "length p \<le> length (c # s)"
      by (metis length_take min.cobounded1)
    with True Cons.prems show ?thesis by simp
  next
    case False
    with Cons.prems obtain j where "find_at p s = Some j" "i = Suc j" by auto
    with Cons.IH [of j] show ?thesis by simp
  qed
qed (auto split: if_splits)

lemma find_at_least: "find_at p s = Some i \<Longrightarrow> j < i \<Longrightarrow> take (length p) (drop j s) \<noteq> p"
proof (induction s arbitrary: i j)
  case (Cons c s)
  then have ne: "take (length p) (c # s) \<noteq> p" by (auto split: if_splits)
  with Cons.prems obtain i' where i': "find_at p s = Some i'" "i = Suc i'" by auto
  show ?case
  proof (cases j)
    case 0
    with ne show ?thesis by simp
  next
    case (Suc j')
    with i' Cons.prems(2) Cons.IH [of i' j'] show ?thesis by simp
  qed
qed (auto split: if_splits)

text \<open>
  A search for \<open>p\<close> in \<open>a @ p @ b\<close> finds the occurrence after \<open>a\<close> when no earlier one exists,
  not even one that straddles the border.
\<close>

lemma find_at_append:
  "\<forall>j < length a. take (length p) (drop j (a @ p @ b)) \<noteq> p \<Longrightarrow> find_at p (a @ p @ b) = Some (length a)"
proof (induction a)
  case Nil
  have "take (length p) (p @ b) = p" by simp
  then show ?case by (cases "p @ b") auto
next
  case (Cons c a)
  from Cons.prems have "take (length p) ((c # a) @ p @ b) \<noteq> p"
    by (metis drop0 length_greater_0_conv list.discI)
  moreover have "\<forall>j < length a. take (length p) (drop j (a @ p @ b)) \<noteq> p"
    using Cons.prems by (metis Suc_less_eq append_Cons drop_Suc_Cons length_Cons)
  ultimately show ?case using Cons.IH by simp
qed

lemma find_at_single:
  "find_at [c] s = (if c \<in> set s then Some (length (takeWhile (\<lambda>d. d \<noteq> c) s)) else None)"
  by (induction s) auto

lemma find_last_of_None [simp]: "find_last_of c s = None \<longleftrightarrow> c \<notin> set s"
  by (induction s) (auto split: option.splits)

lemma find_last_of_less: "find_last_of c s = Some i \<Longrightarrow> i < length s"
  by (induction s arbitrary: i) (auto split: option.splits if_splits)

lemma find_last_of_append [simp]:
  "c \<notin> set b \<Longrightarrow> find_last_of c (a @ c # b) = Some (length a)"
  by (induction a) (auto split: option.splits simp flip: find_last_of_None)

lemma find_last_of_SomeD:
  "find_last_of c s = Some i \<Longrightarrow> s ! i = c \<and> c \<notin> set (drop (Suc i) s)"
  by (induction s arbitrary: i) (auto split: option.splits if_splits)

lemma length_replace_char [simp]: "length (replace_char a b s) = length s"
  by (simp add: replace_char_def)

lemma set_replace_char: "a \<noteq> b \<Longrightarrow> a \<notin> set (replace_char a b s)"
  by (auto simp: replace_char_def)

lemma set_replace_char_other: "c \<notin> set s \<Longrightarrow> c \<noteq> b \<Longrightarrow> c \<notin> set (replace_char a b s)"
  by (auto simp: replace_char_def)

lemma replace_char_id: "a \<notin> set s \<Longrightarrow> replace_char a b s = s"
  by (induction s) (auto simp: replace_char_def)

lemma c_str_id [simp]: "NUL \<notin> set s \<Longrightarrow> c_str s = s"
  unfolding c_str_def by (subst takeWhile_eq_all_conv) auto

lemma c_str_append_NUL [simp]: "NUL \<notin> set s \<Longrightarrow> c_str (s @ NUL # t) = s"
  by (simp add: c_str_def takeWhile_append)

lemma find_at_fresh_head:
  assumes "p \<noteq> []" and "hd p \<notin> set a"
  shows "find_at p (a @ p @ b) = Some (length a)"
  using assms(2)
proof (induction a)
  case Nil
  have "take (length p) (p @ b) = p" by simp
  then show ?case by (cases "p @ b") auto
next
  case (Cons c a)
  then have "take (length p) (c # a @ p @ b) \<noteq> p"
    using assms(1) by (cases p) auto
  with Cons show ?case by simp
qed

lemma find_at_absent: "p \<noteq> [] \<Longrightarrow> hd p \<notin> set s \<Longrightarrow> find_at p s = None"
proof (induction s)
  case (Cons c s)
  then have "take (length p) (c # s) \<noteq> p" by (cases p) auto
  with Cons show ?case by simp
qed simp

end
