(* ===== verification/Std_Map.thy ===== *)
theory Std_Map
  imports Prelude "HOL-Library.Char_ord" "HOL-Library.List_Lexorder"
begin

text \<open>
  \<open>std::map\<close>: an association list sorted by key, so that its order is the iteration order of
  the source (strings compare byte by byte, as \<open>std::less<std::string>\<close> does).  \<open>smap_assign k v\<close>
  is \<open>m[k] = v\<close>, \<open>smap_find\<close> is \<open>find\<close>, and \<open>smap_index d k\<close> is a read of \<open>m[k]\<close>, which
  first inserts the value-initialised \<open>d\<close> when the key is absent.

  The interface \<open>ordered_map\<close> is what the clients (the configuration, the server's route
  table, the content types) rely on; they use its lemma that a sequence of assignments keeps
  the last value written to each key.
\<close>

type_synonym ('k, 'v) std_map = "('k \<times> 'v) list"

fun smap_assign :: "'k::linorder \<Rightarrow> 'v \<Rightarrow> ('k, 'v) std_map \<Rightarrow> ('k, 'v) std_map" where
  "smap_assign k v [] = [(k, v)]"
| "smap_assign k v ((j, w) # m) =
     (if k < j then (k, v) # (j, w) # m
      else if k = j then (k, v) # m
      else (j, w) # smap_assign k v m)"

fun smap_find :: "('k, 'v) std_map \<Rightarrow> 'k \<Rightarrow> 'v option" where
  "smap_find [] k = None"
| "smap_find ((j, w) # m) k = (if k = j then Some w else smap_find m k)"

definition smap_index :: "'v \<Rightarrow> 'k::linorder \<Rightarrow> ('k, 'v) std_map \<Rightarrow> 'v \<times> ('k, 'v) std_map" where
  "smap_index d k m =
     (case smap_find m k of Some v \<Rightarrow> (v, m) | None \<Rightarrow> (d, smap_assign k d m))"

definition smap_ok :: "('k::linorder, 'v) std_map \<Rightarrow> bool" where
  "smap_ok m \<longleftrightarrow> sorted_wrt (<) (map fst m)"

definition assign_all :: "('k::linorder \<times> 'v) list \<Rightarrow> ('k, 'v) std_map \<Rightarrow> ('k, 'v) std_map" where
  "assign_all kvs m = fold (\<lambda>(k, v). smap_assign k v) kvs m"

section \<open>The interface\<close>

locale ordered_map =
  fixes empty :: 'm
    and assign :: "'k \<Rightarrow> 'v \<Rightarrow> 'm \<Rightarrow> 'm"
    and find :: "'m \<Rightarrow> 'k \<Rightarrow> 'v option"
    and entries :: "'m \<Rightarrow> ('k \<times> 'v) list"
    and ok :: "'m \<Rightarrow> bool"
  assumes ok_empty: "ok empty"
    and ok_assign: "ok m \<Longrightarrow> ok (assign k v m)"
    and find_empty: "find empty k = None"
    and find_assign: "find (assign k v m) j = (if j = k then Some v else find m j)"
    and entries_find: "ok m \<Longrightarrow> (k, v) \<in> set (entries m) \<longleftrightarrow> find m k = Some v"
    and entries_distinct: "ok m \<Longrightarrow> distinct (map fst (entries m))"
begin

lemma ok_fold: "ok m \<Longrightarrow> ok (fold (\<lambda>(k, v). assign k v) kvs m)"
  by (induction kvs arbitrary: m) (auto intro: ok_assign)

text \<open>The last assignment to a key is the one that is found.\<close>

lemma find_fold:
  "find (fold (\<lambda>(k, v). assign k v) kvs m) k =
     (case map_of (rev kvs) k of Some v \<Rightarrow> Some v | None \<Rightarrow> find m k)"
  by (induction kvs arbitrary: m)
    (auto simp: find_assign map_add_def split: option.splits)

lemma find_fold_empty:
  "find (fold (\<lambda>(k, v). assign k v) kvs empty) k = map_of (rev kvs) k"
  by (simp add: find_fold find_empty split: option.splits)

lemma entries_unique:
  assumes "ok m" and "(k, v) \<in> set (entries m)" and "(k, w) \<in> set (entries m)"
  shows "v = w"
  using assms by (simp add: entries_find)

end

section \<open>The sorted association list provides it\<close>

lemma smap_assign_keys: "set (map fst (smap_assign k v m)) = insert k (set (map fst m))"
  by (induction k v m rule: smap_assign.induct) auto

lemma smap_ok_assign: "smap_ok m \<Longrightarrow> smap_ok (smap_assign k v m)"
proof (induction k v m rule: smap_assign.induct)
  case (2 k v j w m)
  then have "smap_ok (smap_assign k v m)" if "j < k"
    using that by (auto simp: smap_ok_def)
  with 2 show ?case
    by (auto simp: smap_ok_def smap_assign_keys simp del: set_map)
qed (simp add: smap_ok_def)

lemma smap_find_assign: "smap_find (smap_assign k v m) j = (if j = k then Some v else smap_find m j)"
  by (induction k v m rule: smap_assign.induct) auto

lemma smap_find_in: "smap_find m k = Some v \<Longrightarrow> (k, v) \<in> set m"
  by (induction m k rule: smap_find.induct) (auto split: if_splits)

lemma smap_ok_distinct: "smap_ok m \<Longrightarrow> distinct (map fst m)"
  by (simp add: smap_ok_def strict_sorted_iff)

lemma smap_find_map_of: "smap_find m = map_of m"
  by (rule ext, induct_tac m) auto

lemma smap_entries_find: "smap_ok m \<Longrightarrow> (k, v) \<in> set m \<longleftrightarrow> smap_find m k = Some v"
  by (simp add: smap_find_map_of smap_ok_distinct)

interpretation smap: ordered_map "[]" smap_assign smap_find "\<lambda>m. m" smap_ok
  by unfold_locales
    (simp_all add: smap_ok_assign smap_find_assign smap_ok_distinct smap_ok_def [of "[]"]
       smap_find_map_of [symmetric] smap_entries_find)

lemma smap_find_assign_all:
  "smap_find (assign_all kvs m) k =
     (case map_of (rev kvs) k of Some v \<Rightarrow> Some v | None \<Rightarrow> smap_find m k)"
  unfolding assign_all_def by (rule smap.find_fold)

lemma smap_ok_assign_all: "smap_ok m \<Longrightarrow> smap_ok (assign_all kvs m)"
  unfolding assign_all_def by (rule smap.ok_fold)

lemma smap_find_index: "snd (smap_index d k m) = m \<or> smap_find m k = None"
  by (simp add: smap_index_def split: option.splits)

end
