(* ===== verification/Config.thy ===== *)
theory Config
  imports Std_String Std_Map
begin

text \<open>
  The configuration tree of \<open>include/config_parser.h\<close> and the member functions of
  \<open>NginxConfig\<close> that read it: printing (\<open>ToString\<close>), the port (\<open>GetPort\<close>), the location
  table (\<open>populateHandlerMap\<close>) and the older path table (\<open>GetFilesystemPath\<close>).

  A null \<open>child_block_\<close> is \<open>None\<close>; an access to it, or to an element a vector does not have,
  is a fault.
\<close>

section \<open>The tree\<close>

datatype NginxConfig = NginxConfig (statements: "NginxConfigStatement list")
  and NginxConfigStatement =
    NginxConfigStatement (tokens: "string list") (child_block: "NginxConfig option")

section \<open>Printing\<close>

definition indent :: "nat \<Rightarrow> string" where
  "indent depth = concat (replicate depth ''  '')"

fun join_tokens :: "string list \<Rightarrow> string" where
  "join_tokens [] = []"
| "join_tokens [t] = t"
| "join_tokens (t # u # ts) = t @ SP # join_tokens (u # ts)"

fun ToString :: "NginxConfig \<Rightarrow> nat \<Rightarrow> string"
  and statements_ToString :: "NginxConfigStatement list \<Rightarrow> nat \<Rightarrow> string"
  and statement_ToString :: "NginxConfigStatement \<Rightarrow> nat \<Rightarrow> string" where
  "ToString (NginxConfig ss) depth = statements_ToString ss depth"
| "statements_ToString [] depth = []"
| "statements_ToString (s # ss) depth = statement_ToString s depth @ statements_ToString ss depth"
| "statement_ToString (NginxConfigStatement ts None) depth =
     indent depth @ join_tokens ts @ '';'' @ [LF]"
| "statement_ToString (NginxConfigStatement ts (Some block)) depth =
     indent depth @ join_tokens ts @ '' {'' @ [LF] @ ToString block (depth + 1)
       @ indent depth @ ''}'' @ [LF]"

section \<open>The port\<close>

text \<open>\<open>-1\<close> stands for ``no port here'', in a child block as at the top.\<close>

fun GetPortHelper :: "NginxConfig \<Rightarrow> int result"
  and statements_port :: "NginxConfigStatement list \<Rightarrow> int result" where
  "GetPortHelper (NginxConfig ss) = statements_port ss"
| "statements_port [] = Inr (- 1)"
| "statements_port (NginxConfigStatement ts child # ss) =
     (if length ts = 2 \<and> ts ! 0 = ''port'' then stoi (ts ! 1)
      else (case child of
        None \<Rightarrow> statements_port ss
      | Some block \<Rightarrow>
          rbind (GetPortHelper block) (\<lambda>port_value.
            if port_value \<noteq> - 1 then Inr port_value else statements_port ss)))"

definition GetPort :: "NginxConfig \<Rightarrow> int result" where
  "GetPort c = rbind (GetPortHelper c) (\<lambda>port.
     if 0 \<le> port \<and> port \<le> 65535 then Inr port else Inr 8080)"

section \<open>The location table\<close>

text \<open>
  The loop of \<open>removeSlash\<close>; on the empty path the source reads \<open>path[-1]\<close>.
\<close>

fun removeSlash_pos :: "string \<Rightarrow> nat \<Rightarrow> nat" where
  "removeSlash_pos path 0 = 0"
| "removeSlash_pos path (Suc pos) =
     (if path ! Suc pos = SLASH then removeSlash_pos path pos else Suc pos)"

definition removeSlash :: "string \<Rightarrow> string result" where
  "removeSlash path =
     (if path = [] then Inl Bad_index
      else Inr (take (removeSlash_pos path (length path - 1) + 1) path))"

type_synonym handler_map = "(string, string \<times> NginxConfig option) std_map"

fun populateHandlerMap_loop ::
  "NginxConfigStatement list \<Rightarrow> handler_map \<Rightarrow> handler_map result" where
  "populateHandlerMap_loop [] m = Inr m"
| "populateHandlerMap_loop (NginxConfigStatement ts child # ss) m =
     (if length ts = 3 \<and> ts ! 0 = ''location'' then
        rbind (removeSlash (ts ! 1)) (\<lambda>location.
          populateHandlerMap_loop ss (smap_assign location (ts ! 2, child) m))
      else populateHandlerMap_loop ss m)"

definition populateHandlerMap :: "NginxConfig \<Rightarrow> handler_map \<Rightarrow> handler_map result" where
  "populateHandlerMap c m = populateHandlerMap_loop (statements c) m"

section \<open>The path table of the older format\<close>

type_synonym fs_paths = "(string, string) std_map"

text \<open>The \<open>root\<close> path a block gives as its first statement.\<close>

fun first_root :: "NginxConfig option \<Rightarrow> string option result" where
  "first_root None = Inl Null_deref"
| "first_root (Some (NginxConfig [])) = Inl Bad_index"
| "first_root (Some (NginxConfig (NginxConfigStatement ts c # ss))) =
     Inr (if length ts = 2 \<and> ts ! 0 = ''root'' then Some (ts ! 1) else None)"

fun GetFilesystemPathHelper :: "NginxConfig \<Rightarrow> fs_paths \<Rightarrow> fs_paths result"
  and statements_paths :: "NginxConfigStatement list \<Rightarrow> fs_paths \<Rightarrow> fs_paths result" where
  "GetFilesystemPathHelper (NginxConfig ss) m = statements_paths ss m"
| "statements_paths [] m = Inr m"
| "statements_paths (NginxConfigStatement ts child # ss) m =
     (if length ts = 2 \<and> ts ! 0 = ''location'' then
        rbind (first_root child) (\<lambda>r.
          statements_paths ss (case r of Some path \<Rightarrow> smap_assign (ts ! 1) path m | None \<Rightarrow> m))
      else (case child of
        None \<Rightarrow> statements_paths ss m
      | Some block \<Rightarrow> rbind (GetFilesystemPathHelper block m) (statements_paths ss)))"

definition GetFilesystemPath :: "NginxConfig \<Rightarrow> fs_paths result" where
  "GetFilesystemPath c = GetFilesystemPathHelper c []"

section \<open>Well-formed trees\<close>

text \<open>What the parser guarantees of a tree it builds: no statement and no token is empty.\<close>

fun config_ok :: "NginxConfig \<Rightarrow> bool"
  and statements_ok :: "NginxConfigStatement list \<Rightarrow> bool"
  and statement_ok :: "NginxConfigStatement \<Rightarrow> bool" where
  "config_ok (NginxConfig ss) \<longleftrightarrow> statements_ok ss"
| "statements_ok [] \<longleftrightarrow> True"
| "statements_ok (s # ss) \<longleftrightarrow> statement_ok s \<and> statements_ok ss"
| "statement_ok (NginxConfigStatement ts None) \<longleftrightarrow> ts \<noteq> [] \<and> [] \<notin> set ts"
| "statement_ok (NginxConfigStatement ts (Some block)) \<longleftrightarrow> ts \<noteq> [] \<and> [] \<notin> set ts \<and> config_ok block"

lemma statements_ok_all: "statements_ok ss \<longleftrightarrow> (\<forall>s \<in> set ss. statement_ok s)"
  by (induction ss) auto

lemma statements_ok_append [simp]: "statements_ok (ss @ rs) \<longleftrightarrow> statements_ok ss \<and> statements_ok rs"
  by (auto simp: statements_ok_all)

lemma statement_ok_tokens: "statement_ok s \<Longrightarrow> tokens s \<noteq> [] \<and> [] \<notin> set (tokens s)"
  by (cases s; cases "child_block s") auto

lemma statement_ok_iff:
  "statement_ok (NginxConfigStatement ts child) \<longleftrightarrow>
     ts \<noteq> [] \<and> [] \<notin> set ts \<and> (case child of None \<Rightarrow> True | Some b \<Rightarrow> config_ok b)"
  by (cases child) auto

section \<open>The trailing slashes\<close>

lemma removeSlash_pos_le: "removeSlash_pos path pos \<le> pos"
  by (induction path pos rule: removeSlash_pos.induct) (auto intro: le_SucI)

lemma removeSlash_pos_stop:
  "removeSlash_pos path pos = 0 \<or> path ! removeSlash_pos path pos \<noteq> SLASH"
  by (induction path pos rule: removeSlash_pos.induct) auto

lemma removeSlash_pos_slashes:
  "removeSlash_pos path pos < i \<Longrightarrow> i \<le> pos \<Longrightarrow> path ! i = SLASH"
  by (induction path pos rule: removeSlash_pos.induct) (auto split: if_splits simp: le_Suc_eq)

lemma removeSlash_total: "path \<noteq> [] \<Longrightarrow> \<exists>r. removeSlash path = Inr r \<and> r \<noteq> []"
  by (simp add: removeSlash_def)

lemma removeSlash_split:
  assumes "removeSlash path = Inr r"
  shows "\<exists>n. path = r @ replicate n SLASH" and "r \<noteq> []" and "last r = SLASH \<Longrightarrow> r = [SLASH]"
proof -
  let ?p = "removeSlash_pos path (length path - 1)"
  from assms have ne: "path \<noteq> []" and r: "r = take (?p + 1) path"
    by (auto simp: removeSlash_def split: if_splits)
  have lt: "?p < length path"
    using removeSlash_pos_le [of path "length path - 1"] ne by (cases path) auto
  have "drop (?p + 1) path = replicate (length path - (?p + 1)) SLASH"
    by (rule nth_equalityI) (auto intro!: removeSlash_pos_slashes [of path "length path - 1"])
  then have "path = r @ replicate (length path - (?p + 1)) SLASH"
    using r append_take_drop_id [of "?p + 1" path] by simp
  then show "\<exists>n. path = r @ replicate n SLASH" by blast
  show "r \<noteq> []" using r ne by simp
  have "last r = path ! ?p"
    using r lt by (simp add: take_Suc_conv_app_nth)
  moreover assume "last r = SLASH"
  ultimately have "?p = 0"
    using removeSlash_pos_stop [of path "length path - 1"] by auto
  with r ne \<open>last r = SLASH\<close> show "r = [SLASH]"
    by (cases path) auto
qed


section \<open>The port\<close>

lemma GetPort_range: "GetPort c = Inr p \<Longrightarrow> 0 \<le> p \<and> p \<le> 65535"
  by (auto simp: GetPort_def result_iff split: if_splits)

text \<open>
  The values of the two-token \<open>port\<close> statements in document order, of those that come first in
  their block: what follows a \<open>port\<close> statement in the same block is not looked at, nor is its own block.
\<close>

fun ports_of :: "NginxConfig \<Rightarrow> string list"
  and statements_ports :: "NginxConfigStatement list \<Rightarrow> string list" where
  "ports_of (NginxConfig ss) = statements_ports ss"
| "statements_ports [] = []"
| "statements_ports (NginxConfigStatement ts child # ss) =
     (if length ts = 2 \<and> ts ! 0 = ''port'' then [ts ! 1]
      else (case child of None \<Rightarrow> [] | Some block \<Rightarrow> ports_of block) @ statements_ports ss)"

text \<open>The first of them that counts: \<open>-1\<close> reads as no port at all.\<close>

definition first_port :: "string list \<Rightarrow> int result" where
  "first_port vs =
     (case dropWhile (\<lambda>v. stoi v = Inr (- 1)) vs of [] \<Rightarrow> Inr (- 1) | v # _ \<Rightarrow> stoi v)"

lemma first_port_simps [simp]:
  "first_port [] = Inr (- 1)"
  "first_port (v # vs) = (if stoi v = Inr (- 1) then first_port vs else stoi v)"
  by (simp_all add: first_port_def)

lemma first_port_append:
  "first_port (vs @ ws) = rbind (first_port vs) (\<lambda>p. if p \<noteq> - 1 then Inr p else first_port ws)"
  by (induction vs) (auto simp: rbind_def split: sum.split)

lemma GetPortHelper_first:
  "GetPortHelper c = first_port (ports_of c)"
  "statements_port ss = first_port (statements_ports ss)"
proof (induction c and ss rule: GetPortHelper_statements_port.induct)
  case (3 ts child ss)
  then show ?case by (auto simp: first_port_append intro!: rbind_cong split: option.split)
qed simp_all

section \<open>The location table\<close>

text \<open>The entries \<open>populateHandlerMap\<close> makes, in document order.\<close>

fun location_entries :: "NginxConfigStatement list \<Rightarrow> (string \<times> (string \<times> NginxConfig option)) list" where
  "location_entries [] = []"
| "location_entries (NginxConfigStatement ts child # ss) =
     (if length ts = 3 \<and> ts ! 0 = ''location'' then
        (case removeSlash (ts ! 1) of
           Inl e \<Rightarrow> location_entries ss
         | Inr location \<Rightarrow> (location, (ts ! 2, child)) # location_entries ss)
      else location_entries ss)"

lemma populateHandlerMap_loop_eq:
  "statements_ok ss \<Longrightarrow> populateHandlerMap_loop ss m = Inr (assign_all (location_entries ss) m)"
proof (induction ss m rule: populateHandlerMap_loop.induct)
  case (2 ts child ss m)
  show ?case
  proof (cases "length ts = 3 \<and> ts ! 0 = ''location''")
    case True
    with "2.prems" have "ts ! 1 \<noteq> []"
      by (metis nth_mem numeral_3_eq_3 one_less_numeral_iff semiring_norm(77) statement_ok_iff
          statements_ok.simps(2))
    then obtain r where "removeSlash (ts ! 1) = Inr r" using removeSlash_total by blast
    with True 2 show ?thesis by (simp add: assign_all_def)
  next
    case False
    with 2 show ?thesis by auto
  qed
qed (simp add: assign_all_def)

text \<open>
  C31: for a tree the parser builds, the location table is a sorted map, and
  what it holds for a path is the handler name and block of the last three-token \<open>location\<close>
  statement whose path, without its trailing slashes, is that path.
\<close>

theorem populateHandlerMap_find:
  assumes "config_ok c"
  shows "\<exists>m. populateHandlerMap c [] = Inr m \<and> smap_ok m \<and>
    (\<forall>l. smap_find m l = map_of (rev (location_entries (statements c))) l)"
proof -
  from assms have "statements_ok (statements c)" by (cases c) simp
  then have "populateHandlerMap c [] = Inr (assign_all (location_entries (statements c)) [])"
    by (simp add: populateHandlerMap_def populateHandlerMap_loop_eq)
  then show ?thesis
    by (auto simp: smap_find_assign_all smap.ok_empty smap_ok_assign_all split: option.splits)
qed

lemma populateHandlerMap_find_witness:
  "\<exists>m. populateHandlerMap (NginxConfig
      [NginxConfigStatement [''location'', ''/a/'', ''EchoHandler''] (Some (NginxConfig [])),
       NginxConfigStatement [''location'', ''/a'', ''StaticHandler''] None]) [] = Inr m \<and>
    smap_find m ''/a'' = Some (''StaticHandler'', None)"
proof -
  let ?c = "NginxConfig
      [NginxConfigStatement [''location'', ''/a/'', ''EchoHandler''] (Some (NginxConfig [])),
       NginxConfigStatement [''location'', ''/a'', ''StaticHandler''] None]"
  have "map_of (rev (location_entries (statements ?c))) ''/a'' = Some (''StaticHandler'', None)"
    by code_simp
  moreover have "config_ok ?c" by simp
  ultimately show ?thesis
    using populateHandlerMap_find [of ?c] by metis
qed

section \<open>Properties\<close>

text \<open>
  On a path that is not empty, \<open>removeSlash\<close> takes off trailing slashes only,
  and takes off all of them but the one of a path made of slashes; the empty path is read at
  index -1.
\<close>

theorem removeSlash_spec:
  "case removeSlash path of
     Inl e \<Rightarrow> path = [] \<and> e = Bad_index
   | Inr r \<Rightarrow> r \<noteq> [] \<and> (\<exists>n. path = r @ replicate n SLASH) \<and> (last r = SLASH \<longleftrightarrow> r = [SLASH])"
proof (cases "removeSlash path")
  case (Inl e)
  then show ?thesis by (simp add: removeSlash_def split: if_splits)
next
  case (Inr r)
  with removeSlash_split [OF this] show ?thesis by auto
qed

text \<open>
  C32: of the \<open>port\<close> statements that come first in their block, at whatever depth, the
  first one in the order of the document whose value is not -1 decides: the port is its value, if
  that is between 0 and 65535, and 8080 if it is another number or if there is no such statement;
  a value that \<open>stoi\<close> does not read throws its exception.
\<close>

theorem GetPort_spec:
  "GetPort c =
     (case dropWhile (\<lambda>v. stoi v = Inr (- 1)) (ports_of c) of
        [] \<Rightarrow> Inr 8080
      | v # _ \<Rightarrow> rbind (stoi v) (\<lambda>p. Inr (if 0 \<le> p \<and> p \<le> 65535 then p else 8080)))"
proof (cases "dropWhile (\<lambda>v. stoi v = Inr (- 1)) (ports_of c)")
  case Nil
  show ?thesis unfolding GetPort_def GetPortHelper_first(1) first_port_def Nil by simp
next
  case (Cons v vs)
  show ?thesis
    unfolding GetPort_def GetPortHelper_first(1) first_port_def Cons by (auto intro!: rbind_cong)
qed

text \<open>A port in a block before one at the top; one out of range before one that is not; \<open>-1\<close>.\<close>

lemma GetPort_examples:
  "GetPort (NginxConfig [NginxConfigStatement [''server'']
      (Some (NginxConfig [NginxConfigStatement [''port'', ''80''] None])),
     NginxConfigStatement [''port'', ''90''] None]) = Inr 80"
  "GetPort (NginxConfig [NginxConfigStatement [''port'', ''70000''] None,
     NginxConfigStatement [''port'', ''80''] None]) = Inr 8080"
  "GetPort (NginxConfig [NginxConfigStatement [''server'']
      (Some (NginxConfig [NginxConfigStatement [''port'', ''-1''] None, NginxConfigStatement [''port'', ''80''] None])),
     NginxConfigStatement [''port'', ''90''] None]) = Inr 90"
  by (simp_all add: GetPort_def stoi_eval)

lemma stoi_fault: "stoi s = Inl e \<Longrightarrow> e \<in> {Invalid_argument, Out_of_range}"
  by (auto simp: stoi_def Let_def split: prod.splits if_splits)

lemma GetPortHelper_fault:
  "GetPortHelper c = Inl e \<Longrightarrow> e \<in> {Invalid_argument, Out_of_range}"
  "statements_port ss = Inl e \<Longrightarrow> e \<in> {Invalid_argument, Out_of_range}"
proof (induction c and ss rule: GetPortHelper_statements_port.induct)
  case (3 ts child ss)
  then show ?case
    by (auto simp: result_iff split: if_splits option.splits dest!: stoi_fault)
qed auto

text \<open>
  Whatever the tree, a port that \<open>GetPort\<close> returns fits in 16 bits, and a value of
  a \<open>port\<close> statement that is out of that range gives 8080; the only failures are those of \<open>stoi\<close>.
\<close>

theorem GetPort_bounds:
  "case GetPort c of
     Inl e \<Rightarrow> e = Invalid_argument \<or> e = Out_of_range
   | Inr p \<Rightarrow> 0 \<le> p \<and> p \<le> 65535"
proof (cases "GetPort c")
  case (Inl e)
  then show ?thesis
    using GetPortHelper_fault(1) [of c e] by (auto simp: GetPort_def result_iff split: if_splits)
next
  case (Inr p)
  then show ?thesis using GetPort_range by simp
qed

end
