(* ===== verification/Routing.thy ===== *)
theory Routing
  imports Config "HOL-Library.Word"
begin

text \<open>
  The route table: \<open>Server::Server\<close>, \<open>Server::createHandlerFactory\<close> (\<open>src/server.cc\<close>), the factory
  classes (\<open>include/request_factory.h\<close>) and \<open>RealSession::match\<close> (\<open>src/session.cc\<close>), which picks the
  location for a target.

  A factory is stateless, so it is its class; a null pointer is \<open>None\<close>.
\<close>

section \<open>Factories and the server's tables\<close>

datatype RequestHandlerFactory =
    EchoRequestHandlerFactory
  | StaticRequestHandlerFactory
  | ErrorHandlerFactory
  | ApiRequestHandlerFactory
  | HealthRequestHandlerFactory
  | MemeRequestHandlerFactory

definition createHandlerFactory :: "string \<Rightarrow> RequestHandlerFactory option" where
  "createHandlerFactory name =
     (if name = ''EchoHandler'' then Some EchoRequestHandlerFactory
      else if name = ''StaticHandler'' then Some StaticRequestHandlerFactory
      else if name = ''ErrorHandler'' then Some ErrorHandlerFactory
      else if name = ''ApiHandler'' then Some ApiRequestHandlerFactory
      else if name = ''HealthHandler'' then Some HealthRequestHandlerFactory
      else if name = ''MemeHandler'' then Some MemeRequestHandlerFactory
      else None)"

type_synonym routes = "(string, RequestHandlerFactory option) std_map"

fun make_routes :: "handler_map \<Rightarrow> routes \<Rightarrow> routes" where
  "make_routes [] routes = routes"
| "make_routes ((location, (handler_type, conf)) # m) routes =
     make_routes m (smap_assign location (createHandlerFactory handler_type) routes)"

text \<open>
  The port arrives as an \<open>int\<close>, is passed on as a \<open>short\<close>, which the log shows, and becomes the
  unsigned 16-bit port of the endpoint.
\<close>

record server =
  sv_port :: "16 word"
  sv_handler_map :: handler_map
  sv_routes :: routes

definition Server :: "int \<Rightarrow> handler_map \<Rightarrow> server" where
  "Server port handler_map =
     \<lparr>sv_port = word_of_int port, sv_handler_map = handler_map, sv_routes = make_routes handler_map []\<rparr>"

definition endpoint_port :: "server \<Rightarrow> int" where
  "endpoint_port s = uint (sv_port s)"

definition logged_port :: "server \<Rightarrow> string" where
  "logged_port s = to_string (sint (sv_port s))"

lemma make_routes_assign_all:
  "make_routes m routes =
     assign_all (map (\<lambda>(l, t, c). (l, createHandlerFactory t)) m) routes"
  by (induction m routes rule: make_routes.induct) (simp_all add: assign_all_def)

lemma Server_routes_find:
  assumes "smap_ok m"
  shows "smap_find (sv_routes (Server port m)) l =
    map_option (\<lambda>(t, c). createHandlerFactory t) (smap_find m l)"
proof -
  let ?kvs = "map (\<lambda>(l, t, c). (l, createHandlerFactory t)) m"
  have "map fst ?kvs = map fst m" by (auto simp: split_def)
  then have "map_of (rev ?kvs) = map_of ?kvs"
    using smap_ok_distinct [OF assms] by (intro map_of_rev_eq) (simp only:)
  moreover have "map_of ?kvs l = map_option (\<lambda>(t, c). createHandlerFactory t) (map_of m l)"
    by (induction m) auto
  ultimately show ?thesis
    by (simp add: Server_def make_routes_assign_all smap_find_assign_all split: option.split)
      (auto simp: smap_find_map_of)
qed

lemma Server_routes_ok: "smap_ok (sv_routes (Server port m))"
  by (simp add: Server_def make_routes_assign_all smap_ok_assign_all smap.ok_empty)

section \<open>The longest match\<close>

text \<open>\<open>s.at(k)\<close>\<close>

definition at_index :: "string \<Rightarrow> nat \<Rightarrow> char result" where
  "at_index s k = (if k < length s then Inr (s ! k) else Inl Out_of_range)"

text \<open>The condition of the inner \<open>if\<close>; \<open>at\<close> is only reached when the test before it failed.\<close>

definition location_test :: "string \<Rightarrow> string \<Rightarrow> bool result" where
  "location_test request_uri location =
     (if take (length location) request_uri \<noteq> location then Inr False
      else if length request_uri = length location then Inr True
      else rbind (at_index request_uri (length location)) (\<lambda>c. Inr (c = SLASH)))"

fun match_loop :: "string \<Rightarrow> (string \<times> 'v) list \<Rightarrow> string \<Rightarrow> nat \<Rightarrow> string result" where
  "match_loop request_uri [] res res_len = Inr res"
| "match_loop request_uri ((location, f) # routes) res res_len =
     rbind (location_test request_uri location) (\<lambda>b.
       if b \<and> length location > res_len
       then match_loop request_uri routes location (length location)
       else match_loop request_uri routes res res_len)"

definition match :: "routes \<Rightarrow> string \<Rightarrow> string result" where
  "match routes request_uri = match_loop request_uri routes [] 0"

text \<open>A location covers a target: it is the target, or its prefix up to a slash.\<close>

definition covers :: "string \<Rightarrow> string \<Rightarrow> bool" where
  "covers location uri \<longleftrightarrow> uri = location \<or> (\<exists>s. uri = location @ SLASH # s)"

lemma location_test_covers: "location_test uri location = Inr (covers location uri)"
proof (cases "take (length location) uri = location")
  case True
  then obtain r where r: "uri = location @ r" by (auto simp: take_eq_iff_append)
  then show ?thesis
    by (cases r) (auto simp: location_test_def covers_def at_index_def)
next
  case False
  then show ?thesis by (auto simp: location_test_def covers_def)
qed

lemma match_loop_spec:
  "\<exists>r. match_loop uri routes res (length res) = Inr r \<and>
     (r = res \<or> r \<in> fst ` set routes \<and> covers r uri) \<and> length res \<le> length r \<and>
     (\<forall>l \<in> fst ` set routes. covers l uri \<longrightarrow> length l \<le> length r)"
proof (induction routes arbitrary: res)
  case (Cons x routes)
  obtain location f where x: "x = (location, f)" by (cases x)
  show ?case
  proof (cases "covers location uri \<and> length location > length res")
    case True
    obtain r where "match_loop uri routes location (length location) = Inr r"
      "r = location \<or> r \<in> fst ` set routes \<and> covers r uri" "length location \<le> length r"
      "\<forall>l \<in> fst ` set routes. covers l uri \<longrightarrow> length l \<le> length r"
      using Cons.IH [of location] by blast
    with True x show ?thesis by (auto simp: location_test_covers)
  next
    case False
    obtain r where "match_loop uri routes res (length res) = Inr r"
      "r = res \<or> r \<in> fst ` set routes \<and> covers r uri" "length res \<le> length r"
      "\<forall>l \<in> fst ` set routes. covers l uri \<longrightarrow> length l \<le> length r"
      using Cons.IH [of res] by blast
    with False x show ?thesis by (auto simp: location_test_covers)
  qed
qed simp

lemma covers_longest_unique:
  "covers l uri \<Longrightarrow> covers k uri \<Longrightarrow> length l = length k \<Longrightarrow> l = k"
  by (auto simp: covers_def)

text \<open>
  C13: \<open>match\<close> never throws, and its result is the longest location of the table that
  is the target or a prefix of it ending at a slash; it is the empty string exactly if no location
  but the empty one does.
\<close>

theorem match_longest:
  "\<exists>r. match routes uri = Inr r \<and>
     (r \<noteq> [] \<longrightarrow> r \<in> fst ` set routes \<and> covers r uri) \<and>
     (\<forall>l \<in> fst ` set routes. covers l uri \<longrightarrow> length l \<le> length r)"
  using match_loop_spec [of uri routes "[]"] by (auto simp: match_def)

lemma match_longest_witness:
  "\<exists>r. match [(''/a'', Some EchoRequestHandlerFactory), (''/a/b'', None), (''/a/bc'', None)] ''/a/b/c'' = Inr r \<and>
    covers r ''/a/b/c'' \<and> 4 \<le> length r"
proof -
  let ?routes = "[(''/a'', Some EchoRequestHandlerFactory), (''/a/b'', None), (''/a/bc'', None)]"
  have "covers ''/a/b'' ''/a/b/c''" by (simp add: covers_def)
  then show ?thesis
    using match_longest [of ?routes "''/a/b/c''"] by fastforce
qed

text \<open>
  A port that \<open>GetPort\<close> can return reaches the endpoint unchanged, although it passes
  through a signed 16-bit \<open>short\<close>; what is logged is negative from 32768 on.
\<close>

theorem port_kept:
  assumes "0 \<le> p" and "p \<le> 65535"
  shows "endpoint_port (Server p m) = p \<and>
    logged_port (Server p m) = to_string (if p < 32768 then p else p - 65536)"
proof -
  have unsigned: "uint (word_of_int p :: 16 word) = p"
    using assms by (simp add: uint_word_of_int_eq take_bit_int_eq_self)
  have small: "sint (word_of_int q :: 16 word) = q" if "- 32768 \<le> q" "q < 32768" for q
    using that by (simp add: signed_of_int signed_take_bit_int_eq_self)
  have wrap: "(word_of_int (p - 65536) :: 16 word) = word_of_int p" by simp
  have "sint (word_of_int p :: 16 word) = (if p < 32768 then p else p - 65536)"
    using small [of p] small [of "p - 65536", unfolded wrap] assms by auto
  with unsigned show ?thesis
    by (simp add: endpoint_port_def logged_port_def Server_def)
qed

lemma port_kept_witness: "endpoint_port (Server 40000 []) = 40000"
  using port_kept [of 40000 "[]"] by simp

end
