(* ===== verification/Http_Message.thy ===== *)
theory Http_Message
  imports Std_String
begin

text \<open>
  HTTP messages and the base class \<open>RequestHandler\<close> (\<open>include/request_handler.h\<close>).

  The messages are Boost.Beast's.  Their plain slots (method, target, status, reason, version,
  body) are record fields, written by record update where the source calls the setter.  The
  header collection is a value of a type \<open>'f\<close> about which nothing is assumed, and what Beast
  computes is a parameter of the model: the record \<open>'f beast\<close> holds the messages a default
  constructor makes, \<open>set\<close> of a header field, \<open>method_string\<close>, the text of a header (the
  source's \<open>lexical_cast\<close> of \<open>base()\<close>), the outcome of the request parser and \<open>lexical_cast<int>\<close>.
  A header field is named by Beast's enumeration or by a string, as in the two overloads of \<open>set\<close>.

  The interface \<open>request_handler\<close> states what the session relies on of every handler: the
  status it returns is the status it wrote to the response, and it is one of the five the server
  uses.  Each handler's theory interprets it.
\<close>

section \<open>Messages\<close>

datatype verb =
    Verb_unknown string
  | Verb_get | Verb_post | Verb_put | Verb_delete
  | Verb_head | Verb_connect | Verb_trace | Verb_options

datatype field_name =
    Field_content_type
  | Field_content_length
  | Field_string string

record 'f request =
  rq_method :: verb
  rq_target :: string
  rq_version :: nat
  rq_fields :: 'f
  rq_body :: string

record 'f response =
  rs_result :: int
  rs_reason :: string
  rs_version :: nat
  rs_fields :: 'f
  rs_body :: string

datatype parser_error = No_error | Bad_version | Other_error

record 'f beast =
  bs_request :: "'f request"
  bs_response :: "'f response"
  bs_set :: "'f \<Rightarrow> field_name \<Rightarrow> string \<Rightarrow> 'f"
  bs_method_string :: "'f request \<Rightarrow> string"
  bs_request_header :: "'f request \<Rightarrow> string"
  bs_response_header :: "'f response \<Rightarrow> string"
  bs_parser_put :: "string \<Rightarrow> parser_error"
  bs_cast_int :: "string \<Rightarrow> int option"

text \<open>What Beast documents of \<open>set\<close>: the field reads back, and other fields stay.\<close>

definition set_laws :: "('f \<Rightarrow> field_name \<Rightarrow> string option) \<Rightarrow> 'f beast \<Rightarrow> bool" where
  "set_laws get B \<longleftrightarrow>
     (\<forall>f n v. get (bs_set B f n v) n = Some v) \<and>
     (\<forall>f n v m. m \<noteq> n \<longrightarrow> m \<in> {Field_content_type, Field_content_length} \<longrightarrow>
        n \<in> {Field_content_type, Field_content_length} \<longrightarrow> get (bs_set B f n v) m = get f m)"

lemma set_get_same: "set_laws get B \<Longrightarrow> get (bs_set B f n v) n = Some v"
  by (simp add: set_laws_def)

lemma set_get_other:
  "set_laws get B \<Longrightarrow> get (bs_set B f Field_content_type v) Field_content_length = get f Field_content_length"
  "set_laws get B \<Longrightarrow> get (bs_set B f Field_content_length v) Field_content_type = get f Field_content_type"
  unfolding set_laws_def by blast+

text \<open>\<open>res.set(field, value)\<close>\<close>

definition res_set :: "'f beast \<Rightarrow> field_name \<Rightarrow> string \<Rightarrow> 'f response \<Rightarrow> 'f response" where
  "res_set B n v res = res\<lparr>rs_fields := bs_set B (rs_fields res) n v\<rparr>"

definition req_set :: "'f beast \<Rightarrow> field_name \<Rightarrow> string \<Rightarrow> 'f request \<Rightarrow> 'f request" where
  "req_set B n v req = req\<lparr>rq_fields := bs_set B (rq_fields req) n v\<rparr>"

lemma res_set_sel [simp]:
  "rs_result (res_set B n v res) = rs_result res"
  "rs_reason (res_set B n v res) = rs_reason res"
  "rs_version (res_set B n v res) = rs_version res"
  "rs_body (res_set B n v res) = rs_body res"
  "rs_fields (res_set B n v res) = bs_set B (rs_fields res) n v"
  by (simp_all add: res_set_def)

lemma req_set_sel [simp]:
  "rq_method (req_set B n v req) = rq_method req"
  "rq_target (req_set B n v req) = rq_target req"
  "rq_version (req_set B n v req) = rq_version req"
  "rq_body (req_set B n v req) = rq_body req"
  by (simp_all add: req_set_def)

section \<open>A concrete Beast\<close>

text \<open>
  Header fields as an association list, the latest first, and a parser that accepts everything;
  the witnesses run the handlers and the session on it.
\<close>

type_synonym field_list = "(field_name \<times> string) list"

fun verb_string :: "verb \<Rightarrow> string" where
  "verb_string (Verb_unknown s) = s"
| "verb_string Verb_get = ''GET''"
| "verb_string Verb_post = ''POST''"
| "verb_string Verb_put = ''PUT''"
| "verb_string Verb_delete = ''DELETE''"
| "verb_string Verb_head = ''HEAD''"
| "verb_string Verb_connect = ''CONNECT''"
| "verb_string Verb_trace = ''TRACE''"
| "verb_string Verb_options = ''OPTIONS''"

definition list_beast :: "field_list beast" where
  "list_beast =
     \<lparr>bs_request = \<lparr>rq_method = Verb_get, rq_target = [], rq_version = 11, rq_fields = [], rq_body = []\<rparr>,
      bs_response = \<lparr>rs_result = 200, rs_reason = [], rs_version = 11, rs_fields = [], rs_body = []\<rparr>,
      bs_set = \<lambda>f n v. (n, v) # f,
      bs_method_string = \<lambda>req. verb_string (rq_method req),
      bs_request_header = \<lambda>req. rq_target req,
      bs_response_header = \<lambda>res. rs_reason res,
      bs_parser_put = \<lambda>s. No_error,
      bs_cast_int = \<lambda>s. case stoi s of Inl e \<Rightarrow> None | Inr i \<Rightarrow> Some i\<rparr>"

lemma list_beast_laws: "set_laws map_of list_beast"
  by (simp add: set_laws_def list_beast_def)

section \<open>The base class\<close>

definition HTTP_STATUS_OK :: int where "HTTP_STATUS_OK = 200"
definition HTTP_STATUS_CREATED :: int where "HTTP_STATUS_CREATED = 201"
definition HTTP_STATUS_BAD_REQUEST :: int where "HTTP_STATUS_BAD_REQUEST = 400"
definition HTTP_STATUS_NOT_FOUND :: int where "HTTP_STATUS_NOT_FOUND = 404"
definition HTTP_STATUS_INTERNAL_SERVER_ERROR :: int where "HTTP_STATUS_INTERNAL_SERVER_ERROR = 500"

lemmas status_defs = HTTP_STATUS_OK_def HTTP_STATUS_CREATED_def HTTP_STATUS_BAD_REQUEST_def
  HTTP_STATUS_NOT_FOUND_def HTTP_STATUS_INTERNAL_SERVER_ERROR_def

definition statuses :: "int set" where
  "statuses = {HTTP_STATUS_OK, HTTP_STATUS_CREATED, HTTP_STATUS_BAD_REQUEST,
     HTTP_STATUS_NOT_FOUND, HTTP_STATUS_INTERNAL_SERVER_ERROR}"

lemma statuses_intros [simp, intro]:
  "HTTP_STATUS_OK \<in> statuses" "HTTP_STATUS_CREATED \<in> statuses" "HTTP_STATUS_BAD_REQUEST \<in> statuses"
  "HTTP_STATUS_NOT_FOUND \<in> statuses" "HTTP_STATUS_INTERNAL_SERVER_ERROR \<in> statuses"
  by (simp_all add: statuses_def)

definition handle_bad_request :: "'f response \<Rightarrow> int \<times> 'f response" where
  "handle_bad_request res =
     (HTTP_STATUS_BAD_REQUEST,
      res\<lparr>rs_reason := ''Bad Request'', rs_result := HTTP_STATUS_BAD_REQUEST\<rparr>)"

definition not_found_message :: string where
  "not_found_message = ''404 Not Found'' @ crlf"

definition handle_not_found :: "'f beast \<Rightarrow> 'f response \<Rightarrow> int \<times> 'f response" where
  "handle_not_found B res =
     (let res1 = res_set B Field_content_type ''text/plain'' res;
          res2 = res_set B Field_content_length (to_string (int (length not_found_message))) res1
      in (HTTP_STATUS_NOT_FOUND,
          res2\<lparr>rs_body := not_found_message, rs_reason := ''Not Found'',
            rs_result := HTTP_STATUS_NOT_FOUND\<rparr>))"

definition handle_internal_server_error :: "'f response \<Rightarrow> int \<times> 'f response" where
  "handle_internal_server_error res =
     (HTTP_STATUS_INTERNAL_SERVER_ERROR,
      res\<lparr>rs_reason := ''Internal Server Error'',
        rs_result := HTTP_STATUS_INTERNAL_SERVER_ERROR\<rparr>)"

text \<open>
  The \<open>200 OK\<close> that most handlers end with: content length and type, reason, result, body.
  The source sets the two header fields in either order, so both orders are definitions.
\<close>

definition ok_type_length :: "'f beast \<Rightarrow> string \<Rightarrow> string \<Rightarrow> 'f response \<Rightarrow> int \<times> 'f response" where
  "ok_type_length B content_type body res =
     (let res1 = res_set B Field_content_type content_type res;
          res2 = res_set B Field_content_length (to_string (int (length body))) res1
      in (HTTP_STATUS_OK,
          res2\<lparr>rs_reason := ''OK'', rs_result := HTTP_STATUS_OK, rs_body := body\<rparr>))"

definition ok_length_type ::
  "'f beast \<Rightarrow> int \<Rightarrow> string \<Rightarrow> string \<Rightarrow> 'f response \<Rightarrow> int \<times> 'f response" where
  "ok_length_type B status content_type body res =
     (let res1 = res_set B Field_content_length (to_string (int (length body))) res;
          res2 = res_set B Field_content_type content_type res1
      in (status,
          res2\<lparr>rs_reason := ''OK'', rs_result := status, rs_body := body\<rparr>))"

lemma fst_handlers [simp]:
  "fst (handle_bad_request res) = HTTP_STATUS_BAD_REQUEST"
  "fst (handle_not_found B res) = HTTP_STATUS_NOT_FOUND"
  "fst (handle_internal_server_error res) = HTTP_STATUS_INTERNAL_SERVER_ERROR"
  "fst (ok_length_type B st ty body res) = st"
  "fst (ok_type_length B ty body res) = HTTP_STATUS_OK"
  by (simp_all add: handle_bad_request_def handle_not_found_def handle_internal_server_error_def
      ok_length_type_def ok_type_length_def Let_def)

lemma ok_body [simp]:
  "rs_body (snd (ok_length_type B st ty body res)) = body"
  "rs_body (snd (ok_type_length B ty body res)) = body"
  by (simp_all add: ok_length_type_def ok_type_length_def Let_def)

text \<open>A response agrees with the status its handler returned.\<close>

definition agrees :: "int \<times> 'f response \<Rightarrow> bool" where
  "agrees r \<longleftrightarrow> rs_result (snd r) = fst r \<and> fst r \<in> statuses"

named_theorems agree_simps \<open>responses that agree with their status\<close>

lemma handle_agrees [agree_simps, simp]:
  "agrees (handle_bad_request res)"
  "agrees (handle_not_found B res)"
  "agrees (handle_internal_server_error res)"
  "agrees (ok_type_length B ty body res)"
  "status \<in> statuses \<Longrightarrow> agrees (ok_length_type B status ty body res)"
  by (simp_all add: agrees_def handle_bad_request_def handle_not_found_def
      handle_internal_server_error_def ok_type_length_def ok_length_type_def Let_def)

lemma agrees_pair: "agrees (st, res) \<longleftrightarrow> rs_result res = st \<and> st \<in> statuses"
  by (simp add: agrees_def)

text \<open>The same for a result: a fault makes no response.\<close>

definition agrees_result :: "(int \<times> 'f response) result \<Rightarrow> bool" where
  "agrees_result r \<longleftrightarrow> (case r of Inl e \<Rightarrow> True | Inr x \<Rightarrow> agrees x)"

lemma agrees_result_simps [simp]:
  "agrees_result (Inl e)" "agrees_result (Inr x) \<longleftrightarrow> agrees x"
  by (simp_all add: agrees_result_def)

lemma agrees_result_rbind [intro!]: "(\<And>x. agrees_result (f x)) \<Longrightarrow> agrees_result (rbind r f)"
  by (cases r) auto

lemma agrees_result_ebind [intro!]:
  "(\<And>x s. agrees_result (fst (f x s))) \<Longrightarrow> agrees_result (fst (ebind r f))"
  by (cases r; cases "fst r") auto

text \<open>
  The body of a response and its declared length: what a client needs to find the end of the
  message.
\<close>

definition framed :: "('f \<Rightarrow> field_name \<Rightarrow> string option) \<Rightarrow> 'f response \<Rightarrow> bool" where
  "framed get res \<longleftrightarrow>
     get (rs_fields res) Field_content_length = Some (to_string (int (length (rs_body res))))"

lemma framed_not_found:
  "set_laws get B \<Longrightarrow> framed get (snd (handle_not_found B res))"
  by (simp add: framed_def handle_not_found_def Let_def set_get_same set_get_other)

lemma framed_ok_type_length:
  "set_laws get B \<Longrightarrow> framed get (snd (ok_type_length B ty body res))"
  by (simp add: framed_def ok_type_length_def Let_def set_get_same set_get_other)

lemma ok_type_length_type:
  "set_laws get B \<Longrightarrow>
     get (rs_fields (snd (ok_type_length B ty body res))) Field_content_type = Some ty"
  by (simp add: ok_type_length_def Let_def set_get_same set_get_other)

lemma framed_ok_length_type:
  "set_laws get B \<Longrightarrow> framed get (snd (ok_length_type B st ty body res))"
  by (simp add: framed_def ok_length_type_def Let_def set_get_same set_get_other)

section \<open>The interface of a handler\<close>

text \<open>
  \<open>handle s req res\<close> runs the handler in the state \<open>s\<close> (of the file system, the tables, the
  database): the status and the response, or a fault, and the state afterwards.
\<close>

locale request_handler =
  fixes handle :: "'s \<Rightarrow> 'f request \<Rightarrow> 'f response \<Rightarrow> (int \<times> 'f response) result \<times> 's"
  assumes handle_agrees_status: "agrees_result (fst (handle s req res))"
begin

lemma handle_status:
  assumes "handle s req res = (Inr (st, res'), s')"
  shows "rs_result res' = st" and "st \<in> statuses"
  using handle_agrees_status [of s req res] assms by (auto simp: agrees_pair)

lemma handle_error_status:
  assumes "handle s req res = (Inr (st, res'), s')"
    and "st \<noteq> HTTP_STATUS_OK" and "st \<noteq> HTTP_STATUS_CREATED"
  shows "400 \<le> rs_result res'"
  using handle_status [OF assms(1)] assms(2,3) by (auto simp: statuses_def status_defs)

end

text \<open>
  A handler without a state of its own: it answers every request, and what the handlers share stays
  as it is.
\<close>

locale stateless_handler = request_handler handle
  for handle :: "'s \<Rightarrow> 'f request \<Rightarrow> 'f response \<Rightarrow> (int \<times> 'f response) result \<times> 's" +
  assumes handle_answers: "\<exists>r. handle s req res = (Inr r, s)"
begin

lemma handle_state: "snd (handle s req res) = s"
  using handle_answers [of s req res] by auto

lemma handle_no_fault: "faults_in A (fst (handle s req res))"
  using handle_answers [of s req res] by auto

end

end
