(* ===== verification/Simple_Handlers.thy ===== *)
theory Simple_Handlers
  imports Http_Message
begin

text \<open>
  The handlers without state: \<open>EchoRequestHandler\<close>, \<open>ErrorRequestHandler\<close> and
  \<open>HealthRequestHandler\<close>.  Each passes the state of the world through unchanged and never
  faults; each is an instance of the interface \<open>stateless_handler\<close>.
\<close>

section \<open>Echo\<close>

definition echo_handle_request ::
  "'f beast \<Rightarrow> 's \<Rightarrow> 'f request \<Rightarrow> 'f response \<Rightarrow> (int \<times> 'f response) result \<times> 's" where
  "echo_handle_request B s req res =
     (if bs_method_string B req = [] then (Inr (handle_bad_request res), s)
      else
        let res1 = res\<lparr>rs_version := rq_version req, rs_reason := ''OK'', rs_result := HTTP_STATUS_OK\<rparr>;
            res2 = res_set B Field_content_type ''text/plain'' res1;
            body = bs_request_header B req @ rq_body req;
            res3 = res2\<lparr>rs_body := body\<rparr>;
            res4 = res_set B Field_content_length (to_string (int (length (rs_body res3)))) res3
        in (Inr (HTTP_STATUS_OK, res4), s))"

section \<open>Error\<close>

definition error_handle_request ::
  "'f beast \<Rightarrow> 's \<Rightarrow> 'f request \<Rightarrow> 'f response \<Rightarrow> (int \<times> 'f response) result \<times> 's" where
  "error_handle_request B s req res = (Inr (handle_not_found B res), s)"

section \<open>Health\<close>

record health_handler =
  hh_location :: string

definition HealthRequestHandler :: "string \<Rightarrow> health_handler" where
  "HealthRequestHandler path = \<lparr>hh_location = path\<rparr>"

definition health_handle_request ::
  "'f beast \<Rightarrow> 's \<Rightarrow> 'f request \<Rightarrow> 'f response \<Rightarrow> (int \<times> 'f response) result \<times> 's" where
  "health_handle_request B s req res =
     (let res0 = res\<lparr>rs_version := rq_version req\<rparr> in
      if bs_method_string B req = [] then (Inr (handle_bad_request res0), s)
      else if rq_method req = Verb_get then
        let res1 = res0\<lparr>rs_reason := ''OK'', rs_result := HTTP_STATUS_OK\<rparr>;
            res2 = res_set B Field_content_type ''text/plain'' res1;
            res3 = res2\<lparr>rs_body := ''OK''\<rparr>;
            res4 = res_set B Field_content_length (to_string (int (length (rs_body res3)))) res3
        in (Inr (HTTP_STATUS_OK, res4), s)
      else (Inr (handle_bad_request res0), s))"

section \<open>They are request handlers\<close>

interpretation echo: stateless_handler "echo_handle_request B"
  by unfold_locales (auto simp: echo_handle_request_def Let_def agrees_pair)

interpretation error_handler: stateless_handler "error_handle_request B"
  by unfold_locales (auto simp: error_handle_request_def)

interpretation health: stateless_handler "health_handle_request B"
  by unfold_locales (auto simp: health_handle_request_def Let_def agrees_pair)

section \<open>Properties\<close>

text \<open>
  A request with a method is echoed with status 200: the body is the request's header
  followed by its body, and the content length is that body's length.
\<close>

theorem echo_answers:
  assumes "set_laws get B" and "bs_method_string B req \<noteq> []"
  shows "\<exists>res'. echo_handle_request B s req res = (Inr (HTTP_STATUS_OK, res'), s) \<and>
    rs_body res' = bs_request_header B req @ rq_body req \<and> framed get res' \<and>
    rs_version res' = rq_version req"
  using assms by (simp add: echo_handle_request_def Let_def framed_def set_get_same)

lemma echo_answers_witness:
  "\<exists>res'. echo_handle_request list_beast () ((bs_request list_beast)\<lparr>rq_target := ''/x'', rq_body := ''hi''\<rparr>)
      (bs_response list_beast) = (Inr (HTTP_STATUS_OK, res'), ()) \<and> rs_body res' = ''/xhi''"
proof -
  let ?req = "(bs_request list_beast)\<lparr>rq_target := ''/x'', rq_body := ''hi''\<rparr>"
  have "bs_method_string list_beast ?req \<noteq> []" "bs_request_header list_beast ?req @ rq_body ?req = ''/xhi''"
    by (simp_all add: list_beast_def)
  with echo_answers [OF list_beast_laws this(1), of "()" "bs_response list_beast"] show ?thesis by metis
qed

text \<open>
  The health handler answers a GET with 200 and the body \<open>OK\<close>, and every request
  with another method, or without one, with 400.
\<close>

theorem health_answers:
  "\<exists>res'. health_handle_request B s req res =
     (Inr (if bs_method_string B req \<noteq> [] \<and> rq_method req = Verb_get then HTTP_STATUS_OK
           else HTTP_STATUS_BAD_REQUEST, res'), s) \<and>
     rs_body res' = (if bs_method_string B req \<noteq> [] \<and> rq_method req = Verb_get then ''OK'' else rs_body res)"
  by (auto simp: health_handle_request_def Let_def handle_bad_request_def)

end
