(* ===== verification/File_System.thy ===== *)
theory File_System
  imports Std_String Config
begin

text \<open>
  The file system as the handlers see it.  Its state is a value of a type \<open>'s\<close> about which
  nothing is assumed, and its operations are a parameter of the model, the record
  \<open>'s file_ops\<close>: the streams of the standard library on the operating system's files, and the
  functions and path operations of Boost.Filesystem.  The functions of Boost that the source
  calls without an error code return a result, because they can throw.

  \<open>file_laws\<close> states what the handlers rely on: what was written to a path is what is read from
  it, a removed file cannot be opened, and creating directories leaves the files' contents alone.

  The last section is the configuration entry \<open>root <path>;\<close> that two handlers read in their
  constructors.
\<close>

record 's file_ops =
  fo_exists :: "'s \<Rightarrow> string \<Rightarrow> bool result"
  fo_is_regular_file :: "'s \<Rightarrow> string \<Rightarrow> bool result"
  fo_is_regular_file_ec :: "'s \<Rightarrow> string \<Rightarrow> bool"      \<comment> \<open>the overload with an error code\<close>
  fo_is_directory_ec :: "'s \<Rightarrow> string \<Rightarrow> bool"
  fo_create_directories :: "'s \<Rightarrow> string \<Rightarrow> unit result \<times> 's"
  fo_directory :: "'s \<Rightarrow> string \<Rightarrow> string list result"       \<comment> \<open>the paths of \<open>directory_iterator\<close>\<close>
  fo_recursive :: "'s \<Rightarrow> string \<Rightarrow> string list result"       \<comment> \<open>\<open>recursive_directory_iterator\<close>\<close>
  fo_stem :: "string \<Rightarrow> string"
  fo_filename :: "string \<Rightarrow> string"
  fo_remove_filename :: "string \<Rightarrow> string"
  fo_read :: "'s \<Rightarrow> string \<Rightarrow> string option"  \<comment> \<open>\<open>ifstream\<close>: \<open>None\<close> if not good, else its contents\<close>
  fo_open_trunc :: "'s \<Rightarrow> string \<Rightarrow> 's option" \<comment> \<open>\<open>ofstream\<close>: \<open>None\<close> if not open\<close>
  fo_write :: "'s \<Rightarrow> string \<Rightarrow> string \<Rightarrow> 's"   \<comment> \<open>\<open>file << data; file.close()\<close>\<close>
  fo_remove :: "'s \<Rightarrow> string \<Rightarrow> 's option"     \<comment> \<open>\<open>std::remove\<close>: \<open>None\<close> if not zero\<close>

definition file_laws :: "'s file_ops \<Rightarrow> bool" where
  "file_laws F \<longleftrightarrow>
     (\<forall>s p s' d. fo_open_trunc F s p = Some s' \<longrightarrow> fo_read F (fo_write F s' p d) p = Some d) \<and>
     (\<forall>s p s' d. fo_open_trunc F s p = Some s' \<longrightarrow>
        fo_is_regular_file_ec F (fo_write F s' p d) p \<and> \<not> fo_is_directory_ec F (fo_write F s' p d) p) \<and>
     (\<forall>s p s'. fo_remove F s p = Some s' \<longrightarrow>
        fo_read F s' p = None \<and> \<not> fo_is_regular_file_ec F s' p \<and> \<not> fo_is_directory_ec F s' p)"

lemma file_laws_read:
  "file_laws F \<Longrightarrow> fo_open_trunc F s p = Some s' \<Longrightarrow> fo_read F (fo_write F s' p d) p = Some d"
  "file_laws F \<Longrightarrow> fo_open_trunc F s p = Some s' \<Longrightarrow> fo_is_regular_file_ec F (fo_write F s' p d) p"
  "file_laws F \<Longrightarrow> fo_open_trunc F s p = Some s' \<Longrightarrow> \<not> fo_is_directory_ec F (fo_write F s' p d) p"
  unfolding file_laws_def by blast+

lemma file_laws_remove:
  "file_laws F \<Longrightarrow> fo_remove F s p = Some s' \<Longrightarrow> fo_read F s' p = None"
  "file_laws F \<Longrightarrow> fo_remove F s p = Some s' \<Longrightarrow> \<not> fo_is_regular_file_ec F s' p"
  "file_laws F \<Longrightarrow> fo_remove F s p = Some s' \<Longrightarrow> \<not> fo_is_directory_ec F s' p"
  unfolding file_laws_def by blast+

text \<open>\<open>if (!exists(path)) create_directories(path)\<close>\<close>

definition ensure_directory :: "'s file_ops \<Rightarrow> string \<Rightarrow> 's \<Rightarrow> unit result \<times> 's" where
  "ensure_directory F path s =
     (case fo_exists F s path of
        Inl e \<Rightarrow> (Inl e, s)
      | Inr True \<Rightarrow> (Inr (), s)
      | Inr False \<Rightarrow> fo_create_directories F s path)"

section \<open>A concrete file system\<close>

text \<open>
  A flat one, that maps a path to a file's contents (\<open>Some\<close>) or to a directory (\<open>None\<close>); the
  witnesses run the handlers on it.
\<close>

type_synonym flat_fs = "string \<Rightarrow> string option option"

definition flat_read :: "flat_fs \<Rightarrow> string \<Rightarrow> string option" where
  "flat_read s p = (case s p of Some (Some d) \<Rightarrow> Some d | Some None \<Rightarrow> Some [] | None \<Rightarrow> None)"

definition flat_open_trunc :: "flat_fs \<Rightarrow> string \<Rightarrow> flat_fs option" where
  "flat_open_trunc s p = (if s p = Some None then None else Some (s(p := Some (Some []))))"

definition flat_ops :: "flat_fs file_ops" where
  "flat_ops =
     \<lparr>fo_exists = \<lambda>s p. Inr (s p \<noteq> None),
      fo_is_regular_file = \<lambda>s p. Inr (s p \<noteq> None \<and> s p \<noteq> Some None),
      fo_is_regular_file_ec = \<lambda>s p. s p \<noteq> None \<and> s p \<noteq> Some None,
      fo_is_directory_ec = \<lambda>s p. s p = Some None,
      fo_create_directories = \<lambda>s p. (Inr (), s(p := Some None)),
      fo_directory = \<lambda>s p. Inr [],
      fo_recursive = \<lambda>s p. Inr [],
      fo_stem = \<lambda>p. p,
      fo_filename = \<lambda>p. p,
      fo_remove_filename = \<lambda>p. p,
      fo_read = flat_read,
      fo_open_trunc = flat_open_trunc,
      fo_write = \<lambda>s p d. s(p := Some (Some d)),
      fo_remove = \<lambda>s p. if s p = None then None else Some (s(p := None))\<rparr>"

lemmas flat_simps = flat_ops_def flat_read_def flat_open_trunc_def

lemma flat_laws: "file_laws flat_ops"
  by (auto simp: file_laws_def flat_simps)

section \<open>The \<open>root\<close> statement of a handler's block\<close>

text \<open>
  \<open>None\<close> is the bad configuration; a null block pointer or an empty statement is a fault.  The
  \<open>tokens_[0]\<close> comes before the test of the size.
\<close>

definition statement_value :: "string \<Rightarrow> NginxConfigStatement \<Rightarrow> string option result" where
  "statement_value key stmt =
     (if tokens stmt = [] then Inl Bad_index
      else if tokens stmt ! 0 \<noteq> key \<or> length (tokens stmt) \<noteq> 2 then Inr None
      else Inr (Some (tokens stmt ! 1)))"

definition root_of :: "NginxConfig option \<Rightarrow> string option result" where
  "root_of config =
     (case config of
        None \<Rightarrow> Inl Null_deref
      | Some c \<Rightarrow>
          (case statements c of
             [] \<Rightarrow> Inr None
           | stmt # stmts \<Rightarrow> statement_value ''root'' stmt))"

lemma statement_value_ok: "statement_ok stmt \<Longrightarrow> \<exists>r. statement_value key stmt = Inr r"
  using statement_ok_tokens [of stmt] by (simp add: statement_value_def)

lemma root_of_ok: "config_ok c \<Longrightarrow> \<exists>r. root_of (Some c) = Inr r"
  by (cases c) (auto simp: root_of_def split: list.split intro: statement_value_ok)

end
