(* ===== verification/Mime.thy ===== *)
theory Mime
  imports Std_String Std_Map
begin

text \<open>\<open>Mime\<close> (\<open>include/mime.h\<close>, \<open>src/mime.cc\<close>): content types by file extension.\<close>

definition content_type_list :: "(string \<times> string) list" where
  "content_type_list =
     [(''txt'', ''text/plain''),
      (''html'', ''text/html''),
      (''htm'', ''text/html''),
      (''jpg'', ''image/jpeg''),
      (''jpeg'', ''image/jpeg''),
      (''png'', ''image/png''),
      (''zip'', ''application/zip'')]"

definition content_type :: "(string, string) std_map" where
  "content_type = assign_all content_type_list []"

definition getContentType :: "string \<Rightarrow> string" where
  "getContentType fileExt =
     (case smap_find content_type fileExt of
        None \<Rightarrow> ''application/octet-stream''
      | Some ty \<Rightarrow> ty)"

text \<open>\<open>s.substr(s.find_last_of(".") + 1)\<close>: without a dot, \<open>npos + 1\<close> is 0.\<close>

definition file_extension :: "string \<Rightarrow> string" where
  "file_extension s =
     (case find_last_of (CHR ''.'') s of None \<Rightarrow> s | Some i \<Rightarrow> drop (i + 1) s)"

lemma getContentType_find:
  "getContentType ext =
     (case map_of content_type_list ext of None \<Rightarrow> ''application/octet-stream'' | Some ty \<Rightarrow> ty)"
proof -
  have "distinct (map fst content_type_list)" by (simp add: content_type_list_def)
  then have "map_of (rev content_type_list) = map_of content_type_list"
    by (simp add: map_of_rev_eq)
  then show ?thesis
    by (simp add: getContentType_def content_type_def smap_find_assign_all split: option.split)
qed

lemma file_extension_append: "CHR ''.'' \<notin> set ext \<Longrightarrow> file_extension (name @ CHR ''.'' # ext) = ext"
  by (simp add: file_extension_def)

lemma file_extension_none: "CHR ''.'' \<notin> set s \<Longrightarrow> file_extension s = s"
  by (simp add: file_extension_def flip: find_last_of_None)

end
