(* ===== verification/Static_Handler.thy ===== *)
theory Static_Handler
  imports Http_Message File_System Mime
begin

text \<open>
  \<open>StaticRequestHandler\<close> (\<open>src/static_request_handler.cc\<close>): serves the file whose path is the
  configured root followed by what the request target has after the location.  A request with
  another method than \<open>GET\<close> is echoed.
\<close>

record static_handler =
  sh_location :: string
  sh_root :: string
  sh_bad :: bool

definition StaticRequestHandler :: "string \<Rightarrow> NginxConfig option \<Rightarrow> static_handler result" where
  "StaticRequestHandler path config =
     rbind (root_of config) (\<lambda>r. Inr
       (case r of
          None \<Rightarrow> \<lparr>sh_location = path, sh_root = [], sh_bad = True\<rparr>
        | Some root \<Rightarrow> \<lparr>sh_location = path, sh_root = root, sh_bad = False\<rparr>))"

text \<open>The part that serves a file, after the target has been mapped to \<open>file_path\<close>.\<close>

definition static_serve ::
  "'f beast \<Rightarrow> 's file_ops \<Rightarrow> 's \<Rightarrow> string \<Rightarrow> string \<Rightarrow> 'f response \<Rightarrow> (int \<times> 'f response) result" where
  "static_serve B F s file_path file_ext res =
     rbind (fo_is_regular_file F s file_path) (\<lambda>regular.
       case fo_read F s file_path of
         None \<Rightarrow> Inr (handle_not_found B res)
       | Some body \<Rightarrow>
           if \<not> regular then Inr (handle_not_found B res)
           else Inr (ok_type_length B (getContentType file_ext) body res))"

definition static_handle_request ::
  "'f beast \<Rightarrow> 's file_ops \<Rightarrow> static_handler \<Rightarrow> 's \<Rightarrow> 'f request \<Rightarrow> 'f response \<Rightarrow>
     (int \<times> 'f response) result \<times> 's" where
  "static_handle_request B F h s req res =
     (let res0 = res\<lparr>rs_version := rq_version req\<rparr> in
      if bs_method_string B req = [] then (Inr (handle_bad_request res0), s)
      else if sh_bad h then (Inr (handle_not_found B res0), s)
      else if rq_method req \<noteq> Verb_get then
        let res1 = res0\<lparr>rs_reason := ''OK'', rs_result := HTTP_STATUS_OK\<rparr>;
            res2 = res_set B Field_content_type ''text/plain'' res1;
            body = bs_request_header B req @ rq_body req;
            res3 = res2\<lparr>rs_body := body\<rparr>;
            res4 = res_set B Field_content_length (to_string (int (length (rs_body res3)))) res3
        in (Inr (HTTP_STATUS_OK, res4), s)
      else
        let request_uri = rq_target req;
            file_ext = file_extension request_uri
        in (rbind (substr_from request_uri (length (sh_location h))) (\<lambda>suffix.
              static_serve B F s (sh_root h @ suffix) file_ext res0), s))"

interpretation static: request_handler "static_handle_request B F h"
  by unfold_locales
    (auto simp: static_handle_request_def static_serve_def Let_def agrees_pair split: option.split)

lemma static_state: "snd (static_handle_request B F h s req res) = s"
  by (simp add: static_handle_request_def Let_def)

text \<open>A target that starts with the location is never a fault unless the file system throws.\<close>

lemma static_get:
  assumes "bs_method_string B req \<noteq> []" and "\<not> sh_bad h" and "rq_method req = Verb_get"
    and "rq_target req = sh_location h @ suffix"
  shows "static_handle_request B F h s req res =
    (static_serve B F s (sh_root h @ suffix) (file_extension (rq_target req))
       (res\<lparr>rs_version := rq_version req\<rparr>), s)"
  using assms by (simp add: static_handle_request_def Let_def)

text \<open>
  C24: a GET of \<open>location + suffix\<close> answers with the file \<open>root + suffix\<close>: status 200,
  the contents as body, its length as content length, and the type of its extension.  When that
  path is no regular file or cannot be opened the answer is 404.  Nothing is written.
\<close>

theorem static_serves:
  assumes "set_laws get B" and "bs_method_string B req \<noteq> []" and "\<not> sh_bad h"
    and "rq_method req = Verb_get" and "rq_target req = sh_location h @ suffix"
    and "fo_is_regular_file F s (sh_root h @ suffix) = Inr regular"
  shows "\<exists>res'. static_handle_request B F h s req res =
      (Inr (if regular \<and> fo_read F s (sh_root h @ suffix) \<noteq> None
            then HTTP_STATUS_OK else HTTP_STATUS_NOT_FOUND, res'), s) \<and>
    framed get res' \<and>
    (\<forall>d. regular \<and> fo_read F s (sh_root h @ suffix) = Some d \<longrightarrow> rs_body res' = d \<and>
      get (rs_fields res') Field_content_type = Some (getContentType (file_extension (rq_target req))))"
proof (cases "regular \<and> fo_read F s (sh_root h @ suffix) \<noteq> None")
  case True
  then obtain d where d: "fo_read F s (sh_root h @ suffix) = Some d" by auto
  let ?r = "ok_type_length B (getContentType (file_extension (rq_target req))) d (res\<lparr>rs_version := rq_version req\<rparr>)"
  have "static_handle_request B F h s req res = (Inr ?r, s)"
    using static_get [OF assms(2-5), of F s res] assms(6) True d by (simp add: static_serve_def)
  moreover have "fst ?r = HTTP_STATUS_OK" "rs_body (snd ?r) = d"
    by (simp_all add: ok_type_length_def Let_def)
  ultimately show ?thesis
    using True d framed_ok_type_length [OF assms(1)] ok_type_length_type [OF assms(1)]
    by (intro exI [of _ "snd ?r"]) (simp add: prod_eq_iff)
next
  case False
  let ?r = "handle_not_found B (res\<lparr>rs_version := rq_version req\<rparr>)"
  have "static_handle_request B F h s req res = (Inr ?r, s)"
    using static_get [OF assms(2-5), of F s res] assms(6) False by (auto simp: static_serve_def split: option.split)
  moreover have "fst ?r = HTTP_STATUS_NOT_FOUND" by (simp add: handle_not_found_def Let_def)
  ultimately show ?thesis
    using False framed_not_found [OF assms(1)] by (intro exI [of _ "snd ?r"]) (auto simp: prod_eq_iff)
qed

lemma static_serves_witness:
  "\<exists>res'. static_handle_request list_beast flat_ops
      \<lparr>sh_location = ''/s'', sh_root = ''/www'', sh_bad = False\<rparr>
      ((\<lambda>p. None)(''/www/a.txt'' := Some (Some ''hi'')))
      ((bs_request list_beast)\<lparr>rq_target := ''/s/a.txt''\<rparr>) (bs_response list_beast) =
    (Inr (HTTP_STATUS_OK, res'), (\<lambda>p. None)(''/www/a.txt'' := Some (Some ''hi''))) \<and> rs_body res' = ''hi''"
proof -
  let ?h = "\<lparr>sh_location = ''/s'', sh_root = ''/www'', sh_bad = False\<rparr>"
  let ?req = "(bs_request list_beast)\<lparr>rq_target := ''/s/a.txt''\<rparr>"
  let ?s = "(\<lambda>p. None)(''/www/a.txt'' := Some (Some ''hi''))"
  have "bs_method_string list_beast ?req \<noteq> []" "\<not> sh_bad ?h" "rq_method ?req = Verb_get"
    "rq_target ?req = sh_location ?h @ ''/a.txt''"
    "fo_is_regular_file flat_ops ?s (sh_root ?h @ ''/a.txt'') = Inr True"
    by (simp_all add: list_beast_def flat_simps)
  moreover have "fo_read flat_ops ?s (sh_root ?h @ ''/a.txt'') = Some ''hi''"
    by (simp add: flat_simps)
  ultimately show ?thesis
    using static_serves [OF list_beast_laws, of ?req ?h "''/a.txt''" flat_ops ?s True "bs_response list_beast"]
    by auto
qed

end
