(* ===== verification/Json_Storage.thy ===== *)
theory Json_Storage
  imports Std_String "HOL-Library.AList"
begin

text \<open>
  \<open>ApiRequestHandler::json_storage_\<close>, the static table
  \<open>unordered_map<string, unordered_map<int, JSONStruct>>\<close>.

  The outer map is never iterated, so it is a function into \<open>option\<close>.  An inner map is an
  association list with distinct keys; the order in which C++ iterates it is unspecified, so the
  one function that iterates takes that order as a parameter.  \<open>operator[]\<close> inserts an empty
  inner map for a name that is absent, also where the source only reads.

  The interface \<open>entity_store\<close> is what the request handlers rely on: a lookup by name and id,
  and how writes and erasures change it.
\<close>

record JSONStruct =
  js_name :: string
  js_json_data :: string
  js_id :: int

type_synonym json_map = "(int \<times> JSONStruct) list"
type_synonym json_storage = "string \<Rightarrow> json_map option"

definition storage_empty :: json_storage where
  "storage_empty = (\<lambda>n. None)"

text \<open>\<open>json_storage_[name]\<close>\<close>

definition storage_index :: "string \<Rightarrow> json_storage \<Rightarrow> json_map \<times> json_storage" where
  "storage_index name st =
     (case st name of Some m \<Rightarrow> (m, st) | None \<Rightarrow> ([], st(name := Some [])))"

text \<open>\<open>json_storage_[name][id] = json\<close> and \<open>json_storage_[name].erase(id)\<close>\<close>

definition storage_put :: "string \<Rightarrow> int \<Rightarrow> JSONStruct \<Rightarrow> json_storage \<Rightarrow> json_storage" where
  "storage_put name i json st =
     (let (m, st') = storage_index name st in st'(name := Some (AList.update i json m)))"

definition storage_erase :: "string \<Rightarrow> int \<Rightarrow> json_storage \<Rightarrow> json_storage" where
  "storage_erase name i st =
     (let (m, st') = storage_index name st in st'(name := Some (AList.delete i m)))"

text \<open>
  \<open>std::max_element\<close> with the comparison of the keys, as the largest key of a map that is not
  empty.
\<close>

fun max_key :: "int \<Rightarrow> (int \<times> 'a) list \<Rightarrow> int" where
  "max_key largest [] = largest"
| "max_key largest ((k, v) # m) = max_key (if largest < k then k else largest) m"

definition max_element :: "(int \<times> 'a) list \<Rightarrow> int option" where
  "max_element m = (case m of [] \<Rightarrow> None | (k, v) # r \<Rightarrow> Some (max_key k r))"

definition storage_lookup :: "json_storage \<Rightarrow> string \<Rightarrow> int \<Rightarrow> JSONStruct option" where
  "storage_lookup st name i = (case st name of None \<Rightarrow> None | Some m \<Rightarrow> map_of m i)"

text \<open>Every inner map has distinct ids, and an entry carries the name and id it is stored under.\<close>

definition entry_ok :: "string \<Rightarrow> int \<times> JSONStruct \<Rightarrow> bool" where
  "entry_ok name e \<longleftrightarrow> js_name (snd e) = name \<and> js_id (snd e) = fst e \<and> in_int (fst e)"

definition storage_ok :: "json_storage \<Rightarrow> bool" where
  "storage_ok st \<longleftrightarrow>
     (\<forall>name m. st name = Some m \<longrightarrow> distinct (map fst m) \<and> list_all (entry_ok name) m)"

section \<open>The interface\<close>

locale entity_store =
  fixes empty :: 'st
    and lookup :: "'st \<Rightarrow> string \<Rightarrow> int \<Rightarrow> 'e option"
    and put :: "string \<Rightarrow> int \<Rightarrow> 'e \<Rightarrow> 'st \<Rightarrow> 'st"
    and erase :: "string \<Rightarrow> int \<Rightarrow> 'st \<Rightarrow> 'st"
  assumes lookup_empty: "lookup empty n i = None"
    and lookup_put: "lookup (put n i e st) m j = (if m = n \<and> j = i then Some e else lookup st m j)"
    and lookup_erase: "lookup (erase n i st) m j = (if m = n \<and> j = i then None else lookup st m j)"
begin

text \<open>The store as one map, and the operations on it.\<close>

definition as_map :: "'st \<Rightarrow> (string \<times> int) \<Rightarrow> 'e option" where
  "as_map st = (\<lambda>(n, i). lookup st n i)"

lemma as_map_put: "as_map (put n i e st) = (as_map st)((n, i) \<mapsto> e)"
  by (auto simp: as_map_def lookup_put)

lemma as_map_erase: "as_map (erase n i st) = (as_map st)((n, i) := None)"
  by (auto simp: as_map_def lookup_erase)

lemma put_erase_fresh: "lookup st n i = None \<Longrightarrow> as_map (erase n i (put n i e st)) = as_map st"
  by (auto simp: as_map_erase as_map_put) (auto simp: as_map_def)

lemma put_other: "(m, j) \<noteq> (n, i) \<Longrightarrow> lookup (put n i e st) m j = lookup st m j"
  by (auto simp: lookup_put)

end

section \<open>The table provides it\<close>

lemma storage_lookup_put:
  "storage_lookup (storage_put n i e st) m j = (if m = n \<and> j = i then Some e else storage_lookup st m j)"
  by (auto simp: storage_lookup_def storage_put_def storage_index_def update_conv split: option.split)

lemma storage_lookup_erase:
  "storage_lookup (storage_erase n i st) m j = (if m = n \<and> j = i then None else storage_lookup st m j)"
  by (auto simp: storage_lookup_def storage_erase_def storage_index_def delete_conv split: option.split)

lemma storage_lookup_empty: "storage_lookup storage_empty n i = None"
  by (simp add: storage_lookup_def storage_empty_def)

interpretation json: entity_store storage_empty storage_lookup storage_put storage_erase
  by unfold_locales
    (simp_all add: storage_lookup_put storage_lookup_erase storage_lookup_empty)

lemma storage_index_lookup [simp]:
  "storage_lookup (snd (storage_index n st)) m j = storage_lookup st m j"
  by (auto simp: storage_lookup_def storage_index_def split: option.split)

lemma storage_index_put [simp]: "storage_put n i e (snd (storage_index n st)) = storage_put n i e st"
  by (auto simp: storage_put_def storage_index_def split: option.split)

lemma storage_put_name: "storage_put n i e st n = Some (AList.update i e (fst (storage_index n st)))"
  by (auto simp: storage_put_def storage_index_def split: option.split)

lemma storage_erase_name: "storage_erase n i st n = Some (AList.delete i (fst (storage_index n st)))"
  by (auto simp: storage_erase_def storage_index_def split: option.split)

section \<open>The largest id\<close>

lemma max_key_ge: "largest \<le> max_key largest m \<and> (\<forall>k \<in> fst ` set m. k \<le> max_key largest m)"
  by (induction largest m rule: max_key.induct) (auto intro: order_trans less_imp_le)

lemma max_key_in: "max_key largest m \<in> insert largest (fst ` set m)"
  by (induction largest m rule: max_key.induct) (force split: if_splits)+

lemma max_element_None [simp]: "max_element m = None \<longleftrightarrow> m = []"
  by (auto simp: max_element_def split: list.split)

lemma max_element_Some:
  assumes "max_element m = Some k"
  shows "k \<in> fst ` set m" and "\<And>i. i \<in> fst ` set m \<Longrightarrow> i \<le> k"
  using assms max_key_in max_key_ge by (fastforce simp: max_element_def split: list.splits)+

lemma max_element_fresh:
  "map_of m (1 + (case max_element m of None \<Rightarrow> 0 | Some k \<Rightarrow> k)) = None"
proof (cases "max_element m")
  case (Some k)
  then have "k + 1 \<notin> fst ` set m"
    using max_element_Some(2) [OF Some, of "k + 1"] by auto
  with Some show ?thesis by (simp add: map_of_eq_None_iff add.commute)
qed simp

section \<open>The table stays well formed\<close>

lemma storage_ok_empty: "storage_ok storage_empty"
  by (simp add: storage_ok_def storage_empty_def)

lemma storage_ok_index: "storage_ok st \<Longrightarrow> storage_ok (snd (storage_index n st))"
  by (auto simp: storage_ok_def storage_index_def split: option.splits)

lemma storage_index_ok:
  "storage_ok st \<Longrightarrow> distinct (map fst (fst (storage_index n st))) \<and>
     list_all (entry_ok n) (fst (storage_index n st))"
  by (auto simp: storage_ok_def storage_index_def split: option.splits)

lemma set_update_subset: "set (AList.update k v m) \<subseteq> insert (k, v) (set m)"
  by (induction m) auto

lemma storage_ok_put:
  assumes "storage_ok st" and "entry_ok n (i, e)"
  shows "storage_ok (storage_put n i e st)"
proof -
  let ?m = "fst (storage_index n st)"
  have "distinct (map fst (AList.update i e ?m))"
    using storage_index_ok [OF assms(1)] by (simp add: distinct_update)
  moreover have "list_all (entry_ok n) (AList.update i e ?m)"
    using storage_index_ok [OF assms(1), of n] assms(2) set_update_subset [of i e ?m]
    by (auto simp: list_all_iff)
  ultimately show ?thesis
    using assms(1) storage_put_name [of n i e st]
    by (auto simp: storage_ok_def storage_put_def storage_index_def split: option.splits)
qed

lemma storage_ok_erase:
  assumes "storage_ok st"
  shows "storage_ok (storage_erase n i st)"
proof -
  let ?m = "fst (storage_index n st)"
  have "distinct (map fst (AList.delete i ?m))"
    using storage_index_ok [OF assms] by (simp add: distinct_delete)
  moreover have "list_all (entry_ok n) (AList.delete i ?m)"
    using storage_index_ok [OF assms, of n] by (auto simp: list_all_iff AList.delete_eq)
  ultimately show ?thesis
    using assms storage_erase_name [of n i st]
    by (auto simp: storage_ok_def storage_erase_def storage_index_def split: option.splits)
qed

end
