(* ===== verification/Api_Handler.thy ===== *)
theory Api_Handler
  imports Http_Message File_System Json_Storage
begin

text \<open>
  \<open>ApiRequestHandler\<close> (\<open>src/api_request_handler.cc\<close>): create, retrieve, update, delete and
  list JSON entities.  Each entity is a file under the configured root, and an entry of the
  static table \<open>json_storage_\<close>.

  The world of the handler is the file system and the table.  Operations that can throw return a
  result beside the world they leave behind.  The locks are taken at the top of each critical
  section and released on every way out of it; below each operation runs on its own, and
  \<open>Api_Locks\<close> shows that this is what it does among other threads.
\<close>

section \<open>State and helpers\<close>

record 's api_world =
  aw_files :: 's
  aw_storage :: json_storage

record api_handler =
  ah_location :: string
  ah_root :: string
  ah_bad :: bool

text \<open>An operation on the file system alone.\<close>

definition on_files :: "('s \<Rightarrow> 'a result \<times> 's) \<Rightarrow> 's api_world \<Rightarrow> 'a result \<times> 's api_world" where
  "on_files f w = (let (r, s) = f (aw_files w) in (r, w\<lparr>aw_files := s\<rparr>))"

definition is_num :: "string \<Rightarrow> bool" where
  "is_num i = (case stoi i of Inl e \<Rightarrow> False | Inr v \<Rightarrow> to_string v = i)"

text \<open>\<open>find_last_of('/') + 1\<close> and the prefix before it; \<open>npos + 1\<close> is 0.\<close>

definition after_last_slash :: "string \<Rightarrow> nat" where
  "after_last_slash uri = (case find_last_of SLASH uri of None \<Rightarrow> 0 | Some i \<Rightarrow> i + 1)"

definition before_last_slash :: "string \<Rightarrow> string" where
  "before_last_slash uri = (case find_last_of SLASH uri of None \<Rightarrow> uri | Some i \<Rightarrow> take i uri)"

definition get_json_id :: "string \<Rightarrow> int result" where
  "get_json_id uri =
     rbind (substr_from uri (after_last_slash uri)) (\<lambda>json_id.
       if is_num json_id then stoi json_id else Inr (- 1))"

definition get_json_name_no_id :: "api_handler \<Rightarrow> string \<Rightarrow> string result" where
  "get_json_name_no_id h uri = substr_from uri (length (ah_location h))"

definition get_json_name :: "api_handler \<Rightarrow> string \<Rightarrow> string result" where
  "get_json_name h uri =
     rbind (get_json_id uri) (\<lambda>_. get_json_name_no_id h (before_last_slash uri))"

text \<open>\<open>root_ + request_uri.substr(location_.length())\<close>\<close>

definition file_path_of :: "api_handler \<Rightarrow> string \<Rightarrow> string result" where
  "file_path_of h uri =
     rbind (substr_from uri (length (ah_location h))) (\<lambda>suffix. Inr (ah_root h @ suffix))"

section \<open>The constructor\<close>

text \<open>
  The name stored for a file: its directory without the root and without the last character.
  The count \<open>json_name.length() - root_.length() - 1\<close> is a \<open>size_t\<close>.
\<close>

definition stored_name :: "string \<Rightarrow> string \<Rightarrow> string result" where
  "stored_name root json_name =
     substr json_name (length root)
       (unat (of_nat (length json_name) - of_nat (length root) - 1 :: size_t))"

text \<open>
  One entry of the directory walk.  \<open>remove_filename\<close> changes \<open>json_path\<close> itself, so the stream
  below it opens the directory and not the file.
\<close>

definition load_entry :: "'s file_ops \<Rightarrow> string \<Rightarrow> string \<Rightarrow> 's api_world \<Rightarrow> unit result \<times> 's api_world" where
  "load_entry F root entry w =
     ebind (pure_result (fo_is_regular_file F (aw_files w) entry) w) (\<lambda>regular w.
       if \<not> regular then (Inr (), w)
       else
         let json_id = fo_stem F entry in
         if \<not> is_num json_id then (Inr (), w)
         else
           ebind (pure_result (stoi json_id) w) (\<lambda>i w.
           let json_path = fo_remove_filename F entry in
           ebind (pure_result (stored_name root json_path) w) (\<lambda>name w.
             let json_data = (case fo_read F (aw_files w) json_path of Some d \<Rightarrow> d | None \<Rightarrow> []);
                 json = \<lparr>js_name = name, js_json_data = json_data, js_id = i\<rparr>
             in (Inr (), w\<lparr>aw_storage := storage_put name i json (aw_storage w)\<rparr>))))"

fun load_entries :: "'s file_ops \<Rightarrow> string \<Rightarrow> string list \<Rightarrow> 's api_world \<Rightarrow> unit result \<times> 's api_world" where
  "load_entries F root [] w = (Inr (), w)"
| "load_entries F root (entry # entries) w =
     ebind (load_entry F root entry w) (\<lambda>_ w. load_entries F root entries w)"

definition ApiRequestHandler ::
  "'s file_ops \<Rightarrow> string \<Rightarrow> NginxConfig option \<Rightarrow> 's api_world \<Rightarrow> api_handler result \<times> 's api_world" where
  "ApiRequestHandler F path config w =
     ebind (pure_result (root_of config) w) (\<lambda>r w.
       case r of
         None \<Rightarrow> (Inr \<lparr>ah_location = path, ah_root = [], ah_bad = True\<rparr>, w)
       | Some root \<Rightarrow>
           ebind (on_files (ensure_directory F root) w) (\<lambda>_ w.
           ebind (pure_result (fo_recursive F (aw_files w) root) w) (\<lambda>entries w.
           ebind (load_entries F root entries w) (\<lambda>_ w.
             (Inr \<lparr>ah_location = path, ah_root = root, ah_bad = False\<rparr>, w)))))"

section \<open>Create\<close>

definition next_id :: "json_map \<Rightarrow> int result" where
  "next_id m =
     (let max_id = (case max_element m of None \<Rightarrow> 0 | Some k \<Rightarrow> k)
      in if in_int (max_id + 1) then Inr (max_id + 1) else Inl Int_overflow)"

definition id_body :: "int \<Rightarrow> string" where
  "id_body i = CHR ''{'' # DQ # ''id'' @ DQ # '': '' @ to_string i @ ''}''"

definition handle_create ::
  "'f beast \<Rightarrow> 's file_ops \<Rightarrow> api_handler \<Rightarrow> 'f request \<Rightarrow> 'f response \<Rightarrow> 's api_world \<Rightarrow>
     (int \<times> 'f response) result \<times> 's api_world" where
  "handle_create B F h req res w =
     (let request_uri = rq_target req in
      ebind (pure_result (file_path_of h request_uri) w) (\<lambda>file_path w.
      if take (length (ah_location h)) request_uri \<noteq> ah_location h
      then (Inr (handle_bad_request res), w)
      else if rq_body req = [] then (Inr (handle_bad_request res), w)
      else
        ebind (pure_result (get_json_name_no_id h request_uri) w) (\<lambda>name w.
        let (json_map, st) = storage_index name (aw_storage w);
            w = w\<lparr>aw_storage := st\<rparr>
        in ebind (pure_result (next_id json_map) w) (\<lambda>i w.
           ebind (on_files (ensure_directory F file_path) w) (\<lambda>_ w.
           let file_name = file_path @ SLASH # to_string i in
           case fo_open_trunc F (aw_files w) file_name of
             None \<Rightarrow> (Inr (handle_internal_server_error res), w)
           | Some s \<Rightarrow>
               let json = \<lparr>js_name = name, js_json_data = rq_body req, js_id = i\<rparr>
               in (Inr (ok_length_type B HTTP_STATUS_CREATED ''application/json'' (id_body i) res),
                   w\<lparr>aw_files := fo_write F s file_name (rq_body req),
                     aw_storage := storage_put name i json (aw_storage w)\<rparr>))))))"

section \<open>Retrieve, update, delete\<close>

definition api_handle_retrieve ::
  "'f beast \<Rightarrow> 's file_ops \<Rightarrow> api_handler \<Rightarrow> 'f request \<Rightarrow> 'f response \<Rightarrow> 's api_world \<Rightarrow>
     (int \<times> 'f response) result \<times> 's api_world" where
  "api_handle_retrieve B F h req res w =
     ebind (pure_result (file_path_of h (rq_target req)) w) (\<lambda>file_path w.
       case fo_read F (aw_files w) file_path of
         None \<Rightarrow> (Inr (handle_not_found B res), w)
       | Some body \<Rightarrow> (Inr (ok_length_type B HTTP_STATUS_OK ''application/json'' body res), w))"

definition ok_plain :: "'f response \<Rightarrow> int \<times> 'f response" where
  "ok_plain res = (HTTP_STATUS_OK, res\<lparr>rs_reason := ''OK'', rs_result := HTTP_STATUS_OK\<rparr>)"

definition handle_update ::
  "'f beast \<Rightarrow> 's file_ops \<Rightarrow> api_handler \<Rightarrow> 'f request \<Rightarrow> 'f response \<Rightarrow> 's api_world \<Rightarrow>
     (int \<times> 'f response) result \<times> 's api_world" where
  "handle_update B F h req res w =
     (let request_uri = rq_target req in
      ebind (pure_result (file_path_of h request_uri) w) (\<lambda>file_path w.
      if take (length (ah_location h)) request_uri \<noteq> ah_location h
      then (Inr (handle_bad_request res), w)
      else
        ebind (pure_result (get_json_id request_uri) w) (\<lambda>i w.
        if i = - 1 then (Inr (handle_bad_request res), w)
        else
          ebind (pure_result (get_json_name h request_uri) w) (\<lambda>name w.
          ebind (on_files (ensure_directory F (ah_root h @ name)) w) (\<lambda>_ w.
          case fo_open_trunc F (aw_files w) file_path of
            None \<Rightarrow> (Inr (handle_internal_server_error res), w)
          | Some s \<Rightarrow>
              let json = \<lparr>js_name = name, js_json_data = rq_body req, js_id = i\<rparr>
              in (Inr (ok_plain res),
                  w\<lparr>aw_files := fo_write F s file_path (rq_body req),
                    aw_storage := storage_put name i json (aw_storage w)\<rparr>))))))"

definition handle_delete ::
  "'f beast \<Rightarrow> 's file_ops \<Rightarrow> api_handler \<Rightarrow> 'f request \<Rightarrow> 'f response \<Rightarrow> 's api_world \<Rightarrow>
     (int \<times> 'f response) result \<times> 's api_world" where
  "handle_delete B F h req res w =
     (let request_uri = rq_target req in
      ebind (pure_result (file_path_of h request_uri) w) (\<lambda>file_path w.
      case fo_read F (aw_files w) file_path of
        None \<Rightarrow> (Inr (handle_not_found B res), w)
      | Some d \<Rightarrow>
          (case fo_remove F (aw_files w) file_path of
             None \<Rightarrow> (Inr (handle_internal_server_error res), w)
           | Some s \<Rightarrow>
               let w = w\<lparr>aw_files := s\<rparr> in
               ebind (pure_result (get_json_name h request_uri) w) (\<lambda>json_name w.
               ebind (pure_result (get_json_id request_uri) w) (\<lambda>json_id w.
                 (Inr (ok_plain res),
                  w\<lparr>aw_storage := storage_erase json_name json_id (aw_storage w)\<rparr>))))))"

section \<open>List\<close>

text \<open>
  \<open>iter\<close> is the order in which the inner map is iterated.  \<open>resize(size - 2)\<close> removes the last
  comma and space; on a string of one character the count wraps and \<open>resize\<close> throws.
\<close>

definition drop_last_two :: "string \<Rightarrow> string result" where
  "drop_last_two s = (if 2 \<le> length s then Inr (take (length s - 2) s) else Inl Length_error)"

definition id_items :: "json_map \<Rightarrow> string" where
  "id_items m = concat (map (\<lambda>(i, json). to_string i @ '', '') m)"

definition api_handle_list ::
  "'f beast \<Rightarrow> (json_map \<Rightarrow> json_map) \<Rightarrow> api_handler \<Rightarrow> 'f request \<Rightarrow> 'f response \<Rightarrow> 's api_world \<Rightarrow>
     (int \<times> 'f response) result \<times> 's api_world" where
  "api_handle_list B iter h req res w =
     ebind (pure_result (get_json_name_no_id h (rq_target req)) w) (\<lambda>json_name w.
       case aw_storage w json_name of
         None \<Rightarrow> (Inr (handle_not_found B res), w)
       | Some json_map \<Rightarrow>
           let id_list = ''['' @ id_items (iter json_map) in
           ebind (pure_result (drop_last_two id_list) w) (\<lambda>id_list w.
             (Inr (ok_length_type B HTTP_STATUS_OK ''application/json'' (id_list @ '']'') res), w)))"

section \<open>The dispatch\<close>

definition api_handle_request ::
  "'f beast \<Rightarrow> 's file_ops \<Rightarrow> (json_map \<Rightarrow> json_map) \<Rightarrow> api_handler \<Rightarrow>
     's api_world \<Rightarrow> 'f request \<Rightarrow> 'f response \<Rightarrow> (int \<times> 'f response) result \<times> 's api_world" where
  "api_handle_request B F iter h w req0 res0 =
     (let res = res0\<lparr>rs_version := rq_version req0\<rparr>;
          req = req_set B Field_content_type ''application/json'' req0 in
      if bs_method_string B req = [] then (Inr (handle_bad_request res), w)
      else if ah_bad h then (Inr (handle_bad_request res), w)
      else
        ebind (pure_result (file_path_of h (rq_target req)) w) (\<lambda>file_path w.
        case rq_method req of
          Verb_get \<Rightarrow>
            if fo_is_directory_ec F (aw_files w) file_path then api_handle_list B iter h req res w
            else if fo_is_regular_file_ec F (aw_files w) file_path then api_handle_retrieve B F h req res w
            else (Inr (handle_not_found B res), w)
        | Verb_post \<Rightarrow> handle_create B F h req res w
        | Verb_put \<Rightarrow> handle_update B F h req res w
        | Verb_delete \<Rightarrow> handle_delete B F h req res w
        | _ \<Rightarrow> (Inr (handle_bad_request res), w)))"

section \<open>It is a request handler\<close>

lemma agrees_ok_plain [simp]: "agrees (ok_plain res)"
  by (simp add: agrees_def ok_plain_def)

lemma api_handlers_agree [simp]:
  "agrees_result (fst (handle_create B F h req res w))"
  "agrees_result (fst (api_handle_retrieve B F h req res w))"
  "agrees_result (fst (handle_update B F h req res w))"
  "agrees_result (fst (handle_delete B F h req res w))"
  "agrees_result (fst (api_handle_list B iter h req res w))"
  by (auto simp: handle_create_def api_handle_retrieve_def handle_update_def handle_delete_def
      api_handle_list_def Let_def split: option.split prod.split)

interpretation api: request_handler "api_handle_request B F iter h"
  by unfold_locales (auto simp: api_handle_request_def Let_def split: verb.split)

end
