(* ===== verification/Meme_Parse.thy ===== *)
theory Meme_Parse
  imports Std_String
begin

text \<open>
  The form body of the meme handler: \<open>remove_sus_characters\<close> and \<open>parse_meme_request\<close>
  (\<open>src/meme_request_handler.cc\<close>).

  The delimiters are positions of \<open>find\<close> kept in an \<open>int\<close>, and the offsets are computed from
  them in \<open>size_t\<close>: both are words here, 32 and 64 bits wide, the conversion to \<open>int\<close> takes the
  low bits and the conversion back extends the sign.  A delimiter that is not found is -1.
\<close>

record Meme =
  me_top_text :: string
  me_bottom_text :: string
  me_image :: string

definition remove_sus_characters :: "string \<Rightarrow> string" where
  "remove_sus_characters s =
     replace_char CR NUL (replace_char LF NUL (replace_char DQ NUL (replace_char SQ NUL
       (replace_char BSL NUL s))))"

definition top_text_prompt :: string where "top_text_prompt = ''top_text=''"
definition bottom_text_prompt :: string where "bottom_text_prompt = ''bottom_text=''"
definition meme_image_prompt :: string where "meme_image_prompt = ''image=''"

lemmas prompt_defs = top_text_prompt_def bottom_text_prompt_def meme_image_prompt_def

text \<open>\<open>prompt.size()\<close>, and an \<open>int\<close> made from the result of \<open>find\<close>.\<close>

definition size_w :: "string \<Rightarrow> size_t" where
  "size_w s = of_nat (length s)"

definition find_int :: "string \<Rightarrow> string \<Rightarrow> size_t \<Rightarrow> 32 word" where
  "find_int s p pos = ucast (size_of (find_str s p (unat pos)))"

definition plus_to_space :: "string \<Rightarrow> string" where
  "plus_to_space s = replace_char (CHR ''+'') SP s"

definition parse_meme_request :: "string \<Rightarrow> Meme result" where
  "parse_meme_request request =
     (let delimiter_1 = find_int request (''&'' @ bottom_text_prompt) 0;
          delimiter_2 = find_int request (''&'' @ meme_image_prompt) (scast (delimiter_1 + 1))
      in rbind (substr request (length top_text_prompt)
                 (unat (scast delimiter_1 - size_w top_text_prompt))) (\<lambda>top_text.
         rbind (substr request (unat (scast delimiter_1 + size_w bottom_text_prompt + 1))
                 (unat (scast (delimiter_2 - delimiter_1) - size_w bottom_text_prompt - 1))) (\<lambda>bottom_text.
         rbind (substr_from request (unat (scast delimiter_2 + size_w meme_image_prompt + 1))) (\<lambda>image.
           Inr \<lparr>me_top_text = remove_sus_characters (plus_to_space top_text),
                me_bottom_text = remove_sus_characters (plus_to_space bottom_text),
                me_image = remove_sus_characters (plus_to_space image)\<rparr>))))"

section \<open>Sanitizing\<close>

definition sus :: "char set" where
  "sus = {BSL, SQ, DQ, LF, CR}"

lemma remove_sus_eq: "remove_sus_characters s = map (\<lambda>c. if c \<in> sus then NUL else c) s"
  by (simp add: remove_sus_characters_def replace_char_def sus_def)

lemma remove_sus_id: "set s \<inter> sus = {} \<Longrightarrow> remove_sus_characters s = s"
  by (induction s) (auto simp: remove_sus_eq)

lemma remove_sus_clean: "set (remove_sus_characters s) \<inter> sus = {}"
  by (auto simp: remove_sus_eq sus_def)

section \<open>Offsets\<close>

text \<open>A position below \<open>2^31\<close> survives the way through \<open>int\<close>; \<open>npos\<close> becomes -1 and comes back.\<close>

named_theorems offset_simps \<open>the conversions between \<open>size_t\<close> and \<open>int\<close>\<close>

lemma ucast_small [offset_simps]: "n < 2 ^ 31 \<Longrightarrow> ucast (of_nat n :: size_t) = (of_nat n :: 32 word)"
  by (simp add: unsigned_of_nat take_bit_nat_eq_self)

lemma sint_small: "n < 2 ^ 31 \<Longrightarrow> sint (of_nat n :: 32 word) = int n"
  by (simp add: signed_of_nat signed_take_bit_int_eq_self)

lemma scast_small [offset_simps]: "n < 2 ^ 31 \<Longrightarrow> scast (of_nat n :: 32 word) = (of_nat n :: size_t)"
  by (simp only: scast_eq sint_small) simp

lemma unat_small [offset_simps]: "n < 2 ^ 64 \<Longrightarrow> unat (of_nat n :: size_t) = n"
  by (simp add: unat_of_nat take_bit_nat_eq_self)

lemma ucast_npos [offset_simps]: "(ucast (- 1 :: size_t) :: 32 word) = - 1"
  by (rule bit_word_eqI) (simp add: bit_unsigned_iff)

lemma find_int_Some:
  "find_str s p (unat pos) = Some i \<Longrightarrow> i < 2 ^ 31 \<Longrightarrow> find_int s p pos = of_nat i"
  by (simp add: find_int_def size_of_def offset_simps)

lemma find_int_None: "find_str s p (unat pos) = None \<Longrightarrow> find_int s p pos = - 1"
  by (simp add: find_int_def size_of_def offset_simps)

lemma find_str_fresh_head:
  "length a = pos \<Longrightarrow> p \<noteq> [] \<Longrightarrow> hd p \<notin> set m \<Longrightarrow> find_str (a @ m @ p @ b) p pos = Some (pos + length m)"
  by (auto simp: find_str_def find_at_fresh_head)

section \<open>A well-formed body\<close>

definition render_meme :: "string \<Rightarrow> string \<Rightarrow> string \<Rightarrow> string" where
  "render_meme t b i =
     top_text_prompt @ t @ ''&'' @ bottom_text_prompt @ b @ ''&'' @ meme_image_prompt @ i"

text \<open>The positions of its two delimiters, the offsets computed from them, and the pieces.\<close>

lemma meme_delimiter_1:
  assumes "CHR ''&'' \<notin> set t" and "9 + length t < 2 ^ 31"
  shows "find_int (render_meme t b i) (''&'' @ bottom_text_prompt) 0 = of_nat (9 + length t)"
proof -
  have "find_str (render_meme t b i) (''&'' @ bottom_text_prompt) 0 = Some (9 + length t)"
    using find_str_fresh_head [of "[]" 0 "''&'' @ bottom_text_prompt" "top_text_prompt @ t"
        "b @ ''&'' @ meme_image_prompt @ i"] assms(1)
    by (simp add: render_meme_def prompt_defs)
  with assms(2) show ?thesis by (simp only: find_int_Some unat_0)
qed

lemma meme_delimiter_2:
  assumes "CHR ''&'' \<notin> set b" and "d1 = 9 + length t" and "d1 + 13 + length b < 2 ^ 31"
  shows "find_int (render_meme t b i) (''&'' @ meme_image_prompt) (scast (of_nat d1 + 1 :: 32 word)) =
    of_nat (d1 + 13 + length b)"
proof -
  have "find_str (render_meme t b i) (''&'' @ meme_image_prompt) (d1 + 1) = Some (d1 + 13 + length b)"
    using find_str_fresh_head [of "top_text_prompt @ t @ ''&''" "d1 + 1" "''&'' @ meme_image_prompt"
        "bottom_text_prompt @ b" i] assms(1,2)
    by (simp add: render_meme_def prompt_defs)
  moreover have "unat (scast (of_nat d1 + 1 :: 32 word) :: size_t) = d1 + 1"
    using scast_small [of "d1 + 1"] unat_small [of "d1 + 1"] assms(3) by (simp add: add.commute)
  ultimately show ?thesis using assms(3) by (simp only: find_int_Some)
qed

lemma meme_offsets:
  assumes "d1 = 9 + lt" and "d2 = d1 + 13 + lb" and "d2 + 7 < 2 ^ 31"
  shows "unat (scast (of_nat d1 :: 32 word) - size_w top_text_prompt) = lt"
    and "unat (scast (of_nat d1 :: 32 word) + size_w bottom_text_prompt + 1) = d1 + 13"
    and "unat (scast (of_nat d2 - of_nat d1 :: 32 word) - size_w bottom_text_prompt - 1) = lb"
    and "unat (scast (of_nat d2 :: 32 word) + size_w meme_image_prompt + 1) = d2 + 7"
proof -
  have small: "d1 < 2 ^ 31" "d2 < 2 ^ 31" "13 + lb < 2 ^ 31" "lt < 2 ^ 64" "lb < 2 ^ 64"
    "d1 + 13 < 2 ^ 64" "d2 + 7 < 2 ^ 64"
    using assms by simp_all
  have "scast (of_nat d1 :: 32 word) - size_w top_text_prompt = (of_nat lt :: size_t)"
    by (simp only: scast_small small) (simp add: size_w_def prompt_defs assms(1))
  then show "unat (scast (of_nat d1 :: 32 word) - size_w top_text_prompt) = lt"
    by (simp only: unat_small small)
  have "scast (of_nat d1 :: 32 word) + size_w bottom_text_prompt + 1 = (of_nat (d1 + 13) :: size_t)"
    by (simp only: scast_small small) (simp add: size_w_def prompt_defs)
  then show "unat (scast (of_nat d1 :: 32 word) + size_w bottom_text_prompt + 1) = d1 + 13"
    by (simp only: unat_small small)
  have "(of_nat d2 - of_nat d1 :: 32 word) = of_nat (13 + lb)" by (simp add: assms(2))
  then have "scast (of_nat d2 - of_nat d1 :: 32 word) - size_w bottom_text_prompt - 1 = (of_nat lb :: size_t)"
    by (simp only: scast_small small) (simp add: size_w_def prompt_defs)
  then show "unat (scast (of_nat d2 - of_nat d1 :: 32 word) - size_w bottom_text_prompt - 1) = lb"
    by (simp only: unat_small small)
  have "scast (of_nat d2 :: 32 word) + size_w meme_image_prompt + 1 = (of_nat (d2 + 7) :: size_t)"
    by (simp only: scast_small small) (simp add: size_w_def prompt_defs)
  then show "unat (scast (of_nat d2 :: 32 word) + size_w meme_image_prompt + 1) = d2 + 7"
    by (simp only: unat_small small)
qed

lemma meme_pieces:
  assumes "d1 = 9 + length t" and "d2 = d1 + 13 + length b"
  shows "substr (render_meme t b i) (length top_text_prompt) (length t) = Inr t"
    and "substr (render_meme t b i) (d1 + 13) (length b) = Inr b"
    and "substr_from (render_meme t b i) (d2 + 7) = Inr i"
proof -
  let ?p = "top_text_prompt @ t @ ''&'' @ bottom_text_prompt" and ?q = "''&'' @ meme_image_prompt"
  have split: "render_meme t b i = ?p @ b @ ?q @ i" "render_meme t b i = (?p @ b @ ?q) @ i"
    by (simp_all add: render_meme_def)
  have len: "length ?p = d1 + 13" "length (?p @ b @ ?q) = d2 + 7"
    using assms by (simp_all add: prompt_defs)
  show "substr (render_meme t b i) (length top_text_prompt) (length t) = Inr t"
    by (simp add: render_meme_def)
  show "substr (render_meme t b i) (d1 + 13) (length b) = Inr b"
    unfolding split(1) len(1) [symmetric] substr_append by simp
  show "substr_from (render_meme t b i) (d2 + 7) = Inr i"
    unfolding split(2) len(2) [symmetric] by (rule substr_from_append)
qed

text \<open>
  C25: a form body as a browser writes it (the texts have no \<open>&\<close>, and the body is
  shorter than \<open>2^31\<close>) is taken apart into its three fields, with plus signs read as spaces and
  suspicious characters replaced.
\<close>

theorem parse_meme_render:
  assumes "CHR ''&'' \<notin> set t" and "CHR ''&'' \<notin> set b" and "length (render_meme t b i) < 2 ^ 31"
  shows "parse_meme_request (render_meme t b i) =
    Inr \<lparr>me_top_text = remove_sus_characters (plus_to_space t),
         me_bottom_text = remove_sus_characters (plus_to_space b),
         me_image = remove_sus_characters (plus_to_space i)\<rparr>"
proof -
  define d1 where "d1 = 9 + length t"
  define d2 where "d2 = d1 + 13 + length b"
  have small: "d2 + 7 < 2 ^ 31" using assms(3) by (simp add: render_meme_def prompt_defs d1_def d2_def)
  have delimiter_1: "find_int (render_meme t b i) (''&'' @ bottom_text_prompt) 0 = of_nat d1"
    unfolding d1_def by (rule meme_delimiter_1 [OF assms(1)]) (use small in \<open>simp add: d2_def d1_def\<close>)
  have delimiter_2: "find_int (render_meme t b i) (''&'' @ meme_image_prompt) (scast (of_nat d1 + 1 :: 32 word)) =
      of_nat d2"
    unfolding d2_def by (rule meme_delimiter_2 [OF assms(2) d1_def]) (use small in \<open>simp add: d2_def\<close>)
  show ?thesis
    by (simp only: parse_meme_request_def Let_def delimiter_1 delimiter_2 rbind_simps
        meme_offsets [OF d1_def d2_def small] meme_pieces [OF d1_def d2_def])
qed

lemma parse_meme_render_witness:
  "parse_meme_request (render_meme ''hi+there'' [CHR ''a'', SQ] ''3'') =
    Inr \<lparr>me_top_text = ''hi there'', me_bottom_text = [CHR ''a'', NUL], me_image = ''3''\<rparr>"
  by (subst parse_meme_render)
    (simp_all add: render_meme_def prompt_defs plus_to_space_def remove_sus_eq sus_def replace_char_def)

section \<open>Bodies without delimiters\<close>

text \<open>
  A body without an ampersand has neither delimiter, yet it is not
  refused: if it has at least 12 characters, the positions of the missing delimiters (-1) give
  three overlapping pieces of it; a shorter one throws \<open>std::out_of_range\<close>.
\<close>

theorem parse_meme_no_ampersand:
  assumes "CHR ''&'' \<notin> set s" and "length s < 2 ^ 31"
  shows "parse_meme_request s =
    (if length s < 12 then Inl Out_of_range
     else Inr \<lparr>me_top_text = remove_sus_characters (plus_to_space (drop 9 s)),
            me_bottom_text = remove_sus_characters (plus_to_space (drop 12 s)),
            me_image = remove_sus_characters (plus_to_space (drop 6 s))\<rparr>)"
proof -
  have none: "find_int s (''&'' @ p) pos = - 1" for p pos
  proof -
    have "CHR ''&'' \<notin> set (drop (unat pos) s)" using assms(1) by (meson in_set_dropD)
    then have "find_str s (''&'' @ p) (unat pos) = None" by (simp add: find_str_def find_at_absent)
    then show ?thesis by (rule find_int_None)
  qed
  have offsets: "unat (scast (- 1 :: 32 word) - size_w top_text_prompt) = 2 ^ 64 - 10"
    "unat (scast (- 1 :: 32 word) + size_w bottom_text_prompt + 1) = 12"
    "unat (scast (- 1 - (- 1) :: 32 word) - size_w bottom_text_prompt - 1) = 2 ^ 64 - 13"
    "unat (scast (- 1 :: 32 word) + size_w meme_image_prompt + 1) = 6"
    "length top_text_prompt = 9"
    by (simp_all add: size_w_def prompt_defs)
  show ?thesis
    using assms(2)
    by (simp only: parse_meme_request_def Let_def none offsets) (simp add: substr_def substr_from_def)
qed

lemma parse_meme_no_ampersand_witness:
  "parse_meme_request ''complete garbage'' =
    Inr \<lparr>me_top_text = ''garbage'', me_bottom_text = ''bage'', me_image = ''te garbage''\<rparr>"
  by (subst parse_meme_no_ampersand)
    (simp_all add: plus_to_space_def remove_sus_eq sus_def replace_char_def)

end
