(* ===== verification/Meme_Handler.thy ===== *)
theory Meme_Handler
  imports Http_Message File_System Mime Meme_Parse
begin

text \<open>
  \<open>MemeRequestHandler\<close> (\<open>src/meme_request_handler.cc\<close>): the form, create, view and list pages of
  the meme application.

  SQLite is a parameter of the model, the record \<open>sqlite\<close>: its state is a value of a type \<open>'d\<close>, a
  prepared statement one of a type \<open>'q\<close>, and a query is the C string the source passes, which
  ends at the first \<open>NUL\<close>.  The result codes are those of \<open>sqlite3.h\<close>.

  The image table \<open>image_map_\<close> is read with \<open>operator[]\<close>, which inserts, so it is part of the state
  and not of the handler.  Two loops may run forever (over the image table while it grows, and
  over the rows of a statement); they are partial functions, and a handler whose loop does not
  end has the fault \<open>No_return\<close>.
\<close>

section \<open>SQLite\<close>

definition SQLITE_OK :: int where "SQLITE_OK = 0"
definition SQLITE_CONSTRAINT :: int where "SQLITE_CONSTRAINT = 19"
definition SQLITE_ROW :: int where "SQLITE_ROW = 100"
definition SQLITE_DONE :: int where "SQLITE_DONE = 101"

lemmas sqlite_defs = SQLITE_OK_def SQLITE_CONSTRAINT_def SQLITE_ROW_def SQLITE_DONE_def

record ('d, 'q) sqlite =
  sq_open :: "string \<Rightarrow> 'd \<Rightarrow> int \<times> 'd"
  sq_exec :: "string \<Rightarrow> string \<Rightarrow> 'd \<Rightarrow> int \<times> 'd"
  sq_prepare :: "string \<Rightarrow> string \<Rightarrow> 'd \<Rightarrow> int \<times> 'q"
  sq_step :: "'q \<Rightarrow> 'd \<Rightarrow> int \<times> 'q \<times> 'd"
  sq_column_int :: "'q \<Rightarrow> nat \<Rightarrow> int"
  sq_column_text :: "'q \<Rightarrow> nat \<Rightarrow> string option"   \<comment> \<open>\<open>None\<close>: a null pointer\<close>
  sq_finalize :: "'q \<Rightarrow> int"

text \<open>A database that cannot be opened, for the witnesses.\<close>

definition closed_sqlite :: "(unit, unit) sqlite" where
  "closed_sqlite = \<lparr>sq_open = \<lambda>n d. (14, d), sq_exec = \<lambda>n q d. (1, d), sq_prepare = \<lambda>n q d. (1, ()),
     sq_step = \<lambda>q d. (21, q, d), sq_column_int = \<lambda>q k. 0, sq_column_text = \<lambda>q k. None, sq_finalize = \<lambda>q. 0\<rparr>"

section \<open>State\<close>

record meme_handler =
  mh_location :: string
  mh_memes_created_root :: string
  mh_images_root :: string
  mh_html_root :: string
  mh_bad :: bool
  mh_database :: string

record ('s, 'd) meme_state =
  ms_images :: "(int, string) std_map"
  ms_files :: 's
  ms_db :: 'd

section \<open>The constructor\<close>

definition meme_table_query :: string where
  "meme_table_query =
     ''CREATE TABLE IF NOT EXISTS meme_table ('' @
     ''id     INTEGER PRIMARY KEY AUTOINCREMENT,'' @
     ''image  TEXT,'' @
     ''top    TEXT,'' @
     ''bottom TEXT,'' @
     ''UNIQUE (image, top, bottom)'' @
     '')''"

definition init_meme_database :: "('d, 'q) sqlite \<Rightarrow> string \<Rightarrow> 'd \<Rightarrow> unit result \<times> 'd" where
  "init_meme_database D database_name db =
     (let (rc, db) = sq_open D (c_str database_name) db in
      if rc \<noteq> SQLITE_OK then (Inl Process_exit, db)
      else
        let (rc, db) = sq_exec D (c_str database_name) (c_str meme_table_query) db in
        if rc \<noteq> SQLITE_OK then (Inl Process_exit, db) else (Inr (), db))"

text \<open>The three roots; \<open>None\<close> is the bad configuration.\<close>

definition meme_roots :: "NginxConfig option \<Rightarrow> (string \<times> string \<times> string) option result" where
  "meme_roots config =
     (case config of
        None \<Rightarrow> Inl Null_deref
      | Some c \<Rightarrow>
          if length (statements c) < 3 then Inr None
          else
            rbind (statement_value ''memes_created_root'' (statements c ! 0)) (\<lambda>r0.
            case r0 of None \<Rightarrow> Inr None | Some memes_created_root \<Rightarrow>
            rbind (statement_value ''images_root'' (statements c ! 1)) (\<lambda>r1.
            case r1 of None \<Rightarrow> Inr None | Some images_root \<Rightarrow>
            rbind (statement_value ''html_root'' (statements c ! 2)) (\<lambda>r2.
            case r2 of None \<Rightarrow> Inr None | Some html_root \<Rightarrow>
              Inr (Some (memes_created_root, images_root, html_root))))))"

text \<open>The loop over the images directory: \<open>n\<close> counts the files that are kept.\<close>

fun load_images ::
  "'s file_ops \<Rightarrow> 's \<Rightarrow> string list \<Rightarrow> int \<Rightarrow> (int, string) std_map \<Rightarrow> (int, string) std_map result" where
  "load_images F s [] n m = Inr m"
| "load_images F s (path # paths) n m =
     rbind (fo_is_regular_file F s path) (\<lambda>regular.
       if regular \<and> fo_filename F path \<noteq> ''.DS_Store''
       then load_images F s paths (n + 1) (smap_assign n (fo_filename F path) m)
       else load_images F s paths n m)"

definition MemeRequestHandler ::
  "'s file_ops \<Rightarrow> ('d, 'q) sqlite \<Rightarrow> string \<Rightarrow> NginxConfig option \<Rightarrow> ('s, 'd) meme_state \<Rightarrow>
     meme_handler result \<times> ('s, 'd) meme_state" where
  "MemeRequestHandler F D path config w =
     ebind (pure_result (meme_roots config) (w\<lparr>ms_images := []\<rparr>)) (\<lambda>roots w.
       case roots of
         None \<Rightarrow>
           (Inr \<lparr>mh_location = path, mh_memes_created_root = [], mh_images_root = [], mh_html_root = [],
                mh_bad = True, mh_database = []\<rparr>, w)
       | Some (memes_created_root, images_root, html_root) \<Rightarrow>
           let database = memes_created_root @ ''/meme.db'';
               (r, s) = ensure_directory F memes_created_root (ms_files w)
           in ebind (r, w\<lparr>ms_files := s\<rparr>) (\<lambda>_ w.
              ebind (pure_result (fo_directory F (ms_files w) images_root) w) (\<lambda>paths w.
              ebind (pure_result (load_images F (ms_files w) paths 0 []) w) (\<lambda>images w.
              let (r, db) = init_meme_database D database (ms_db w)
              in ebind (r, w\<lparr>ms_images := images, ms_db := db\<rparr>) (\<lambda>_ w.
                (Inr \<lparr>mh_location = path, mh_memes_created_root = memes_created_root,
                     mh_images_root = images_root, mh_html_root = html_root,
                     mh_bad = False, mh_database = database\<rparr>, w))))))"

section \<open>Pages\<close>

text \<open>
  Every page reads an HTML file and inserts text after a marker.  The position is the result of
  \<open>find\<close> plus the length of the marker, in \<open>size_t\<close>; a marker that is missing gives its length
  minus one.
\<close>

definition read_page :: "'s file_ops \<Rightarrow> 's \<Rightarrow> string \<Rightarrow> string option result" where
  "read_page F s file_path =
     rbind (fo_is_regular_file F s file_path) (\<lambda>regular.
       Inr (if regular then fo_read F s file_path else None))"

definition position_after :: "string \<Rightarrow> string \<Rightarrow> nat" where
  "position_after body sel_target =
     unat (size_of (find_str body sel_target 0) + of_nat (length sel_target))"

text \<open>
  One page of the handler: 404 without its file, else what \<open>edit\<close> makes of the file's contents.
\<close>

definition edit_page ::
  "'f beast \<Rightarrow> 's file_ops \<Rightarrow> string \<Rightarrow> string \<Rightarrow> string \<Rightarrow> 'f response \<Rightarrow> ('s, 'd) meme_state \<Rightarrow>
     (int \<times> 'f response) result \<times> ('s, 'd) meme_state" where
  "edit_page B F file_path sel_target insert_str res w =
     ebind (pure_result (read_page F (ms_files w) file_path) w) (\<lambda>page w.
       case page of
         None \<Rightarrow> (Inr (handle_not_found B res), w)
       | Some body \<Rightarrow>
           ebind (pure_result (insert_at body (position_after body sel_target) insert_str) w) (\<lambda>body w.
             (Inr (ok_length_type B HTTP_STATUS_OK ''text/html'' body res), w)))"

section \<open>The form\<close>

definition option_line :: "int \<Rightarrow> string \<Rightarrow> string" where
  "option_line i name =
     ''          <option value='' @ to_string i @ ''>'' @ name @ ''</option>'' @ [LF]"

text \<open>\<open>for (int i = 0; i < image_map_.size(); i++)\<close>: the size is read anew in every turn.\<close>

partial_function (option) insert_options ::
  "(int, string) std_map \<Rightarrow> nat \<Rightarrow> nat \<Rightarrow> string \<Rightarrow> (string result \<times> (int, string) std_map) option" where
  "insert_options m i pos body =
     (if i < length m then
        let (name, m') = smap_index [] (int i) m;
            insert_str = option_line (int i) name
        in (case insert_at body pos insert_str of
              Inl e \<Rightarrow> Some (Inl e, m')
            | Inr body' \<Rightarrow> insert_options m' (i + 1) (pos + length insert_str) body')
      else Some (Inr body, m))"

definition form_target :: string where
  "form_target = ''<option>Select a template image...</option>'' @ [LF]"

definition handle_form_request ::
  "'f beast \<Rightarrow> 's file_ops \<Rightarrow> meme_handler \<Rightarrow> 'f request \<Rightarrow> 'f response \<Rightarrow> ('s, 'd) meme_state \<Rightarrow>
     (int \<times> 'f response) result \<times> ('s, 'd) meme_state" where
  "handle_form_request B F h req res w =
     (let file_path = mh_html_root h @ ''/form.html'';
          file_ext = file_extension file_path
      in ebind (pure_result (read_page F (ms_files w) file_path) w) (\<lambda>page w.
         case page of
           None \<Rightarrow> (Inr (handle_not_found B res), w)
         | Some body \<Rightarrow>
             (case insert_options (ms_images w) 0 (position_after body form_target) body of
                None \<Rightarrow> (Inl No_return, w)
              | Some (r, images) \<Rightarrow>
                  ebind (r, w\<lparr>ms_images := images\<rparr>) (\<lambda>body w.
                    (Inr (ok_type_length B (getContentType file_ext) body res), w)))))"

section \<open>Create\<close>

definition insert_query :: "Meme \<Rightarrow> string" where
  "insert_query meme =
     ''INSERT INTO meme_table '' @ ''(image, top, bottom) '' @
     ''VALUES ('' @ me_image meme @ '', '' @ [DQ] @ me_top_text meme @ [DQ] @ '', '' @ [DQ]
       @ me_bottom_text meme @ [DQ] @ '')''"

definition get_query :: "Meme \<Rightarrow> string" where
  "get_query meme =
     ''SELECT id FROM meme_table '' @
     ''WHERE image = '' @ [DQ] @ me_image meme @ [DQ] @ '' '' @
     ''AND top = '' @ [DQ] @ me_top_text meme @ [DQ] @ '' '' @
     ''AND bottom = '' @ [DQ] @ me_bottom_text meme @ [DQ]"

definition create_target :: string where
  "create_target = ''<div class='' @ [DQ] @ ''created-meme'' @ [DQ] @ ''>'' @ [LF]"

definition created_line :: "int \<Rightarrow> string" where
  "created_line meme_id =
     ''        Created meme! <a href='' @ [DQ] @ ''/meme/view?id='' @ to_string meme_id @ [DQ] @ ''>''
       @ to_string meme_id @ ''</a>''"

text \<open>Run a query for its first row: the result code of the step, the statement, the state.\<close>

definition first_row ::
  "('d, 'q) sqlite \<Rightarrow> string \<Rightarrow> string \<Rightarrow> ('s, 'd) meme_state \<Rightarrow> int \<times> 'q \<times> ('s, 'd) meme_state" where
  "first_row D database query w =
     (let (_, statement) = sq_prepare D (c_str database) (c_str query) (ms_db w);
          (rc, statement, db) = sq_step D statement (ms_db w)
      in (rc, statement, w\<lparr>ms_db := db\<rparr>))"

definition open_db ::
  "('d, 'q) sqlite \<Rightarrow> string \<Rightarrow> ('s, 'd) meme_state \<Rightarrow> int \<times> ('s, 'd) meme_state" where
  "open_db D database w =
     (let (rc, db) = sq_open D (c_str database) (ms_db w) in (rc, w\<lparr>ms_db := db\<rparr>))"

definition exec_db ::
  "('d, 'q) sqlite \<Rightarrow> string \<Rightarrow> string \<Rightarrow> ('s, 'd) meme_state \<Rightarrow> int \<times> ('s, 'd) meme_state" where
  "exec_db D database query w =
     (let (rc, db) = sq_exec D (c_str database) (c_str query) (ms_db w) in (rc, w\<lparr>ms_db := db\<rparr>))"

definition meme_handle_create ::
  "'f beast \<Rightarrow> 's file_ops \<Rightarrow> ('d, 'q) sqlite \<Rightarrow> meme_handler \<Rightarrow> 'f request \<Rightarrow> 'f response \<Rightarrow>
     ('s, 'd) meme_state \<Rightarrow> (int \<times> 'f response) result \<times> ('s, 'd) meme_state" where
  "meme_handle_create B F D h req res w =
     (if rq_body req = [] then (Inr (handle_bad_request res), w)
      else
        case parse_meme_request (rq_body req) of
          Inl e \<Rightarrow> (Inr (handle_bad_request res), w)
        | Inr meme \<Rightarrow>
            let (rc, w) = open_db D (mh_database h) w in
            if rc \<noteq> SQLITE_OK then (Inr (handle_internal_server_error res), w)
            else
              let (rc, w) = exec_db D (mh_database h) (insert_query meme) w in
              if rc \<noteq> SQLITE_OK \<and> rc \<noteq> SQLITE_CONSTRAINT
              then (Inr (handle_internal_server_error res), w)
              else
                let (rc, w) = open_db D (mh_database h) w in
                if rc \<noteq> SQLITE_OK then (Inr (handle_internal_server_error res), w)
                else
                  let (rc, statement, w) = first_row D (mh_database h) (get_query meme) w in
                  if rc \<noteq> SQLITE_ROW \<and> rc \<noteq> SQLITE_DONE
                  then (Inr (handle_internal_server_error res), w)
                  else
                    let meme_id = sq_column_int D statement 0 in
                    if sq_finalize D statement \<noteq> SQLITE_OK
                    then (Inr (handle_internal_server_error res), w)
                    else edit_page B F (mh_html_root h @ ''/create.html'') create_target
                           (created_line meme_id) res w)"

section \<open>View\<close>

definition count_query :: string where
  "count_query = ''SELECT COUNT(*) FROM meme_table''"

text \<open>
  The number of memes, or the status of an error response.  The response is an argument of the
  source's function because the error responses are written into it.
\<close>

definition get_meme_count ::
  "('d, 'q) sqlite \<Rightarrow> meme_handler \<Rightarrow> 'f response \<Rightarrow> ('s, 'd) meme_state \<Rightarrow>
     (int \<times> 'f response) \<times> ('s, 'd) meme_state" where
  "get_meme_count D h res w =
     (let (rc, w) = open_db D (mh_database h) w in
      if rc \<noteq> SQLITE_OK then (handle_internal_server_error res, w)
      else
        let (rc, statement, w) = first_row D (mh_database h) count_query w in
        if rc = SQLITE_DONE then (handle_bad_request res, w)
        else if rc \<noteq> SQLITE_ROW then (handle_internal_server_error res, w)
        else
          let meme_count = sq_column_int D statement 0 in
          if sq_finalize D statement \<noteq> SQLITE_OK then (handle_internal_server_error res, w)
          else ((meme_count, res), w))"

definition retrieve_query :: "int \<Rightarrow> string" where
  "retrieve_query meme_id =
     ''SELECT image, top, bottom FROM meme_table '' @
     ''WHERE id = '' @ [DQ] @ to_string meme_id @ [DQ]"

definition MEME_IMAGE_URL :: string where
  "MEME_IMAGE_URL = ''http://35.197.37.173/memes/memes_images/''"

definition view_text :: "string \<Rightarrow> string \<Rightarrow> string \<Rightarrow> string" where
  "view_text image_url top_text bottom_text =
     ''<img src='' @ [DQ] @ image_url @ [DQ] @ '' />'' @ [LF] @
     ''<h1 id='' @ [DQ] @ ''topText'' @ [DQ] @ ''>'' @ top_text @ ''</h1>'' @ [LF] @
     ''<h1 id='' @ [DQ] @ ''bottomText'' @ [DQ] @ ''>'' @ bottom_text @ ''</h1>'' @ [LF]"

definition body_target :: string where
  "body_target = ''<body>'' @ [LF]"

text \<open>The id a view request asks for; \<open>None\<close> if it is no number.\<close>

definition requested_id :: "'f beast \<Rightarrow> 'f request \<Rightarrow> int option result" where
  "requested_id B req =
     (if find_str (rq_target req) ''?id='' 0 = None then Inr (bs_cast_int B (rq_body req))
      else rbind (substr_from (rq_target req) 14) (\<lambda>id. Inr (bs_cast_int B id)))"

text \<open>The part after the id has been checked: the row, the image's name, the page.\<close>

definition view_meme ::
  "'f beast \<Rightarrow> 's file_ops \<Rightarrow> ('d, 'q) sqlite \<Rightarrow> meme_handler \<Rightarrow> int \<Rightarrow> 'f response \<Rightarrow>
     ('s, 'd) meme_state \<Rightarrow> (int \<times> 'f response) result \<times> ('s, 'd) meme_state" where
  "view_meme B F D h meme_id res w =
     (let (rc, w) = open_db D (mh_database h) w in
      if rc \<noteq> SQLITE_OK then (Inr (handle_internal_server_error res), w)
      else
        let (rc, statement, w) = first_row D (mh_database h) (retrieve_query meme_id) w in
        if rc = SQLITE_DONE then (Inr (handle_bad_request res), w)
        else if rc \<noteq> SQLITE_ROW then (Inr (handle_internal_server_error res), w)
        else
          let image = sq_column_int D statement 0 in
          case sq_column_text D statement 1 of None \<Rightarrow> (Inl Logic_error, w) | Some top_text \<Rightarrow>
          case sq_column_text D statement 2 of None \<Rightarrow> (Inl Logic_error, w) | Some bottom_text \<Rightarrow>
          if sq_finalize D statement \<noteq> SQLITE_OK then (Inr (handle_internal_server_error res), w)
          else
            let (name, images) = smap_index [] image (ms_images w);
                image_url = MEME_IMAGE_URL @ name
            in edit_page B F (mh_html_root h @ ''/view.html'') body_target
                 (view_text image_url top_text bottom_text) res (w\<lparr>ms_images := images\<rparr>))"

definition meme_handle_retrieve ::
  "'f beast \<Rightarrow> 's file_ops \<Rightarrow> ('d, 'q) sqlite \<Rightarrow> meme_handler \<Rightarrow> 'f request \<Rightarrow> 'f response \<Rightarrow>
     ('s, 'd) meme_state \<Rightarrow> (int \<times> 'f response) result \<times> ('s, 'd) meme_state" where
  "meme_handle_retrieve B F D h req res w =
     (if rq_body req = [] \<and> find_str (rq_target req) ''?id='' 0 = None
      then (Inr (handle_bad_request res), w)
      else
        ebind (pure_result (requested_id B req) w) (\<lambda>id w.
        case id of
          None \<Rightarrow> (Inr (handle_bad_request res), w)
        | Some meme_id \<Rightarrow>
            let ((count, res), w) = get_meme_count D h res w in
            if count = 0 then (Inr (handle_bad_request res), w)
            else
              let ((count, res), w) = get_meme_count D h res w in
              if meme_id > count then (Inr (handle_bad_request res), w)
              else view_meme B F D h meme_id res w))"

section \<open>List\<close>

definition list_query :: string where
  "list_query = ''SELECT id FROM meme_table''"

text \<open>\<open>while (sqlite3_step(statement) == SQLITE_ROW)\<close>\<close>

partial_function (option) collect_ids ::
  "('d, 'q) sqlite \<Rightarrow> 'q \<Rightarrow> 'd \<Rightarrow> int list \<Rightarrow> (int list \<times> 'q \<times> 'd) option" where
  "collect_ids D statement db ids =
     (let (rc, statement', db') = sq_step D statement db in
      if rc = SQLITE_ROW then collect_ids D statement' db' (ids @ [sq_column_int D statement' 0])
      else Some (ids, statement', db'))"

definition list_item :: "int \<Rightarrow> string" where
  "list_item meme_id =
     ''<li><a href='' @ [DQ] @ ''/meme/view?id='' @ to_string meme_id @ [DQ] @ ''>Meme ''
       @ to_string meme_id @ ''</a></li>'' @ [LF]"

definition list_html :: "int list \<Rightarrow> string" where
  "list_html meme_ids =
     ''<header><h1>Meme List</h1></header>'' @ [LF] @ ''<ul>'' @ [LF] @
     concat (map list_item meme_ids) @ ''</ul>'' @ [LF]"

definition meme_handle_list ::
  "'f beast \<Rightarrow> 's file_ops \<Rightarrow> ('d, 'q) sqlite \<Rightarrow> meme_handler \<Rightarrow> 'f request \<Rightarrow> 'f response \<Rightarrow>
     ('s, 'd) meme_state \<Rightarrow> (int \<times> 'f response) result \<times> ('s, 'd) meme_state" where
  "meme_handle_list B F D h req res w =
     (let (rc, w) = open_db D (mh_database h) w in
      if rc \<noteq> SQLITE_OK then (Inr (handle_internal_server_error res), w)
      else
        let (rc, statement) = sq_prepare D (c_str (mh_database h)) (c_str list_query) (ms_db w) in
        if rc \<noteq> SQLITE_OK then (Inr (handle_internal_server_error res), w)
        else
          case collect_ids D statement (ms_db w) [] of
            None \<Rightarrow> (Inl No_return, w)
          | Some (meme_ids, statement, db) \<Rightarrow>
              let w = w\<lparr>ms_db := db\<rparr> in
              if sq_finalize D statement \<noteq> SQLITE_OK then (Inr (handle_internal_server_error res), w)
              else edit_page B F (mh_html_root h @ ''/list.html'') body_target
                     (list_html meme_ids) res w)"

section \<open>The dispatch\<close>

definition meme_handle_request ::
  "'f beast \<Rightarrow> 's file_ops \<Rightarrow> ('d, 'q) sqlite \<Rightarrow> meme_handler \<Rightarrow> ('s, 'd) meme_state \<Rightarrow>
     'f request \<Rightarrow> 'f response \<Rightarrow> (int \<times> 'f response) result \<times> ('s, 'd) meme_state" where
  "meme_handle_request B F D h w req res0 =
     (let res = res0\<lparr>rs_version := rq_version req\<rparr>;
          request_uri = rq_target req
      in if bs_method_string B req = [] then (Inr (handle_bad_request res), w)
         else if mh_bad h then (Inr (handle_bad_request res), w)
         else if request_uri = ''/meme'' then handle_form_request B F h req res w
         else if request_uri = ''/meme/create'' then meme_handle_create B F D h req res w
         else if take (length ''/meme/view'') request_uri = ''/meme/view''
           then meme_handle_retrieve B F D h req res w
         else if request_uri = ''/meme/list'' then meme_handle_list B F D h req res w
         else (Inr (handle_not_found B res), w))"

section \<open>It is a request handler\<close>

lemma agrees_edit_page [simp]: "agrees_result (fst (edit_page B F p t i res w))"
  by (auto simp: edit_page_def split: option.split)

lemma meme_handlers_agree [simp]:
  "agrees_result (fst (handle_form_request B F h req res w))"
  "agrees_result (fst (meme_handle_create B F D h req res w))"
  "agrees_result (fst (view_meme B F D h i res w))"
  "agrees_result (fst (meme_handle_list B F D h req res w))"
  by (auto simp: handle_form_request_def meme_handle_create_def view_meme_def meme_handle_list_def
      Let_def split: option.split prod.split sum.split)

lemma meme_retrieve_agrees [simp]: "agrees_result (fst (meme_handle_retrieve B F D h req res w))"
  by (auto simp: meme_handle_retrieve_def Let_def split: option.split prod.split)

interpretation meme: request_handler "meme_handle_request B F D h"
  by unfold_locales (auto simp: meme_handle_request_def Let_def)

end
