(* ===== verification/Handler_Factory.thy ===== *)
theory Handler_Factory
  imports Routing Simple_Handlers Static_Handler Api_Handler Meme_Handler
begin

text \<open>
  The factories (\<open>include/request_factory.h\<close>, \<open>src/*_handler_factory.cc\<close>) and the two virtual calls
  a session makes: \<open>RequestHandlerFactory::create\<close> and \<open>RequestHandler::handle_request\<close>.

  The environment of the server is the record \<open>env\<close> of the parameters (Beast, the file system,
  SQLite, the iteration order of an unordered map); the world is what the handlers share: the
  files, the table of the API handler, the database.  A handler object is a value of the type
  \<open>RequestHandler\<close>, one constructor per subclass; the meme handler has its table of images.
\<close>

section \<open>The world\<close>

record ('f, 's, 'd, 'q) env =
  en_beast :: "'f beast"
  en_files :: "'s file_ops"
  en_sqlite :: "('d, 'q) sqlite"
  en_iter :: "json_map \<Rightarrow> json_map"

record ('s, 'd) world =
  wo_files :: 's
  wo_storage :: json_storage
  wo_db :: 'd

text \<open>
  An operation of the API handler on the whole world; and one of the meme handler, with the table
  of images it starts and ends with.
\<close>

definition on_api :: "('s api_world \<Rightarrow> 'a result \<times> 's api_world) \<Rightarrow> ('s, 'd) world \<Rightarrow> 'a result \<times> ('s, 'd) world" where
  "on_api f w =
     (let (r, a) = f \<lparr>aw_files = wo_files w, aw_storage = wo_storage w\<rparr>
      in (r, w\<lparr>wo_files := aw_files a, wo_storage := aw_storage a\<rparr>))"

definition on_meme ::
  "(int, string) std_map \<Rightarrow> (('s, 'd) meme_state \<Rightarrow> 'a result \<times> ('s, 'd) meme_state) \<Rightarrow>
     ('s, 'd) world \<Rightarrow> ('a \<times> (int, string) std_map) result \<times> ('s, 'd) world" where
  "on_meme images f w =
     (let (r, m) = f \<lparr>ms_images = images, ms_files = wo_files w, ms_db = wo_db w\<rparr>
      in (rbind r (\<lambda>x. Inr (x, ms_images m)), w\<lparr>wo_files := ms_files m, wo_db := ms_db m\<rparr>))"

lemma on_api_fst: "fst (on_api f w) = fst (f \<lparr>aw_files = wo_files w, aw_storage = wo_storage w\<rparr>)"
  by (simp add: on_api_def split: prod.split)

lemma on_meme_fst:
  "fst (on_meme images f w) =
     (let (r, m) = f \<lparr>ms_images = images, ms_files = wo_files w, ms_db = wo_db w\<rparr>
      in rbind r (\<lambda>x. Inr (x, ms_images m)))"
  by (simp add: on_meme_def split: prod.split)

section \<open>Handlers and their factories\<close>

datatype RequestHandler =
    Echo_handler
  | Error_handler
  | Health_handler health_handler
  | Static_handler static_handler
  | Api_handler api_handler
  | Meme_handler meme_handler "(int, string) std_map"

definition Echo_create :: "string \<Rightarrow> NginxConfig option \<Rightarrow> ('s, 'd) world \<Rightarrow> RequestHandler result \<times> ('s, 'd) world" where
  "Echo_create location conf w = (Inr Echo_handler, w)"

definition Error_create :: "string \<Rightarrow> NginxConfig option \<Rightarrow> ('s, 'd) world \<Rightarrow> RequestHandler result \<times> ('s, 'd) world" where
  "Error_create location conf w = (Inr Error_handler, w)"

definition Health_create :: "string \<Rightarrow> NginxConfig option \<Rightarrow> ('s, 'd) world \<Rightarrow> RequestHandler result \<times> ('s, 'd) world" where
  "Health_create location conf w = (Inr (Health_handler (HealthRequestHandler location)), w)"

definition Static_create :: "string \<Rightarrow> NginxConfig option \<Rightarrow> ('s, 'd) world \<Rightarrow> RequestHandler result \<times> ('s, 'd) world" where
  "Static_create location conf w =
     (rbind (StaticRequestHandler location conf) (\<lambda>h. Inr (Static_handler h)), w)"

definition Api_create ::
  "('f, 's, 'd, 'q) env \<Rightarrow> string \<Rightarrow> NginxConfig option \<Rightarrow> ('s, 'd) world \<Rightarrow> RequestHandler result \<times> ('s, 'd) world" where
  "Api_create E location conf w =
     ebind (on_api (ApiRequestHandler (en_files E) location conf) w) (\<lambda>h w. (Inr (Api_handler h), w))"

definition Meme_create ::
  "('f, 's, 'd, 'q) env \<Rightarrow> string \<Rightarrow> NginxConfig option \<Rightarrow> ('s, 'd) world \<Rightarrow> RequestHandler result \<times> ('s, 'd) world" where
  "Meme_create E location conf w =
     ebind (on_meme [] (MemeRequestHandler (en_files E) (en_sqlite E) location conf) w) (\<lambda>(h, images) w.
       (Inr (Meme_handler h images), w))"

text \<open>The virtual call \<open>factory->create(location, conf)\<close>.\<close>

definition create ::
  "('f, 's, 'd, 'q) env \<Rightarrow> RequestHandlerFactory \<Rightarrow> string \<Rightarrow> NginxConfig option \<Rightarrow> ('s, 'd) world \<Rightarrow>
     RequestHandler result \<times> ('s, 'd) world" where
  "create E factory location conf w =
     (case factory of
        EchoRequestHandlerFactory \<Rightarrow> Echo_create location conf w
      | ErrorHandlerFactory \<Rightarrow> Error_create location conf w
      | HealthRequestHandlerFactory \<Rightarrow> Health_create location conf w
      | StaticRequestHandlerFactory \<Rightarrow> Static_create location conf w
      | ApiRequestHandlerFactory \<Rightarrow> Api_create E location conf w
      | MemeRequestHandlerFactory \<Rightarrow> Meme_create E location conf w)"

text \<open>The virtual call \<open>handler->handle_request(req, res)\<close>.\<close>

definition handle_request ::
  "('f, 's, 'd, 'q) env \<Rightarrow> RequestHandler \<Rightarrow> ('s, 'd) world \<Rightarrow> 'f request \<Rightarrow> 'f response \<Rightarrow>
     (int \<times> 'f response) result \<times> ('s, 'd) world" where
  "handle_request E handler w req res =
     (let B = en_beast E; F = en_files E; D = en_sqlite E in
      case handler of
        Echo_handler \<Rightarrow> echo_handle_request B w req res
      | Error_handler \<Rightarrow> error_handle_request B w req res
      | Health_handler h \<Rightarrow> health_handle_request B w req res
      | Static_handler h \<Rightarrow> (fst (static_handle_request B F h (wo_files w) req res), w)
      | Api_handler h \<Rightarrow> on_api (\<lambda>a. api_handle_request B F (en_iter E) h a req res) w
      | Meme_handler h images \<Rightarrow>
          ebind (on_meme images (\<lambda>m. meme_handle_request B F D h m req res) w) (\<lambda>(x, _) w. (Inr x, w)))"

lemmas create_defs = create_def Echo_create_def Error_create_def Health_create_def Static_create_def
  Api_create_def Meme_create_def

text \<open>
  What a session does with its factory: the constructor runs for every request, and the handler is
  used for one request (and never deleted).
\<close>

definition serve ::
  "('f, 's, 'd, 'q) env \<Rightarrow> RequestHandlerFactory \<Rightarrow> string \<Rightarrow> NginxConfig option \<Rightarrow>
     ('s, 'd) world \<Rightarrow> 'f request \<Rightarrow> 'f response \<Rightarrow> (int \<times> 'f response) result \<times> ('s, 'd) world" where
  "serve E factory location conf w req res =
     ebind (create E factory location conf w) (\<lambda>handler w. handle_request E handler w req res)"

section \<open>Each of them is a request handler\<close>

lemma handle_request_agrees: "agrees_result (fst (handle_request E handler w req res))"
proof (cases handler)
  case (Meme_handler h images)
  obtain r m where m: "meme_handle_request (en_beast E) (en_files E) (en_sqlite E) h
      \<lparr>ms_images = images, ms_files = wo_files w, ms_db = wo_db w\<rparr> req res = (r, m)" by fastforce
  with Meme_handler meme.handle_agrees_status [of "en_beast E" "en_files E" "en_sqlite E" h
      "\<lparr>ms_images = images, ms_files = wo_files w, ms_db = wo_db w\<rparr>" req res]
  show ?thesis by (cases r) (simp_all add: handle_request_def Let_def on_meme_def)
qed (use echo.handle_agrees_status error_handler.handle_agrees_status health.handle_agrees_status
    static.handle_agrees_status api.handle_agrees_status
    in \<open>auto simp: handle_request_def Let_def on_api_fst\<close>)

interpretation dispatched: request_handler "handle_request E handler"
  by unfold_locales (rule handle_request_agrees)

interpretation served: request_handler "serve E factory location conf"
  by unfold_locales (auto simp: serve_def handle_request_agrees)

text \<open>Only the API handler and the meme handler touch what the handlers share.\<close>

lemma serve_pure:
  assumes "factory \<notin> {ApiRequestHandlerFactory, MemeRequestHandlerFactory}"
  shows "snd (serve E factory location conf w req res) = w"
  using assms echo.handle_state error_handler.handle_state health.handle_state
  by (cases factory) (auto simp: serve_def create_defs handle_request_def Let_def result_iff split: ebind_split)

end
