(* ===== verification/Http_Parser.thy ===== *)
theory Http_Parser
  imports Http_Message
begin

text \<open>
  \<open>httpParser\<close> (\<open>src/http_parser.cc\<close>): the hand-written request parser, a state machine that
  walks over the request string once, and the printing of a response.

  The loop index is the suffix of the string that is still to be read.  The source looks ahead
  with \<open>request_string[i + k]\<close>, before it tests that the index is inside the string:
  \<open>string_at\<close> is \<open>std::string\<close>'s \<open>operator[]\<close>, which gives \<open>NUL\<close> at the end and has no
  defined value beyond it (\<open>Bad_index\<close>).
\<close>

definition string_at :: "string \<Rightarrow> nat \<Rightarrow> char result" where
  "string_at s k =
     (if k < length s then Inr (s ! k) else if k = length s then Inr NUL else Inl Bad_index)"

section \<open>getFields\<close>

record fields_state =
  gf_method :: "verb option"  \<comment> \<open>what \<open>req.method\<close> was set to\<close>
  gf_type :: string
  gf_uri :: string
  gf_version :: string
  gf_header_cpy :: string
  gf_headers :: "string list"
  gf_body :: string
  gf_checkSyntax :: bool
  gf_cycle :: nat

definition fields_start :: fields_state where
  "fields_start = \<lparr>gf_method = None, gf_type = [], gf_uri = [], gf_version = [], gf_header_cpy = [],
     gf_headers = [], gf_body = [], gf_checkSyntax = False, gf_cycle = 0\<rparr>"

definition verb_of :: "string \<Rightarrow> verb option" where
  "verb_of ty =
     (if ty = ''GET'' then Some Verb_get
      else if ty = ''POST'' then Some Verb_post
      else if ty = ''PUT'' then Some Verb_put
      else if ty = ''DELETE'' then Some Verb_delete
      else if ty = ''HEAD'' then Some Verb_head
      else if ty = ''CONNECT'' then Some Verb_connect
      else if ty = ''OPTIONS'' then Some Verb_options
      else if ty = ''TRACE'' then Some Verb_trace
      else None)"

text \<open>
  One turn of the loop at the suffix \<open>s\<close> (which is not empty): the new state and how many
  characters \<open>i\<close> moved beyond the one of the \<open>for\<close>.
\<close>

definition fields_step :: "fields_state \<Rightarrow> string \<Rightarrow> (fields_state \<times> nat) result" where
  "fields_step f s =
     (let c = hd s in
      if gf_cycle f = 0 then
        (if c \<noteq> SP then Inr (f\<lparr>gf_type := gf_type f @ [c]\<rparr>, 0)
         else (case verb_of (gf_type f) of
                 Some v \<Rightarrow> Inr (f\<lparr>gf_method := Some v, gf_cycle := 1\<rparr>, 0)
               | None \<Rightarrow> Inr (f\<lparr>gf_checkSyntax := True\<rparr>, 0)))
      else if gf_cycle f = 1 then
        (if c \<noteq> SP then Inr (f\<lparr>gf_uri := gf_uri f @ [c]\<rparr>, 0)
         else Inr (f\<lparr>gf_cycle := 2\<rparr>, 0))
      else if gf_cycle f = 2 then
        (if c \<noteq> CR then Inr (f\<lparr>gf_version := gf_version f @ [c]\<rparr>, 0)
         else rbind (string_at s 1) (\<lambda>c1.
           if c1 = LF \<and> 1 < length s then Inr (f\<lparr>gf_cycle := 3\<rparr>, 1)
           else Inr (f\<lparr>gf_checkSyntax := True\<rparr>, 0)))
      else if gf_cycle f = 3 then
        (if c \<noteq> CR then Inr (f\<lparr>gf_header_cpy := gf_header_cpy f @ [c]\<rparr>, 0)
         else rbind (string_at s 1) (\<lambda>c1.
           if c1 = LF \<and> 1 < length s then
             (if gf_header_cpy f = [] then Inr (f\<lparr>gf_cycle := 4\<rparr>, 1)
              else
                let f' = f\<lparr>gf_headers := gf_headers f @ [gf_header_cpy f], gf_header_cpy := []\<rparr>
                in rbind (string_at s 2) (\<lambda>c2.
                  if c2 = CR then
                    rbind (string_at s 3) (\<lambda>c3.
                      if c3 = LF \<and> 3 < length s then Inr (f'\<lparr>gf_cycle := 4\<rparr>, 3)
                      else Inr (f', 1))
                  else Inr (f', 1)))
           else Inr (f\<lparr>gf_checkSyntax := True\<rparr>, 0)))
      else Inr (f\<lparr>gf_body := gf_body f @ [c]\<rparr>, 0))"

function fields_loop :: "fields_state \<Rightarrow> string \<Rightarrow> fields_state result" where
  "fields_loop f s =
     (if s = [] then Inr f
      else rbind (fields_step f s) (\<lambda>(f', k).
        if gf_checkSyntax f' then Inr f' else fields_loop f' (drop (k + 1) s)))"
  by pat_completeness auto
termination
  by (relation "measure (\<lambda>(f, s). length s)") auto

declare fields_loop.simps [simp del]

text \<open>
  The loop over the header lines.  A line without a colon is skipped; the value starts two
  characters after the colon, and \<open>substr\<close> throws when the line ends with it.
\<close>

fun set_headers :: "'f beast \<Rightarrow> string list \<Rightarrow> 'f request \<Rightarrow> 'f request result" where
  "set_headers B [] req = Inr req"
| "set_headers B (header # headers) req =
     (case find_str header '':'' 0 of
        None \<Rightarrow> set_headers B headers req
      | Some pos \<Rightarrow>
          rbind (substr header 0 pos) (\<lambda>name.
          rbind (substr_from header (pos + 2)) (\<lambda>value.
            set_headers B headers (req_set B (Field_string name) value req))))"

definition getFields :: "'f beast \<Rightarrow> string \<Rightarrow> 'f request \<Rightarrow> 'f request result" where
  "getFields B request_string req =
     rbind (fields_loop fields_start request_string) (\<lambda>f.
       let req1 = (case gf_method f of Some v \<Rightarrow> req\<lparr>rq_method := v\<rparr> | None \<Rightarrow> req);
           req2 = req1\<lparr>rq_target := gf_uri f\<rparr>
       in rbind (set_headers B (gf_headers f) req2) (\<lambda>req3.
            Inr (req3\<lparr>rq_body := gf_body f\<rparr>)))"

definition getResponse :: "'f beast \<Rightarrow> 'f response \<Rightarrow> string" where
  "getResponse B response = bs_response_header B response @ rs_body response"

section \<open>The look-ahead stays inside the string\<close>

lemma string_at_le: "k \<le> length s \<Longrightarrow> \<exists>c. string_at s k = Inr c \<and> (c = NUL \<or> k < length s)"
  by (simp add: string_at_def)

lemma fields_step_total:
  assumes "s \<noteq> []" shows "\<exists>r. fields_step f s = Inr r"
proof -
  have 1: "1 \<le> length s" using assms by (cases s) auto
  then obtain c1 where c1: "string_at s 1 = Inr c1" using string_at_le by blast
  show ?thesis
  proof (cases "1 < length s")
    case False
    with c1 show ?thesis by (simp add: fields_step_def Let_def split: option.split)
  next
    case True
    then have "2 \<le> length s" by simp
    then obtain c2 where c2: "string_at s 2 = Inr c2" "c2 = NUL \<or> 2 < length s"
      using string_at_le by blast
    have "\<exists>c3. string_at s 3 = Inr c3" if "c2 = CR"
      using that c2(2) string_at_le [of 3 s] by auto
    then obtain c3 where "c2 = CR \<Longrightarrow> string_at s 3 = Inr c3" by blast
    with c1 c2 show ?thesis by (simp add: fields_step_def Let_def split: option.split)
  qed
qed

lemma fields_loop_total: "\<exists>f'. fields_loop f s = Inr f'"
proof (induction f s rule: fields_loop.induct)
  case (1 f s)
  show ?case
  proof (cases "s = []")
    case True
    then show ?thesis by (subst fields_loop.simps) simp
  next
    case False
    then obtain f' k where step: "fields_step f s = Inr (f', k)"
      using fields_step_total [of s f] by fastforce
    with False 1 show ?thesis
      by (subst fields_loop.simps) (cases "gf_checkSyntax f'", auto)
  qed
qed

text \<open>
  So the only fault of \<open>getFields\<close> is the \<open>out_of_range\<close> of a header line, and it occurs exactly
  when some line has its first colon at its end.
\<close>

definition bare_header :: "string \<Rightarrow> bool" where
  "bare_header h \<longleftrightarrow> (\<exists>n. CHR '':'' \<notin> set n \<and> h = n @ '':'')"

lemma find_colon:
  "find_str h '':'' 0 = (if CHR '':'' \<in> set h then Some (length (takeWhile (\<lambda>c. c \<noteq> CHR '':'') h)) else None)"
  by (simp add: find_str_def find_at_single)

lemma find_colon_append [simp]:
  "CHR '':'' \<notin> set n \<Longrightarrow> find_str (n @ CHR '':'' # v) '':'' 0 = Some (length n)"
  by (simp add: find_colon takeWhile_append)

lemma set_headers_throw:
  "(\<exists>r. set_headers B hs req = Inr r) \<or> set_headers B hs req = Inl Out_of_range"
  by (induction B hs req rule: set_headers.induct)
    (auto simp: substr_def substr_from_def split: option.split)

lemma header_split:
  assumes "CHR '':'' \<in> set h"
  obtains n v where "h = n @ CHR '':'' # v" and "CHR '':'' \<notin> set n"
  using split_list_first [OF assms] by blast

lemma bare_header_append: "CHR '':'' \<notin> set n \<Longrightarrow> bare_header (n @ CHR '':'' # v) \<longleftrightarrow> v = []"
  by (auto simp: bare_header_def split_at_first_iff)

lemma set_headers_fails:
  "set_headers B hs req = Inl Out_of_range \<longleftrightarrow> (\<exists>h \<in> set hs. bare_header h)"
proof (induction B hs req rule: set_headers.induct)
  case (2 B header headers req)
  show ?case
  proof (cases "CHR '':'' \<in> set header")
    case True
    then obtain n v where h: "header = n @ CHR '':'' # v" "CHR '':'' \<notin> set n" by (rule header_split)
    with 2 show ?thesis
      by (cases v) (auto simp: substr_def substr_from_def bare_header_append)
  next
    case False
    then have "\<not> bare_header header" by (auto simp: bare_header_def)
    with False 2 show ?thesis by (simp add: find_colon)
  qed
qed simp

section \<open>Reading a well-formed request\<close>

definition header_line :: "string \<times> string \<Rightarrow> string" where
  "header_line h = fst h @ '': '' @ snd h"

definition header_ok :: "string \<times> string \<Rightarrow> bool" where
  "header_ok h \<longleftrightarrow> CHR '':'' \<notin> set (fst h) \<and> CR \<notin> set (fst h) \<and> CR \<notin> set (snd h)"

text \<open>Method, target, version, header fields and body, written as a client writes them.\<close>

definition render_request ::
  "string \<Rightarrow> string \<Rightarrow> string \<Rightarrow> (string \<times> string) list \<Rightarrow> string \<Rightarrow> string" where
  "render_request m t v hs b =
     m @ SP # t @ SP # v @ crlf @ concat (map (\<lambda>h. header_line h @ crlf) hs) @ crlf @ b"

lemma fields_loop_step:
  assumes "fields_step f s = Inr (f', k)" and "\<not> gf_checkSyntax f'" and "s \<noteq> []"
  shows "fields_loop f s = fields_loop f' (drop (k + 1) s)"
  using assms by (subst fields_loop.simps) simp

lemma fields_read_type:
  assumes "SP \<notin> set m" and "gf_cycle f = 0" and "\<not> gf_checkSyntax f"
    and "verb_of (gf_type f @ m) = Some vb"
  shows "fields_loop f (m @ SP # r) =
    fields_loop (f\<lparr>gf_type := gf_type f @ m, gf_method := Some vb, gf_cycle := 1\<rparr>) r"
  using assms
proof (induction m arbitrary: f)
  case Nil
  have "fields_step f (SP # r) = Inr (f\<lparr>gf_method := Some vb, gf_cycle := 1\<rparr>, 0)"
    using Nil by (simp add: fields_step_def)
  from fields_loop_step [OF this] Nil show ?case by simp
next
  case (Cons c m)
  have "fields_step f (c # m @ SP # r) = Inr (f\<lparr>gf_type := gf_type f @ [c]\<rparr>, 0)"
    using Cons.prems by (auto simp: fields_step_def)
  from fields_loop_step [OF this] Cons.prems Cons.IH [of "f\<lparr>gf_type := gf_type f @ [c]\<rparr>"]
  show ?case by simp
qed

lemma fields_read_uri:
  assumes "SP \<notin> set t" and "gf_cycle f = 1" and "\<not> gf_checkSyntax f"
  shows "fields_loop f (t @ SP # r) = fields_loop (f\<lparr>gf_uri := gf_uri f @ t, gf_cycle := 2\<rparr>) r"
  using assms
proof (induction t arbitrary: f)
  case Nil
  have "fields_step f (SP # r) = Inr (f\<lparr>gf_cycle := 2\<rparr>, 0)"
    using Nil by (simp add: fields_step_def)
  from fields_loop_step [OF this] Nil show ?case by simp
next
  case (Cons c t)
  have "fields_step f (c # t @ SP # r) = Inr (f\<lparr>gf_uri := gf_uri f @ [c]\<rparr>, 0)"
    using Cons.prems by (auto simp: fields_step_def)
  from fields_loop_step [OF this] Cons.prems Cons.IH [of "f\<lparr>gf_uri := gf_uri f @ [c]\<rparr>"]
  show ?case by simp
qed

lemma fields_read_version:
  assumes "CR \<notin> set v" and "gf_cycle f = 2" and "\<not> gf_checkSyntax f"
  shows "fields_loop f (v @ CR # LF # r) =
    fields_loop (f\<lparr>gf_version := gf_version f @ v, gf_cycle := 3\<rparr>) r"
  using assms
proof (induction v arbitrary: f)
  case Nil
  have "fields_step f (CR # LF # r) = Inr (f\<lparr>gf_cycle := 3\<rparr>, 1)"
    using Nil by (simp add: fields_step_def string_at_def)
  from fields_loop_step [OF this] Nil show ?case by simp
next
  case (Cons c v)
  have "fields_step f (c # v @ CR # LF # r) = Inr (f\<lparr>gf_version := gf_version f @ [c]\<rparr>, 0)"
    using Cons.prems by (auto simp: fields_step_def)
  from fields_loop_step [OF this] Cons.prems Cons.IH [of "f\<lparr>gf_version := gf_version f @ [c]\<rparr>"]
  show ?case by simp
qed

text \<open>A header line, followed by the blank line or by another one.\<close>

lemma fields_read_header:
  assumes "CR \<notin> set h" and "gf_cycle f = 3" and "\<not> gf_checkSyntax f"
    and "gf_header_cpy f @ h \<noteq> []" and "r \<noteq> []"
  shows "fields_loop f (h @ CR # LF # r) =
    (if take 2 r = crlf
     then fields_loop (f\<lparr>gf_headers := gf_headers f @ [gf_header_cpy f @ h], gf_header_cpy := [],
            gf_cycle := 4\<rparr>) (drop 2 r)
     else fields_loop (f\<lparr>gf_headers := gf_headers f @ [gf_header_cpy f @ h], gf_header_cpy := []\<rparr>) r)"
  using assms
proof (induction h arbitrary: f)
  case Nil
  then obtain c u where r: "r = c # u" by (cases r) auto
  have "fields_step f (CR # LF # r) =
     (if take 2 r = crlf
      then Inr (f\<lparr>gf_headers := gf_headers f @ [gf_header_cpy f], gf_header_cpy := [], gf_cycle := 4\<rparr>, 3)
      else Inr (f\<lparr>gf_headers := gf_headers f @ [gf_header_cpy f], gf_header_cpy := []\<rparr>, 1))"
    using Nil r by (cases u) (auto simp: fields_step_def string_at_def Let_def)
  then show ?case
    using fields_loop_step [of f "CR # LF # r"] Nil r by (auto split: if_splits)
next
  case (Cons c h)
  have "fields_step f (c # h @ CR # LF # r) = Inr (f\<lparr>gf_header_cpy := gf_header_cpy f @ [c]\<rparr>, 0)"
    using Cons.prems by (auto simp: fields_step_def)
  from fields_loop_step [OF this] Cons.prems Cons.IH [of "f\<lparr>gf_header_cpy := gf_header_cpy f @ [c]\<rparr>"]
  show ?case by simp
qed

lemma header_line_facts:
  "header_ok h \<Longrightarrow> CR \<notin> set (header_line h)" "header_line h \<noteq> []"
  by (auto simp: header_ok_def header_line_def)

lemma header_line_no_crlf: "header_ok h \<Longrightarrow> take 2 (header_line h @ crlf @ s) \<noteq> crlf"
  using header_line_facts [of h] by (cases "header_line h") auto

lemma fields_read_headers:
  assumes "list_all header_ok hs" and "hs \<noteq> []" and "gf_cycle f = 3" and "\<not> gf_checkSyntax f"
    and "gf_header_cpy f = []"
  shows "fields_loop f (concat (map (\<lambda>h. header_line h @ crlf) hs) @ crlf @ b) =
    fields_loop (f\<lparr>gf_headers := gf_headers f @ map header_line hs, gf_header_cpy := [], gf_cycle := 4\<rparr>) b"
  using assms
proof (induction hs arbitrary: f)
  case (Cons h hs)
  let ?tail = "concat (map (\<lambda>h. header_line h @ crlf) hs) @ crlf @ b"
  have "take 2 ?tail = crlf \<longleftrightarrow> hs = []"
    using Cons.prems(1) by (cases hs) (auto simp del: append_assoc dest: header_line_no_crlf)
  then have "fields_loop f (header_line h @ CR # LF # ?tail) =
     (if hs = []
      then fields_loop (f\<lparr>gf_headers := gf_headers f @ [header_line h], gf_header_cpy := [],
             gf_cycle := 4\<rparr>) (drop 2 ?tail)
      else fields_loop (f\<lparr>gf_headers := gf_headers f @ [header_line h], gf_header_cpy := []\<rparr>) ?tail)"
    using Cons.prems fields_read_header [of "header_line h" f ?tail] header_line_facts [of h] by simp
  moreover have "hs \<noteq> [] \<Longrightarrow>
      fields_loop (f\<lparr>gf_headers := gf_headers f @ [header_line h], gf_header_cpy := []\<rparr>) ?tail =
      fields_loop (f\<lparr>gf_headers := gf_headers f @ map header_line (h # hs), gf_header_cpy := [],
        gf_cycle := 4\<rparr>) b"
    using Cons.prems Cons.IH [of "f\<lparr>gf_headers := gf_headers f @ [header_line h], gf_header_cpy := []\<rparr>"]
    by simp
  ultimately show ?case by auto
qed simp

lemma fields_read_body:
  assumes "gf_cycle f = 4" and "\<not> gf_checkSyntax f"
  shows "fields_loop f b = Inr (f\<lparr>gf_body := gf_body f @ b\<rparr>)"
  using assms
proof (induction b arbitrary: f)
  case Nil
  show ?case by (subst fields_loop.simps) simp
next
  case (Cons c b)
  have "fields_step f (c # b) = Inr (f\<lparr>gf_body := gf_body f @ [c]\<rparr>, 0)"
    using Cons.prems by (auto simp: fields_step_def)
  from fields_loop_step [OF this] Cons.prems Cons.IH [of "f\<lparr>gf_body := gf_body f @ [c]\<rparr>"]
  show ?case by simp
qed

lemma fields_read_header_block:
  assumes "list_all header_ok hs" and "gf_cycle f = 3" and "\<not> gf_checkSyntax f" and "gf_header_cpy f = []"
  shows "fields_loop f (concat (map (\<lambda>h. header_line h @ crlf) hs) @ crlf @ b) =
    fields_loop (f\<lparr>gf_headers := gf_headers f @ map header_line hs, gf_header_cpy := [], gf_cycle := 4\<rparr>) b"
proof (cases "hs = []")
  case True
  have "fields_step f (CR # LF # b) = Inr (f\<lparr>gf_cycle := 4\<rparr>, 1)"
    using assms by (simp add: fields_step_def string_at_def)
  from fields_loop_step [OF this] assms True show ?thesis by (cases f) simp
next
  case False
  with assms fields_read_headers show ?thesis by blast
qed

lemma verb_of_no_space: "verb_of m = Some vb \<Longrightarrow> SP \<notin> set m"
  by (auto simp: verb_of_def split: if_splits)

lemma fields_read_request:
  assumes "verb_of m = Some vb" and "SP \<notin> set t" and "CR \<notin> set v" and "list_all header_ok hs"
  shows "\<exists>f. fields_loop fields_start (render_request m t v hs b) = Inr f \<and>
    gf_method f = Some vb \<and> gf_uri f = t \<and> gf_headers f = map header_line hs \<and> gf_body f = b"
  using assms verb_of_no_space [OF assms(1)]
  by (simp add: render_request_def fields_read_type fields_start_def fields_read_uri
      fields_read_version fields_read_header_block [unfolded append_Cons append_Nil] fields_read_body)

text \<open>The header fields, set in the order of the lines.\<close>

definition set_fields :: "'f beast \<Rightarrow> (string \<times> string) list \<Rightarrow> 'f \<Rightarrow> 'f" where
  "set_fields B hs f = fold (\<lambda>(n, v) f. bs_set B f (Field_string n) v) hs f"

lemma set_headers_lines:
  "list_all header_ok hs \<Longrightarrow>
     set_headers B (map header_line hs) req = Inr (req\<lparr>rq_fields := set_fields B hs (rq_fields req)\<rparr>)"
proof (induction hs arbitrary: req)
  case (Cons h hs)
  obtain n v where h: "h = (n, v)" by (cases h)
  with Cons show ?case
    by (simp add: header_line_def header_ok_def set_fields_def req_set_def substr_from_def)
qed (simp add: set_fields_def)

lemma getFields_rendered:
  assumes "verb_of m = Some vb" and "SP \<notin> set t" and "CR \<notin> set v" and "list_all header_ok hs"
  shows "getFields B (render_request m t v hs b) req =
    Inr (req\<lparr>rq_method := vb, rq_target := t,
      rq_fields := set_fields B hs (rq_fields req), rq_body := b\<rparr>)"
proof -
  from fields_read_request [OF assms, of b] obtain f where
    "fields_loop fields_start (render_request m t v hs b) = Inr f"
    "gf_method f = Some vb" "gf_uri f = t" "gf_headers f = map header_line hs" "gf_body f = b" by blast
  with assms(4) show ?thesis by (simp add: getFields_def set_headers_lines)
qed

lemma set_headers_target: "set_headers B hs req = Inr r \<Longrightarrow> rq_target r = rq_target req"
  by (induction B hs req rule: set_headers.induct) (auto simp: result_iff split: option.splits)

lemma getFields_fault_iff:
  "getFields B s req = Inl e \<longleftrightarrow>
     e = Out_of_range \<and> (\<exists>f. fields_loop fields_start s = Inr f \<and> (\<exists>h \<in> set (gf_headers f). bare_header h))"
proof -
  obtain f where f: "fields_loop fields_start s = Inr f" using fields_loop_total by blast
  have "set_headers B (gf_headers f) r = Inl e \<longleftrightarrow>
      e = Out_of_range \<and> (\<exists>h \<in> set (gf_headers f). bare_header h)" for r
    using set_headers_fails [of B "gf_headers f" r] set_headers_throw [of B "gf_headers f" r] by auto
  with f show ?thesis by (auto simp: getFields_def result_iff Let_def split: option.splits)
qed

text \<open>
  C22: \<open>getFields\<close> returns on every string and never looks beyond the end of the
  string: the walk over the string always succeeds, and the only failure is the
  \<open>std::out_of_range\<close> of a header line whose first colon is its last character.
\<close>

theorem getFields_fault:
  "\<exists>f. fields_loop fields_start s = Inr f \<and>
     (case getFields B s req of
        Inl e \<Rightarrow> e = Out_of_range \<and> (\<exists>h \<in> set (gf_headers f). bare_header h)
      | Inr r \<Rightarrow> (\<forall>h \<in> set (gf_headers f). \<not> bare_header h) \<and> rq_target r = gf_uri f \<and> rq_body r = gf_body f)"
proof -
  obtain f where f: "fields_loop fields_start s = Inr f" using fields_loop_total by blast
  have "rq_target r = gf_uri f \<and> rq_body r = gf_body f" if "getFields B s req = Inr r" for r
    using that f by (auto simp: getFields_def result_iff Let_def split: option.splits dest: set_headers_target)
  then show ?thesis
    using f getFields_fault_iff [of B s req] by (intro exI [of _ f]) (auto split: sum.split)
qed

lemma getFields_fault_witness:
  "getFields list_beast ''GET / HTTP/1.1'' (bs_request list_beast) \<noteq> Inl Null_deref"
  using getFields_fault [of "''GET / HTTP/1.1''" list_beast "bs_request list_beast"] by auto

text \<open>
  C10: a request written out in the usual form (request line, header lines, empty
  line, body) is read back: method, target, every header field in order, and the whole body.
\<close>

theorem getFields_render:
  assumes "verb_of m = Some vb" and "SP \<notin> set t" and "CR \<notin> set v" and "list_all header_ok hs"
  shows "getFields B (render_request m t v hs b) req =
    Inr (req\<lparr>rq_method := vb, rq_target := t,
      rq_fields := set_fields B hs (rq_fields req), rq_body := b\<rparr>)"
  using assms by (rule getFields_rendered)

lemma getFields_render_witness:
  "getFields list_beast (render_request ''POST'' ''/api/x'' ''HTTP/1.1'' [(''Host'', ''a'')] ''{}'') (bs_request list_beast) =
   Inr \<lparr>rq_method = Verb_post, rq_target = ''/api/x'', rq_version = 11,
     rq_fields = [(Field_string ''Host'', ''a'')], rq_body = ''{}''\<rparr>"
  by (subst getFields_render)
    (simp_all add: verb_of_def header_ok_def list_beast_def set_fields_def)

end
