(* ===== verification/Session.thy ===== *)
theory Session
  imports Handler_Factory Http_Parser
begin

text \<open>
  \<open>RealSession\<close> (\<open>src/session.cc\<close>): one connection.  It reads into the array \<open>data_\<close>, parses and
  routes the request, lets a fresh handler answer it, and writes the answer.

  A session has its own copies of the two tables, which \<open>operator[]\<close> can extend.

  \<open>HandleRead\<close> is one atomic step here.  The completion handlers are run by 128 threads; what that
  means for the critical sections inside a handler is the subject of the theories on locks.
\<close>

section \<open>State of a session\<close>

datatype phase = Created | Reading | Writing string | Deleted

record session =
  se_data :: string                 \<comment> \<open>\<open>data_\<close>\<close>
  se_client_ip :: string            \<comment> \<open>\<open>client_ip_\<close>\<close>
  se_handler_map :: handler_map
  se_routes :: routes
  se_phase :: phase

definition max_length :: nat where "max_length = 8192"

text \<open>The array of a new session is not initialised: \<open>junk\<close> is what the memory held.\<close>

definition RealSession :: "string \<Rightarrow> handler_map \<Rightarrow> routes \<Rightarrow> session" where
  "RealSession junk handler_map routes =
     \<lparr>se_data = junk, se_client_ip = [], se_handler_map = handler_map, se_routes = routes, se_phase = Created\<rparr>"

text \<open>
  \<open>Start\<close> asks the socket for its peer's address and begins the first read.  \<open>peer\<close> is what the
  operating system answers; a client that has reset the connection since it was accepted has no
  address any more, and \<open>remote_endpoint\<close> throws.
\<close>

definition Start :: "string option \<Rightarrow> session \<Rightarrow> session result" where
  "Start peer s =
     (case peer of
        None \<Rightarrow> Inl System_error
      | Some client_ip \<Rightarrow> Inr (s\<lparr>se_client_ip := client_ip, se_phase := Reading\<rparr>))"

text \<open>What a completed read leaves in the array, and the string \<open>std::string(data_)\<close>.\<close>

definition received :: "string \<Rightarrow> string \<Rightarrow> string" where
  "received bytes data = bytes @ drop (length bytes) data"

definition array_string :: "string \<Rightarrow> string result" where
  "array_string data = (if NUL \<in> set data then Inr (c_str data) else Inl Bad_index)"

definition zeroed :: string where
  "zeroed = replicate max_length NUL"

section \<open>The completion handlers\<close>

text \<open>The answer to the message \<open>msg\<close>: the response, the tables and the world afterwards.\<close>

definition answer ::
  "('f, 's, 'd, 'q) env \<Rightarrow> string \<Rightarrow> session \<Rightarrow> ('s, 'd) world \<Rightarrow> ('f response \<times> session) result \<times> ('s, 'd) world" where
  "answer E msg s w =
     (let B = en_beast E;
          ec = bs_parser_put B msg
      in ebind (pure_result (getFields B msg (bs_request B)) w) (\<lambda>req w.
         let target = rq_target req in
         ebind (pure_result (match (se_routes s) target) w) (\<lambda>location w.
         let res = bs_response B in
         if ec \<noteq> No_error \<and> ec \<noteq> Bad_version
         then (Inr (res\<lparr>rs_result := 400, rs_reason := ''Bad Request''\<rparr>, s), w)
         else
           let location = (if location = [] then [SLASH] else location);
               (factory, routes) = smap_index None location (se_routes s);
               (entry, handler_map) = smap_index ([], None) location (se_handler_map s);
               s = s\<lparr>se_routes := routes, se_handler_map := handler_map\<rparr>
           in case factory of
                None \<Rightarrow> (Inl Null_deref, w)
              | Some factory \<Rightarrow>
                  ebind (serve E factory location (snd entry) w req res) (\<lambda>x w.
                    (Inr (snd x, s), w)))))"

definition HandleRead ::
  "('f, 's, 'd, 'q) env \<Rightarrow> string option \<Rightarrow> session \<Rightarrow> ('s, 'd) world \<Rightarrow> session result \<times> ('s, 'd) world" where
  "HandleRead E read s w =
     (case read of
        None \<Rightarrow> (Inr (s\<lparr>se_phase := Deleted\<rparr>), w)
      | Some bytes \<Rightarrow>
          let data = received bytes (se_data s) in
          ebind (pure_result (array_string data) w) (\<lambda>msg w.
          ebind (answer E msg (s\<lparr>se_data := data\<rparr>) w) (\<lambda>(res, s) w.
            (Inr (s\<lparr>se_data := zeroed, se_phase := Writing (getResponse (en_beast E) res)\<rparr>), w))))"

definition HandleWrite :: "bool \<Rightarrow> session \<Rightarrow> session" where
  "HandleWrite error s = s\<lparr>se_phase := (if error then Deleted else Reading)\<rparr>"

section \<open>The life of a session\<close>

text \<open>
  What the network reports: a read of at most \<open>max_length\<close> bytes (at least one), a failed read,
  the end of a write.
\<close>

datatype event = Read string | Read_error | Written | Write_error

inductive session_step ::
  "('f, 's, 'd, 'q) env \<Rightarrow> event \<Rightarrow> session \<Rightarrow> ('s, 'd) world \<Rightarrow> session result \<Rightarrow> ('s, 'd) world \<Rightarrow> bool"
  for E
where
  read: "se_phase s = Reading \<Longrightarrow> bytes \<noteq> [] \<Longrightarrow> length bytes \<le> max_length \<Longrightarrow>
    HandleRead E (Some bytes) s w = (r, w') \<Longrightarrow> session_step E (Read bytes) s w r w'"
| read_error: "se_phase s = Reading \<Longrightarrow> HandleRead E None s w = (r, w') \<Longrightarrow>
    session_step E Read_error s w r w'"
| written: "se_phase s = Writing out \<Longrightarrow> session_step E Written s w (Inr (HandleWrite False s)) w"
| write_error: "se_phase s = Writing out \<Longrightarrow> session_step E Write_error s w (Inr (HandleWrite True s)) w"

inductive_cases session_stepE: "session_step E ev s w r w'"
inductive_simps session_read_iff: "session_step E (Read bytes) s w r w'"
inductive_simps session_written_iff: "session_step E Written s w r w'"

text \<open>The sessions that can be reached, with the number of requests answered so far.\<close>

inductive session_reachable :: "('f, 's, 'd, 'q) env \<Rightarrow> nat \<Rightarrow> session \<Rightarrow> bool" for E where
  start: "length junk = max_length \<Longrightarrow> Start peer (RealSession junk m routes) = Inr s \<Longrightarrow> session_reachable E 0 s"
| step: "session_reachable E n s \<Longrightarrow> session_step E ev s w (Inr s') w' \<Longrightarrow>
    session_reachable E (case ev of Read bytes \<Rightarrow> n + 1 | _ \<Rightarrow> n) s'"

end
