(* ===== verification/Meme_Props.thy ===== *)
theory Meme_Props
  imports Meme_Handler
begin

text \<open>
  What the meme handler does: the queries it sends, the pages it makes, and what happens when a
  query fails.
\<close>

section \<open>Queries\<close>

lemma remove_sus_cleanD: "x \<in> set (remove_sus_characters s) \<Longrightarrow> x \<notin> sus"
  using remove_sus_clean by blast

lemma parse_meme_clean:
  assumes "parse_meme_request r = Inr m"
  shows "set (me_top_text m) \<inter> sus = {}" and "set (me_bottom_text m) \<inter> sus = {}"
    and "set (me_image m) \<inter> sus = {}"
  using assms by (auto simp: parse_meme_request_def Let_def result_iff dest: remove_sus_cleanD)

lemma count_list_clean: "set s \<inter> sus = {} \<Longrightarrow> count_list s DQ = 0"
  by (rule count_notin) (auto simp: sus_def)

text \<open>
  C26: whatever the form body, the texts and the image that were read from it put no
  quote, backslash or line break into the two queries: their only quotes are those of the source.
\<close>

theorem meme_query_quotes:
  assumes "parse_meme_request r = Inr m"
  shows "count_list (insert_query m) DQ = 4 \<and> count_list (get_query m) DQ = 6 \<and>
    set (insert_query m @ get_query m) \<inter> (sus - {DQ}) = {}"
proof -
  note clean = parse_meme_clean [OF assms]
  have "count_list (insert_query m) DQ = 4" "count_list (get_query m) DQ = 6"
    using clean by (simp_all add: insert_query_def get_query_def count_list_append count_list_clean)
  moreover have "set (insert_query m @ get_query m) \<inter> (sus - {DQ}) = {}"
    using clean by (auto simp: insert_query_def get_query_def sus_def)
  ultimately show ?thesis by simp
qed

lemma meme_query_quotes_witness:
  "\<exists>m. parse_meme_request (render_meme ''a'' ''b'' ''3'') = Inr m \<and> count_list (insert_query m) DQ = 4"
proof -
  have "\<exists>m. parse_meme_request (render_meme ''a'' ''b'' ''3'') = Inr m"
    by (simp add: parse_meme_request_def Let_def render_meme_def find_int_def find_str_def size_of_def
        size_w_def substr_def substr_from_def prompt_defs)
  then show ?thesis using meme_query_quotes by blast
qed

lemma c_str_takeWhile: "NUL \<notin> set a \<Longrightarrow> c_str (a @ s) = a @ c_str s"
  unfolding c_str_def by (subst takeWhile_append2) auto

lemma remove_sus_split:
  "set a \<inter> sus = {} \<Longrightarrow> c \<in> sus \<Longrightarrow>
     remove_sus_characters (a @ c # b) = a @ NUL # remove_sus_characters b"
  using remove_sus_id [of a] by (simp add: remove_sus_eq)

text \<open>
  A suspicious character in the top text becomes a \<open>NUL\<close>, and the query that is
  sent to the database ends there: it is an unfinished statement, in the middle of a string.
\<close>

theorem meme_query_cut:
  assumes "set a \<inter> insert NUL sus = {}" and "c \<in> sus" and "set i \<inter> insert NUL sus = {}"
  shows "c_str (insert_query \<lparr>me_top_text = remove_sus_characters (a @ c # b),
       me_bottom_text = t, me_image = remove_sus_characters i\<rparr>) =
    ''INSERT INTO meme_table (image, top, bottom) VALUES ('' @ i @ '', '' @ [DQ] @ a"
proof -
  have "remove_sus_characters i = i" "NUL \<notin> set i" "NUL \<notin> set a" "set a \<inter> sus = {}"
    using assms(1,3) by (auto intro!: remove_sus_id)
  moreover have "c_str (''INSERT INTO meme_table (image, top, bottom) VALUES ('' @ i @ '', '' @ [DQ] @ a @ NUL # s) =
      ''INSERT INTO meme_table (image, top, bottom) VALUES ('' @ i @ '', '' @ [DQ] @ a" for s
    using \<open>NUL \<notin> set i\<close> \<open>NUL \<notin> set a\<close>
      c_str_append_NUL [of "''INSERT INTO meme_table (image, top, bottom) VALUES ('' @ i @ '', '' @ [DQ] @ a" s]
    by simp
  ultimately show ?thesis
    using assms(2) by (simp add: insert_query_def remove_sus_split)
qed

lemma meme_query_cut_witness:
  "c_str (insert_query \<lparr>me_top_text = remove_sus_characters (''it'' @ SQ # ''s''),
       me_bottom_text = [], me_image = remove_sus_characters ''3''\<rparr>) =
    ''INSERT INTO meme_table (image, top, bottom) VALUES (3, '' @ [DQ] @ ''it''"
  by (subst meme_query_cut) (simp_all add: sus_def)

section \<open>Pages\<close>

lemma read_page_Inr:
  "fo_is_regular_file F s p = Inr True \<Longrightarrow> read_page F s p = Inr (fo_read F s p)"
  by (simp add: read_page_def)

lemma position_after_found:
  assumes "find_at sel_target body = Some k" and "length body < 2 ^ 64"
  shows "position_after body sel_target = k + length sel_target"
proof -
  have "k + length sel_target < 2 ^ 64"
    using find_at_SomeD [OF assms(1)] assms(2) by simp
  then have "unat (of_nat (k + length sel_target) :: size_t) = k + length sel_target"
    by (rule unat_small)
  moreover have "find_str body sel_target 0 = Some k" using assms(1) by (simp add: find_str_def)
  ultimately show ?thesis by (simp add: position_after_def size_of_def)
qed

lemma position_after_missing:
  assumes "find_at sel_target body = None" and "sel_target \<noteq> []" and "length sel_target < 2 ^ 64"
  shows "position_after body sel_target = length sel_target - 1"
proof -
  have "(- 1 + of_nat (length sel_target) :: size_t) = of_nat (length sel_target - 1)"
    using assms(2) by (simp add: of_nat_diff Suc_le_eq)
  moreover have "find_str body sel_target 0 = None" using assms(1) by (simp add: find_str_def)
  ultimately show ?thesis
    using assms(3) unat_small [of "length sel_target - 1"] by (simp add: position_after_def size_of_def)
qed

text \<open>
  A page whose file has the marker is that file with the new text right after
  the marker's first occurrence, as a 200 whose content length is the body's length.
\<close>

theorem edit_page_inserts:
  assumes "set_laws get B" and "fo_is_regular_file F (ms_files w) p = Inr True"
    and "fo_read F (ms_files w) p = Some (a @ target @ b)"
    and "\<forall>j < length a. take (length target) (drop j (a @ target @ b)) \<noteq> target"
    and "length (a @ target @ b) < 2 ^ 64"
  shows "\<exists>res'. edit_page B F p target text res w = (Inr (HTTP_STATUS_OK, res'), w) \<and>
    rs_body res' = a @ target @ text @ b \<and> framed get res'"
proof -
  let ?body = "a @ target @ b"
  have "position_after ?body target = length (a @ target)"
    using position_after_found [OF find_at_append [OF assms(4)] assms(5)] by simp
  then have "insert_at ?body (position_after ?body target) text = Inr (a @ target @ text @ b)"
    by (simp add: insert_at_def)
  then have "edit_page B F p target text res w =
      (Inr (ok_length_type B HTTP_STATUS_OK ''text/html'' (a @ target @ text @ b) res), w)"
    using assms(2,3) by (simp add: edit_page_def read_page_Inr pure_result_def)
  then show ?thesis
    using framed_ok_length_type [OF assms(1)]
    by (intro exI [of _ "snd (ok_length_type B HTTP_STATUS_OK ''text/html'' (a @ target @ text @ b) res)"])
      (simp add: prod_eq_iff)
qed

lemma edit_page_inserts_witness:
  "\<exists>res'. edit_page list_beast flat_ops ''/v.html'' body_target ''x'' (bs_response list_beast)
      \<lparr>ms_images = [], ms_files = (\<lambda>p. None)(''/v.html'' := Some (Some (''<'' @ body_target @ ''y''))), ms_db = ()\<rparr> =
    (Inr (HTTP_STATUS_OK, res'),
      \<lparr>ms_images = [], ms_files = (\<lambda>p. None)(''/v.html'' := Some (Some (''<'' @ body_target @ ''y''))), ms_db = ()\<rparr>) \<and>
    rs_body res' = ''<'' @ body_target @ ''xy''"
  using edit_page_inserts [OF list_beast_laws, of flat_ops
      "\<lparr>ms_images = [], ms_files = (\<lambda>p. None)(''/v.html'' := Some (Some (''<'' @ body_target @ ''y''))), ms_db = ()\<rparr>"
      "''/v.html''" "''<''" body_target "''y''" "''x''" "bs_response list_beast"]
  by (simp add: flat_simps body_target_def) blast

text \<open>
  A page whose file lacks the marker still gets the text, at the position one
  less than the marker's length, because \<open>npos\<close> plus that length wraps around; a file shorter than
  that makes \<open>insert\<close> throw \<open>std::out_of_range\<close>.
\<close>

theorem edit_page_unmarked:
  assumes "fo_is_regular_file F (ms_files w) p = Inr True"
    and "fo_read F (ms_files w) p = Some body" and "find_at target body = None"
    and "target \<noteq> []" and "length target < 2 ^ 64"
  shows "edit_page B F p target text res w =
    (if length target \<le> length body + 1
     then (Inr (ok_length_type B HTTP_STATUS_OK ''text/html''
             (take (length target - 1) body @ text @ drop (length target - 1) body) res), w)
     else (Inl Out_of_range, w))"
  using assms position_after_missing [OF assms(3-5)]
  by (auto simp: edit_page_def read_page_Inr pure_result_def insert_at_def)

lemma edit_page_unmarked_witness:
  "edit_page list_beast flat_ops ''/v.html'' body_target ''x'' (bs_response list_beast)
      \<lparr>ms_images = [], ms_files = (\<lambda>p. None)(''/v.html'' := Some (Some ''abc'')), ms_db = ()\<rparr> =
    (Inl Out_of_range, \<lparr>ms_images = [], ms_files = (\<lambda>p. None)(''/v.html'' := Some (Some ''abc'')), ms_db = ()\<rparr>)"
proof -
  let ?w = "\<lparr>ms_images = [], ms_files = (\<lambda>p. None)(''/v.html'' := Some (Some ''abc'')), ms_db = ()\<rparr>"
  have "fo_is_regular_file flat_ops (ms_files ?w) ''/v.html'' = Inr True"
    "fo_read flat_ops (ms_files ?w) ''/v.html'' = Some ''abc''"
    by (simp_all add: flat_simps)
  moreover have "find_at body_target ''abc'' = None" "body_target \<noteq> []" "length body_target < 2 ^ 64"
    "\<not> length body_target \<le> length ''abc'' + 1"
    by (simp_all add: body_target_def)
  ultimately show ?thesis
    using edit_page_unmarked [of flat_ops ?w "''/v.html''" "''abc''" body_target list_beast "''x''" "bs_response list_beast"]
    by simp
qed

section \<open>The form\<close>

text \<open>The files of the images directory that are kept, and the table that is made of names.\<close>

fun image_names :: "'s file_ops \<Rightarrow> 's \<Rightarrow> string list \<Rightarrow> string list" where
  "image_names F s [] = []"
| "image_names F s (path # paths) =
     (if fo_is_regular_file F s path = Inr True \<and> fo_filename F path \<noteq> ''.DS_Store''
      then fo_filename F path # image_names F s paths else image_names F s paths)"

fun image_table :: "int \<Rightarrow> string list \<Rightarrow> (int, string) std_map" where
  "image_table n [] = []"
| "image_table n (x # xs) = (n, x) # image_table (n + 1) xs"

lemma smap_assign_last:
  "(\<forall>k \<in> fst ` set m. k < n) \<Longrightarrow> smap_assign (n :: int) x m = m @ [(n, x)]"
  by (induction m) force+

lemma image_table_append: "image_table n (xs @ ys) = image_table n xs @ image_table (n + int (length xs)) ys"
  by (induction xs arbitrary: n) (simp_all add: algebra_simps)

lemma image_table_keys: "fst ` set (image_table n xs) = {n..<n + int (length xs)}"
  by (induction xs arbitrary: n) auto

lemma length_image_table [simp]: "length (image_table n xs) = length xs"
  by (induction xs arbitrary: n) simp_all

lemma image_table_find: "i < length xs \<Longrightarrow> smap_find (image_table n xs) (n + int i) = Some (xs ! i)"
proof (induction xs arbitrary: n i)
  case (Cons x xs)
  then show ?case
    using Cons.IH [of "i - 1" "n + 1"] by (cases i) (auto simp: algebra_simps)
qed simp

lemma load_images_table:
  "load_images F s paths (int (length xs)) (image_table 0 xs) = Inr m \<Longrightarrow>
     m = image_table 0 (xs @ image_names F s paths)"
proof (induction paths arbitrary: xs)
  case (Cons path paths)
  have "smap_assign (int (length xs)) x (image_table 0 xs) = image_table 0 (xs @ [x])" for x
    by (subst smap_assign_last) (simp_all add: image_table_keys image_table_append)
  then show ?case
    using Cons.IH [of xs] Cons.IH [of "xs @ [fo_filename F path]"] Cons.prems
    by (auto simp: result_iff add.commute split: if_splits)
qed simp

text \<open>One turn of the loop per image; the loop ends because the table does not grow.\<close>

fun option_lines :: "int \<Rightarrow> string list \<Rightarrow> string" where
  "option_lines n [] = []"
| "option_lines n (x # xs) = option_line n x @ option_lines (n + 1) xs"

lemma insert_options_table:
  "i \<le> length xs \<Longrightarrow> pos = length a \<Longrightarrow>
   insert_options (image_table 0 xs) i pos (a @ b) =
     Some (Inr (a @ option_lines (int i) (drop i xs) @ b), image_table 0 xs)"
proof (induction "length xs - i" arbitrary: i pos a)
  case 0
  then show ?case by (subst insert_options.simps) simp
next
  case (Suc k)
  then have i: "i < length xs" by simp
  let ?line = "option_line (int i) (xs ! i)"
  have "insert_options (image_table 0 xs) i pos (a @ b) =
      insert_options (image_table 0 xs) (i + 1) (pos + length ?line) ((a @ ?line) @ b)"
    using i Suc.prems(2) image_table_find [of i xs 0]
    by (subst insert_options.simps) (simp add: smap_index_def insert_at_def Let_def)
  also have "\<dots> = Some (Inr ((a @ ?line) @ option_lines (int (i + 1)) (drop (i + 1) xs) @ b), image_table 0 xs)"
    using Suc.hyps(2) i Suc.prems(2) by (intro Suc.hyps(1)) auto
  finally show ?case
    using i by (simp add: Cons_nth_drop_Suc [symmetric] add.commute)
qed

text \<open>
  C28: with the table the constructor makes of the images directory, the form page
  is its file with one option line per image right after the marker, numbered from 0 in the order
  of the directory; the loop over the table ends and leaves the table as it is.
\<close>

theorem form_lists_images:
  assumes "load_images F s paths 0 [] = Inr (ms_images w)"
    and "fo_is_regular_file F (ms_files w) (mh_html_root h @ ''/form.html'') = Inr True"
    and "fo_read F (ms_files w) (mh_html_root h @ ''/form.html'') = Some (a @ form_target @ b)"
    and "find_at form_target (a @ form_target @ b) = Some (length a)"
    and "length (a @ form_target @ b) < 2 ^ 64"
  shows "\<exists>res'. handle_form_request B F h req res w = (Inr (HTTP_STATUS_OK, res'), w) \<and>
    rs_body res' = a @ form_target @ option_lines 0 (image_names F s paths) @ b"
proof -
  let ?names = "image_names F s paths" and ?ext = "file_extension (mh_html_root h @ ''/form.html'')"
  have images: "ms_images w = image_table 0 ?names"
    using load_images_table [of F s paths "[]"] assms(1) by simp
  have "position_after (a @ form_target @ b) form_target = length (a @ form_target)"
    using position_after_found [OF assms(4,5)] by simp
  with insert_options_table [of 0 ?names "length (a @ form_target)" "a @ form_target" b]
  have "insert_options (ms_images w) 0 (position_after (a @ form_target @ b) form_target) (a @ form_target @ b) =
      Some (Inr (a @ form_target @ option_lines 0 ?names @ b), ms_images w)"
    by (simp add: images)
  then have "handle_form_request B F h req res w =
      (Inr (ok_type_length B (getContentType ?ext) (a @ form_target @ option_lines 0 ?names @ b) res), w)"
    using assms(2,3) by (simp add: handle_form_request_def Let_def read_page_Inr pure_result_def)
  then show ?thesis
    by (intro exI [of _ "snd (ok_type_length B (getContentType ?ext)
        (a @ form_target @ option_lines 0 ?names @ b) res)"]) (simp add: prod_eq_iff)
qed

text \<open>A handler and a world with two images and the form's file.\<close>

definition demo_meme :: meme_handler where
  "demo_meme = \<lparr>mh_location = ''/meme'', mh_memes_created_root = ''/m'', mh_images_root = ''/i'',
     mh_html_root = ''/h'', mh_bad = False, mh_database = ''/m/meme.db''\<rparr>"

definition demo_files :: flat_fs where
  "demo_files = (\<lambda>p. None)(''a.png'' := Some (Some []), ''b.png'' := Some (Some []),
     ''/h/form.html'' := Some (Some form_target), ''/h/list.html'' := Some (Some body_target))"

definition demo_meme_world :: "(flat_fs, unit) meme_state" where
  "demo_meme_world = \<lparr>ms_images = [(0, ''a.png''), (1, ''b.png'')], ms_files = demo_files, ms_db = ()\<rparr>"

lemma form_lists_images_witness:
  "\<exists>res'. handle_form_request list_beast flat_ops demo_meme (bs_request list_beast) (bs_response list_beast)
      demo_meme_world = (Inr (HTTP_STATUS_OK, res'), demo_meme_world) \<and>
    rs_body res' = form_target @ option_line 0 ''a.png'' @ option_line 1 ''b.png''"
proof -
  let ?paths = "[''a.png'', ''none'', ''b.png'']" and ?p = "mh_html_root demo_meme @ ''/form.html''"
  have "load_images flat_ops demo_files ?paths 0 [] = Inr (ms_images demo_meme_world)"
    "fo_is_regular_file flat_ops (ms_files demo_meme_world) ?p = Inr True"
    "fo_read flat_ops (ms_files demo_meme_world) ?p = Some ([] @ form_target @ [])"
    by (simp_all add: demo_files_def demo_meme_world_def demo_meme_def flat_simps)
  moreover have "find_at form_target ([] @ form_target @ []) = Some (length ([] :: string))"
    "length ([] @ form_target @ []) < 2 ^ 64"
    by (simp_all add: form_target_def)
  moreover have "image_names flat_ops demo_files ?paths = [''a.png'', ''b.png'']"
    by (simp add: demo_files_def flat_simps)
  ultimately show ?thesis
    using form_lists_images [of flat_ops demo_files ?paths demo_meme_world demo_meme "[]" "[]"
        list_beast "bs_request list_beast" "bs_response list_beast"]
    by simp
qed

section \<open>View\<close>

lemma view_target_found:
  assumes "take 10 uri = ''/meme/view''" and "find_str uri ''?id='' 0 = Some k"
  shows "14 \<le> length uri"
proof -
  obtain s where s: "uri = ''/meme/view'' @ s"
    using assms(1) append_take_drop_id [of 10 uri] by metis
  have four: "length ''?id='' = 4" by simp
  from assms(2) have k: "k + 4 \<le> length uri" "take 4 (drop k uri) = ''?id=''"
    using find_at_SomeD [of "''?id=''" uri k, unfolded four] by (simp_all add: find_str_def)
  have "take 4 (drop k uri) ! 0 = CHR ''?''" using k(2) by simp
  then have "uri ! k = CHR ''?''" using k(1) by simp
  then have "10 \<le> k"
    by (cases "k < 10") (auto simp: s less_Suc_eq numeral_eq_Suc nth_append)
  with k(1) show ?thesis by simp
qed

text \<open>
  The id of a view request is read without ever running off the target: every target the
  handler dispatches here that contains \<open>?id=\<close> has the 14 characters that are skipped, and for a
  target \<open>/meme/view?id=n\<close> what is converted is \<open>n\<close>.
\<close>

theorem view_id:
  assumes "take (length ''/meme/view'') (rq_target req) = ''/meme/view''"
  shows "(\<exists>r. requested_id B req = Inr r) \<and>
    (\<forall>n. rq_target req = ''/meme/view?id='' @ n \<longrightarrow> requested_id B req = Inr (bs_cast_int B n))"
proof (rule conjI)
  have "take 10 (rq_target req) = ''/meme/view''"
    using assms by (simp add: numeral_eq_Suc)
  then show "\<exists>r. requested_id B req = Inr r"
    using view_target_found [of "rq_target req"]
    by (cases "find_str (rq_target req) ''?id='' 0") (auto simp: requested_id_def substr_from_def)
  show "\<forall>n. rq_target req = ''/meme/view?id='' @ n \<longrightarrow> requested_id B req = Inr (bs_cast_int B n)"
    by (simp add: requested_id_def find_str_def substr_from_def)
qed

lemma view_id_witness:
  "requested_id list_beast ((bs_request list_beast)\<lparr>rq_target := ''/meme/view?id=42''\<rparr>) = Inr (Some 42)"
proof -
  let ?req = "(bs_request list_beast)\<lparr>rq_target := ''/meme/view?id=42''\<rparr>"
  have "requested_id list_beast ?req = Inr (bs_cast_int list_beast ''42'')"
    using view_id [of ?req list_beast] by simp
  then show ?thesis by (simp add: list_beast_def stoi_eval)
qed

text \<open>
  When the database cannot be opened, the number of memes is the status code
  of the error, 500: a view of an id above 500 is refused as a bad request, a view of another id is
  an internal server error.
\<close>

theorem count_error_as_count:
  assumes "\<And>db. fst (sq_open D (c_str (mh_database h)) db) \<noteq> SQLITE_OK"
    and "requested_id B req = Inr (Some meme_id)"
    and "find_str (rq_target req) ''?id='' 0 \<noteq> None"
  shows "\<exists>res' w'. meme_handle_retrieve B F D h req res w =
    (Inr (if 500 < meme_id then HTTP_STATUS_BAD_REQUEST else HTTP_STATUS_INTERNAL_SERVER_ERROR, res'), w')"
proof -
  have opened: "fst (open_db D (mh_database h) w) \<noteq> SQLITE_OK" for w
    using assms(1) [of "ms_db w"] by (auto simp: open_db_def split: prod.split)
  have count: "get_meme_count D h res w = (handle_internal_server_error res, snd (open_db D (mh_database h) w))"
    for res and w
    using opened [of w] by (auto simp: get_meme_count_def Let_def split: prod.split)
  have view: "view_meme B F D h i res w = (Inr (handle_internal_server_error res), snd (open_db D (mh_database h) w))"
    for i res and w
    using opened [of w] by (auto simp: view_meme_def Let_def split: prod.split)
  show ?thesis
    using assms(2,3)
    by (auto simp: meme_handle_retrieve_def count view Let_def pure_result_def
        handle_internal_server_error_def handle_bad_request_def status_defs)
qed

lemma count_error_as_count_witness:
  "\<exists>res' w'. meme_handle_retrieve list_beast flat_ops closed_sqlite demo_meme
      ((bs_request list_beast)\<lparr>rq_target := ''/meme/view?id=501''\<rparr>) (bs_response list_beast) demo_meme_world =
    (Inr (HTTP_STATUS_BAD_REQUEST, res'), w')"
proof -
  let ?req = "(bs_request list_beast)\<lparr>rq_target := ''/meme/view?id=501''\<rparr>"
  have "fst (sq_open closed_sqlite (c_str (mh_database demo_meme)) db) \<noteq> SQLITE_OK" for db
    by (simp add: closed_sqlite_def sqlite_defs)
  moreover have "requested_id list_beast ?req = Inr (Some 501)" "find_str (rq_target ?req) ''?id='' 0 \<noteq> None"
    by (simp_all add: requested_id_def find_str_def substr_from_def list_beast_def stoi_eval)
  ultimately show ?thesis
    using count_error_as_count [of closed_sqlite demo_meme list_beast ?req 501 flat_ops
        "bs_response list_beast" demo_meme_world]
    by simp
qed

section \<open>List\<close>

text \<open>
  \<open>yields D q db ids q' db'\<close>: stepping the statement \<open>q\<close> gives rows whose first columns are \<open>ids\<close>,
  and then no more row.
\<close>

inductive yields :: "('d, 'q) sqlite \<Rightarrow> 'q \<Rightarrow> 'd \<Rightarrow> int list \<Rightarrow> 'q \<Rightarrow> 'd \<Rightarrow> bool" for D where
  stop: "sq_step D q db = (rc, q', db') \<Longrightarrow> rc \<noteq> SQLITE_ROW \<Longrightarrow> yields D q db [] q' db'"
| row: "sq_step D q db = (SQLITE_ROW, q1, db1) \<Longrightarrow> yields D q1 db1 ids q' db' \<Longrightarrow>
    yields D q db (sq_column_int D q1 0 # ids) q' db'"

lemma collect_ids_yields:
  "yields D q db ids q' db' \<Longrightarrow> collect_ids D q db acc = Some (acc @ ids, q', db')"
proof (induction arbitrary: acc rule: yields.induct)
  case (stop q db rc q' db')
  then show ?case by (subst collect_ids.simps) simp
next
  case (row q db q1 db1 ids q' db')
  then show ?case by (subst collect_ids.simps) simp
qed

text \<open>
  When the query's statement yields the rows \<open>ids\<close>, the loop over it ends, and the
  list page is its file with one link per row, in the order of the rows, right after the marker.
\<close>

theorem list_shows_ids:
  assumes "sq_open D (c_str (mh_database h)) (ms_db w) = (SQLITE_OK, db1)"
    and "sq_prepare D (c_str (mh_database h)) (c_str list_query) db1 = (SQLITE_OK, q)"
    and "yields D q db1 ids q' db2" and "sq_finalize D q' = SQLITE_OK"
    and "fo_is_regular_file F (ms_files w) (mh_html_root h @ ''/list.html'') = Inr True"
    and "fo_read F (ms_files w) (mh_html_root h @ ''/list.html'') = Some (a @ body_target @ b)"
    and "find_at body_target (a @ body_target @ b) = Some (length a)"
    and "length (a @ body_target @ b) < 2 ^ 64"
  shows "\<exists>res' w'. meme_handle_list B F D h req res w = (Inr (HTTP_STATUS_OK, res'), w') \<and>
    rs_body res' = a @ body_target @ list_html ids @ b"
proof -
  let ?w = "w\<lparr>ms_db := db2\<rparr>" and ?body = "a @ body_target @ list_html ids @ b"
  have run: "meme_handle_list B F D h req res w =
      edit_page B F (mh_html_root h @ ''/list.html'') body_target (list_html ids) res ?w"
    using assms(1,2,4) collect_ids_yields [OF assms(3), of "[]"]
    by (simp add: meme_handle_list_def open_db_def)
  have "position_after (a @ body_target @ b) body_target = length (a @ body_target)"
    using position_after_found [OF assms(7,8)] by simp
  then have "meme_handle_list B F D h req res w =
      (Inr (ok_length_type B HTTP_STATUS_OK ''text/html'' ?body res), ?w)"
    using assms(5,6) by (simp add: run edit_page_def read_page_Inr pure_result_def insert_at_def)
  then show ?thesis
    by (intro exI [of _ "snd (ok_length_type B HTTP_STATUS_OK ''text/html'' ?body res)"] exI [of _ ?w])
      (simp add: prod_eq_iff)
qed

text \<open>A database whose statement is the list of rows still to come.\<close>

definition rows_sqlite :: "(unit, int list) sqlite" where
  "rows_sqlite = \<lparr>sq_open = \<lambda>n d. (0, d), sq_exec = \<lambda>n q d. (0, d), sq_prepare = \<lambda>n q d. (0, [0, 1, 2]),
     sq_step = \<lambda>q d. (if length q \<le> 1 then (101, [], d) else (100, tl q, d)),
     sq_column_int = \<lambda>q k. hd q, sq_column_text = \<lambda>q k. None, sq_finalize = \<lambda>q. 0\<rparr>"

lemma list_shows_ids_witness:
  "\<exists>res' w'. meme_handle_list list_beast flat_ops rows_sqlite demo_meme (bs_request list_beast)
      (bs_response list_beast) demo_meme_world = (Inr (HTTP_STATUS_OK, res'), w') \<and>
    rs_body res' = body_target @ list_html [1, 2]"
proof -
  let ?p = "mh_html_root demo_meme @ ''/list.html''"
  have "yields rows_sqlite [2] () [] [] ()"
    by (rule yields.stop [of _ _ _ 101]) (simp_all add: rows_sqlite_def sqlite_defs)
  then have "yields rows_sqlite [1, 2] () [2] [] ()"
    using yields.row [of rows_sqlite "[1, 2]" "()" "[2]" "()" "[]" "[]" "()"]
    by (simp add: rows_sqlite_def sqlite_defs)
  then have "yields rows_sqlite [0, 1, 2] () [1, 2] [] ()"
    using yields.row [of rows_sqlite "[0, 1, 2]" "()" "[1, 2]" "()" "[2]" "[]" "()"]
    by (simp add: rows_sqlite_def sqlite_defs)
  moreover have "sq_open rows_sqlite (c_str (mh_database demo_meme)) (ms_db demo_meme_world) = (SQLITE_OK, ())"
    "sq_prepare rows_sqlite (c_str (mh_database demo_meme)) (c_str list_query) () = (SQLITE_OK, [0, 1, 2])"
    "sq_finalize rows_sqlite [] = SQLITE_OK"
    by (simp_all add: rows_sqlite_def sqlite_defs)
  moreover have "fo_is_regular_file flat_ops (ms_files demo_meme_world) ?p = Inr True"
    "fo_read flat_ops (ms_files demo_meme_world) ?p = Some ([] @ body_target @ [])"
    by (simp_all add: demo_files_def demo_meme_world_def demo_meme_def flat_simps)
  moreover have "find_at body_target ([] @ body_target @ []) = Some (length ([] :: string))"
    "length ([] @ body_target @ []) < 2 ^ 64"
    by (simp_all add: body_target_def)
  ultimately show ?thesis
    using list_shows_ids [of rows_sqlite demo_meme demo_meme_world "()" "[0, 1, 2]" "[1, 2]" "[]" "()"
        flat_ops "[]" "[]" list_beast "bs_request list_beast" "bs_response list_beast"]
    by simp
qed

end
