(* ===== verification/Handler_Faults.thy ===== *)
theory Handler_Faults
  imports Handler_Factory Meme_Props
begin

text \<open>
  Which exceptions can leave a handler, and that a handler returns: the only loops of the handlers
  that could run forever are the form page's, over the table of images, and the list page's, over
  the rows of a query; the first ends with the table the constructor makes, the second when the
  query has finitely many rows.
\<close>

section \<open>Faults\<close>

text \<open>
  The exceptions that can leave a handler; \<open>No_return\<close> stands for a loop that does not end.
  \<open>Null_deref\<close>, \<open>Bad_index\<close> and \<open>Invalid_argument\<close> are not among them.
\<close>

definition returning_faults :: "fault set" where
  "returning_faults = {Out_of_range, Length_error, Int_overflow, Filesystem_error, Logic_error, Process_exit}"

definition handler_faults :: "fault set" where
  "handler_faults = insert No_return returning_faults"

lemma returning_faults_mem [simp]:
  "Out_of_range \<in> returning_faults" "Length_error \<in> returning_faults" "Int_overflow \<in> returning_faults"
  "Filesystem_error \<in> returning_faults" "Logic_error \<in> returning_faults" "Process_exit \<in> returning_faults"
  "No_return \<notin> returning_faults" "System_error \<notin> returning_faults"
  "Null_deref \<notin> returning_faults" "Bad_index \<notin> returning_faults" "Invalid_argument \<notin> returning_faults"
  by (simp_all add: returning_faults_def)

lemma handler_faults_mem [simp]:
  "Out_of_range \<in> handler_faults" "Null_deref \<notin> handler_faults" "Bad_index \<notin> handler_faults"
  "Invalid_argument \<notin> handler_faults" "System_error \<notin> handler_faults" "No_return \<in> handler_faults" "e \<in> returning_faults \<Longrightarrow> e \<in> handler_faults"
  by (simp_all add: handler_faults_def)

lemma faults_in_mono: "faults_in A r \<Longrightarrow> A \<subseteq> B \<Longrightarrow> faults_in B r"
  by (cases r) auto

text \<open>What Boost documents: its file system functions throw nothing but \<open>filesystem_error\<close>.\<close>

definition fs_faults :: "'s file_ops \<Rightarrow> bool" where
  "fs_faults F \<longleftrightarrow>
     (\<forall>s p. faults_in {Filesystem_error} (fo_exists F s p) \<and>
        faults_in {Filesystem_error} (fo_is_regular_file F s p) \<and>
        faults_in {Filesystem_error} (fst (fo_create_directories F s p)) \<and>
        faults_in {Filesystem_error} (fo_directory F s p) \<and>
        faults_in {Filesystem_error} (fo_recursive F s p))"

lemma faults_in_weaken: "faults_in {e} r \<Longrightarrow> e \<in> A \<Longrightarrow> faults_in A r"
  by (cases r) auto

lemma fs_faultsD:
  assumes "fs_faults F" and "Filesystem_error \<in> A"
  shows "faults_in A (fo_exists F s p)" "faults_in A (fo_is_regular_file F s p)"
    "faults_in A (fst (fo_create_directories F s p))" "faults_in A (fo_directory F s p)"
    "faults_in A (fo_recursive F s p)"
  using assms unfolding fs_faults_def by (blast intro: faults_in_weaken)+

lemma flat_fs_faults: "fs_faults flat_ops"
  by (simp add: fs_faults_def flat_simps)

lemma faults_substr [simp]:
  "faults_in returning_faults (substr s p n)" "faults_in returning_faults (substr_from s p)"
  "faults_in returning_faults (insert_at s p t)"
  by (simp_all add: substr_def substr_from_def insert_at_def)

lemma faults_ensure_directory:
  "fs_faults F \<Longrightarrow> faults_in returning_faults (fst (ensure_directory F p s))"
  using fs_faultsD(1,3) [of F returning_faults s p]
  by (auto simp: ensure_directory_def split: sum.split bool.split)

lemma faults_on_files: "faults_in A (fst (f (aw_files w))) \<Longrightarrow> faults_in A (fst (on_files f w))"
  by (auto simp add: on_files_def split: prod.split)

text \<open>The block of a location, as the parser makes it.\<close>

definition block_ok :: "NginxConfig option \<Rightarrow> bool" where
  "block_ok conf \<longleftrightarrow> (\<exists>c. conf = Some c \<and> config_ok c)"

lemma faults_root_of: "block_ok conf \<Longrightarrow> faults_in A (root_of conf)"
  using root_of_ok by (fastforce simp: block_ok_def)

lemma faults_meme_roots: "block_ok conf \<Longrightarrow> faults_in A (meme_roots conf)"
proof -
  assume "block_ok conf"
  then obtain c where c: "conf = Some c" "statements_ok (statements c)"
    by (cases "the conf") (auto simp: block_ok_def)
  have "faults_in A (statement_value key (statements c ! i))" if "i < length (statements c)" for key i
    using c(2) statement_value_ok [of "statements c ! i" key] that by (fastforce simp: statements_ok_all)
  then have "\<not> length (statements c) < 3 \<Longrightarrow> faults_in A (statement_value key (statements c ! i))"
    if "i < 3" for key i using that by simp
  from this [of 0] this [of 1] this [of 2] show ?thesis
    by (auto simp: meme_roots_def c(1) split: option.split)
qed

lemma faults_static:
  "block_ok conf \<Longrightarrow> faults_in A (StaticRequestHandler location conf)"
  by (auto simp: StaticRequestHandler_def faults_root_of)

lemma faults_static_handle:
  "fs_faults F \<Longrightarrow> faults_in returning_faults (fst (static_handle_request B F h s req res))"
  by (auto simp: static_handle_request_def static_serve_def Let_def fs_faultsD split: option.split)

text \<open>The API handler.\<close>

lemma faults_get_json [simp]:
  "faults_in returning_faults (get_json_name_no_id h uri)" "faults_in returning_faults (get_json_id uri)"
  "faults_in returning_faults (get_json_name h uri)" "faults_in returning_faults (file_path_of h uri)"
  by (auto simp: get_json_name_no_id_def get_json_id_def get_json_name_def file_path_of_def is_num_def
      split: sum.splits)

lemma faults_load_entry:
  "fs_faults F \<Longrightarrow> faults_in returning_faults (fst (load_entry F root entry w))"
  by (auto simp: load_entry_def Let_def fs_faultsD stored_name_def is_num_def split: sum.splits)

lemma faults_load_entries:
  "fs_faults F \<Longrightarrow> faults_in returning_faults (fst (load_entries F root entries w))"
  by (induction F root entries w rule: load_entries.induct) (auto simp: faults_load_entry)

lemma faults_api_constructor:
  "fs_faults F \<Longrightarrow> block_ok conf \<Longrightarrow> faults_in returning_faults (fst (ApiRequestHandler F location conf w))"
  by (auto simp: ApiRequestHandler_def faults_root_of faults_load_entries fs_faultsD
      intro!: faults_on_files faults_ensure_directory split: option.split)

lemma faults_api:
  "fs_faults F \<Longrightarrow> faults_in returning_faults (fst (handle_create B F h req res w))"
  "faults_in returning_faults (fst (api_handle_retrieve B F h req res w))"
  "fs_faults F \<Longrightarrow> faults_in returning_faults (fst (handle_update B F h req res w))"
  "faults_in returning_faults (fst (handle_delete B F h req res w))"
  "faults_in returning_faults (fst (api_handle_list B iter h req res w))"
  by (auto simp: handle_create_def api_handle_retrieve_def handle_update_def handle_delete_def
      api_handle_list_def Let_def next_id_def drop_last_two_def split: option.split prod.split
      intro!: faults_on_files faults_ensure_directory)

lemma faults_api_request:
  "fs_faults F \<Longrightarrow> faults_in returning_faults (fst (api_handle_request B F iter h w req res))"
  by (auto simp: api_handle_request_def Let_def faults_api split: verb.split)

text \<open>The meme handler.\<close>

lemma faults_load_images:
  "fs_faults F \<Longrightarrow> faults_in returning_faults (load_images F s paths n m)"
  by (induction F s paths n m rule: load_images.induct) (auto simp: fs_faultsD)

lemma faults_meme_constructor:
  "fs_faults F \<Longrightarrow> block_ok conf \<Longrightarrow> faults_in returning_faults (fst (MemeRequestHandler F D location conf w))"
  using faults_ensure_directory [of F]
  by (auto simp: MemeRequestHandler_def init_meme_database_def Let_def faults_meme_roots faults_load_images
      fs_faultsD split: option.split prod.split) (metis fst_conv)+

lemma faults_edit_page:
  "fs_faults F \<Longrightarrow> faults_in returning_faults (fst (edit_page B F p t i res w))"
  by (auto simp: edit_page_def read_page_def fs_faultsD split: option.split)

lemma insert_at_fault: "insert_at s p t = Inl e \<Longrightarrow> e = Out_of_range"
  by (simp add: insert_at_def split: if_splits)

lemma faults_insert_options:
  assumes "insert_options m i pos body = Some x"
  shows "faults_in returning_faults (fst x)"
proof (rule insert_options.raw_induct [where P = "\<lambda>m i pos body x. faults_in returning_faults (fst x)", OF _ assms])
  fix f m i pos body and y :: "string result \<times> (int, string) std_map"
  assume "\<And>m i pos body y. f m i pos body = Some y \<Longrightarrow> faults_in returning_faults (fst y)"
    and "(if i < length m
          then let (name, m') = smap_index [] (int i) m; insert_str = option_line (int i) name
               in case insert_at body pos insert_str of Inl e \<Rightarrow> Some (Inl e, m')
                  | Inr body' \<Rightarrow> f m' (i + 1) (pos + length insert_str) body'
          else Some (Inr body, m)) = Some y"
  then show "faults_in returning_faults (fst y)"
    by (auto simp: Let_def split: if_splits prod.splits sum.splits dest: insert_at_fault)
qed

section \<open>Loops that end\<close>

text \<open>A query has finitely many rows: stepping a statement reaches its end.\<close>

definition rows_end :: "('d, 'q) sqlite \<Rightarrow> bool" where
  "rows_end D \<longleftrightarrow> (\<forall>q db. \<exists>ids q' db'. yields D q db ids q' db')"

definition numbered :: "(int, string) std_map \<Rightarrow> bool" where
  "numbered m \<longleftrightarrow> (\<exists>xs. m = image_table 0 xs)"

lemma insert_options_ends:
  assumes "numbered m"
  shows "insert_options m 0 pos body \<noteq> None"
proof -
  obtain xs where m: "m = image_table 0 xs" using assms by (auto simp: numbered_def)
  show ?thesis
  proof (cases "pos \<le> length body")
    case True
    then show ?thesis
      using insert_options_table [of 0 xs pos "take pos body" "drop pos body"] by (simp add: m)
  next
    case False
    then show ?thesis
      by (subst insert_options.simps) (simp add: m smap_index_def insert_at_def Let_def split: option.split)
  qed
qed

lemma collect_ids_ends: "rows_end D \<Longrightarrow> collect_ids D q db ids \<noteq> None"
  using collect_ids_yields unfolding rows_end_def by (metis option.distinct(1))

lemma constructor_numbered:
  assumes "MemeRequestHandler F D location conf w = (Inr h, w')"
  shows "numbered (ms_images w')"
proof -
  have "numbered []" by (simp add: numbered_def exI [of _ "[]"])
  moreover have "numbered m" if "load_images F s paths 0 [] = Inr m" for s paths m
    using load_images_table [of F s paths "[]" m] that by (auto simp: numbered_def)
  ultimately show ?thesis
    using assms by (auto simp: MemeRequestHandler_def Let_def ebind_Inr_iff pure_result_def case_prod_beta
        split: option.splits)
qed

text \<open>The faults of the meme handler, with \<open>No_return\<close> only where a loop may not end.\<close>

definition meme_faults :: "('d, 'q) sqlite \<Rightarrow> (int, string) std_map \<Rightarrow> fault set" where
  "meme_faults D images = (if numbered images \<and> rows_end D then returning_faults else handler_faults)"

lemma meme_faults_sup: "returning_faults \<subseteq> meme_faults D images"
  by (auto simp: meme_faults_def)

lemma faults_form:
  "fs_faults F \<Longrightarrow> faults_in (meme_faults D (ms_images w)) (fst (handle_form_request B F h req res w))"
proof -
  assume fs: "fs_faults F"
  have general: "faults_in A (fst (handle_form_request B F h req res w))"
    if A: "returning_faults \<subseteq> A" "\<And>pos body. insert_options (ms_images w) 0 pos body = None \<Longrightarrow> No_return \<in> A" for A
    using A fs by (auto simp: handle_form_request_def Let_def read_page_def fs_faultsD subset_eq
        split: option.split prod.split dest!: faults_insert_options elim!: faults_in_mono)
  show ?thesis
    by (rule general [OF meme_faults_sup]) (use insert_options_ends in \<open>simp add: meme_faults_def del: not_None_eq; blast\<close>)
qed

lemma faults_list:
  assumes "fs_faults F"
  shows "faults_in (meme_faults D images) (fst (meme_handle_list B F D h req res w))"
proof -
  have general: "faults_in A (fst (meme_handle_list B F D h req res w))"
    if A: "returning_faults \<subseteq> A" "\<And>q db. collect_ids D q db [] = None \<Longrightarrow> No_return \<in> A" for A
    using A(2) faults_in_mono [OF faults_edit_page [OF assms] A(1)]
    by (auto simp: meme_handle_list_def Let_def split: option.split prod.split)
  show ?thesis
    by (rule general [OF meme_faults_sup]) (metis collect_ids_ends meme_faults_def handler_faults_mem(6))
qed

lemma faults_meme:
  "fs_faults F \<Longrightarrow> faults_in returning_faults (fst (meme_handle_create B F D h req res w))"
  "fs_faults F \<Longrightarrow> faults_in returning_faults (fst (view_meme B F D h i res w))"
  by (auto simp: meme_handle_create_def view_meme_def Let_def faults_edit_page
      split: option.split prod.split sum.split)

lemma faults_meme_retrieve:
  "fs_faults F \<Longrightarrow> faults_in returning_faults (fst (meme_handle_retrieve B F D h req res w))"
  by (auto simp: meme_handle_retrieve_def requested_id_def Let_def faults_meme split: option.split prod.split)

lemma faults_meme_request:
  "fs_faults F \<Longrightarrow> faults_in (meme_faults D (ms_images w)) (fst (meme_handle_request B F D h w req res))"
  by (auto simp: meme_handle_request_def Let_def faults_form faults_list
      faults_in_mono [OF faults_meme(1) meme_faults_sup] faults_in_mono [OF faults_meme_retrieve meme_faults_sup])

section \<open>All handlers\<close>

lemma faults_in_first:
  "faults_in A (fst (f x)) \<Longrightarrow> faults_in A (case f x of (r, m) \<Rightarrow> rbind r (\<lambda>y. Inr (y, g m)))"
  by (cases "f x"; cases "fst (f x)") auto

lemma faults_create:
  assumes "fs_faults (en_files E)" and "block_ok conf"
  shows "faults_in returning_faults (fst (create E factory location conf w))"
  using assms
  by (cases factory) (auto simp: create_defs on_api_fst on_meme_fst faults_static faults_api_constructor
      faults_meme_constructor intro!: faults_in_first)

lemma create_numbered:
  "create E factory location conf w = (Inr (Meme_handler h images), w') \<Longrightarrow> numbered images"
  by (cases factory) (auto simp: create_defs on_meme_def result_iff split: prod.splits dest: constructor_numbered)

text \<open>\<open>No_return\<close> is among the faults of an answer only if a query can have endless rows.\<close>

definition serve_faults :: "('f, 's, 'd, 'q) env \<Rightarrow> fault set" where
  "serve_faults E = (if rows_end (en_sqlite E) then returning_faults else handler_faults)"

lemma serve_faults_sup: "returning_faults \<subseteq> serve_faults E"
  by (auto simp: serve_faults_def)

lemma serve_faults_sub: "serve_faults E \<subseteq> handler_faults"
  by (auto simp: serve_faults_def)

lemma serve_faults_range [simp]: "Out_of_range \<in> serve_faults E"
  by (simp add: serve_faults_def)

lemma faults_handle_request:
  assumes "fs_faults (en_files E)" and "\<And>h images. handler = Meme_handler h images \<Longrightarrow> numbered images"
  shows "faults_in (serve_faults E) (fst (handle_request E handler w req res))"
proof (cases handler)
  case (Meme_handler h images)
  then have "serve_faults E = meme_faults (en_sqlite E) images"
    using assms(2) by (simp add: serve_faults_def meme_faults_def)
  then show ?thesis
    using Meme_handler faults_meme_request [OF assms(1), of "en_sqlite E" "\<lparr>ms_images = images, ms_files = wo_files w, ms_db = wo_db w\<rparr>"]
    by (auto simp: handle_request_def Let_def on_meme_fst intro!: faults_in_first)
qed (use assms(1) echo.handle_no_fault error_handler.handle_no_fault health.handle_no_fault
    faults_in_mono [OF faults_static_handle serve_faults_sup] faults_in_mono [OF faults_api_request serve_faults_sup]
    in \<open>auto simp: handle_request_def Let_def on_api_fst\<close>)

lemma faults_serve:
  assumes "fs_faults (en_files E)" and "block_ok conf"
  shows "faults_in (serve_faults E) (fst (serve E factory location conf w req res))"
  unfolding serve_def
proof (rule faults_in_ebind)
  fix handler w'
  assume "create E factory location conf w = (Inr handler, w')"
  then show "faults_in (serve_faults E) (fst (handle_request E handler w' req res))"
    using create_numbered by (intro faults_handle_request [OF assms(1)]) blast
qed (rule faults_in_mono [OF faults_create [OF assms] serve_faults_sup])

end
