(* ===== verification/Session_Props.thy ===== *)
theory Session_Props
  imports Session Handler_Faults
begin

text \<open>
  What a session guarantees: which bytes a request is made of, which handler answers it, and which
  faults can leave it.
\<close>

section \<open>The read buffer\<close>

lemma answer_data [simp]: "answer E msg s w = (Inr (res, s'), w') \<Longrightarrow> se_data s' = se_data s"
  by (auto simp: answer_def Let_def result_iff split: if_splits option.splits prod.splits)

lemma HandleRead_data:
  "HandleRead E (Some bytes) s w = (Inr s', w') \<Longrightarrow> se_data s' = zeroed"
  by (auto simp: HandleRead_def Let_def result_iff)

lemma session_reachable_data:
  "session_reachable E n s \<Longrightarrow> length (se_data s) = max_length \<and> (0 < n \<longrightarrow> se_data s = zeroed)"
proof (induction rule: session_reachable.induct)
  case (start junk peer m routes s)
  then show ?case by (auto simp: RealSession_def Start_def split: option.splits)
next
  case (step n s ev w s' w')
  from step.hyps(2) show ?case
  proof (cases rule: session_step.cases)
    case (read bytes)
    then have "se_data s' = zeroed" using HandleRead_data by blast
    then show ?thesis by (simp add: zeroed_def)
  qed (use step.IH in \<open>auto simp: HandleRead_def HandleWrite_def\<close>)
qed

lemma received_zeroed:
  assumes "length bytes < max_length" and "NUL \<notin> set bytes"
  shows "array_string (received bytes zeroed) = Inr bytes"
proof -
  have "drop (length bytes) zeroed = NUL # replicate (max_length - length bytes - 1) NUL"
    using assms(1) by (simp add: zeroed_def flip: replicate_Suc)
  then show ?thesis
    using assms(2) by (simp add: received_def array_string_def)
qed

text \<open>
  C11: after its first answer, a session that reads fewer than 8192 bytes, without a
  \<open>NUL\<close> among them, takes exactly these bytes as the message: from what was in the buffer before
  nothing remains.
\<close>

theorem session_no_leak:
  assumes "session_reachable E n s" and "0 < n"
    and "length bytes < max_length" and "NUL \<notin> set bytes"
  shows "HandleRead E (Some bytes) s w =
    ebind (answer E bytes (s\<lparr>se_data := received bytes zeroed\<rparr>) w) (\<lambda>(res, s) w.
      (Inr (s\<lparr>se_data := zeroed, se_phase := Writing (getResponse (en_beast E) res)\<rparr>), w))"
  using session_reachable_data [OF assms(1)] assms(2) received_zeroed [OF assms(3,4)]
  by (simp add: HandleRead_def Let_def pure_result_def)

text \<open>
  C39: a read that fills the buffer with 8192 bytes and no \<open>NUL\<close> leaves no terminator
  in it: making a string of it reads beyond the array.
\<close>

theorem session_full_read:
  assumes "session_reachable E n s" and "length bytes = max_length" and "NUL \<notin> set bytes"
  shows "HandleRead E (Some bytes) s w = (Inl Bad_index, w)"
  using session_reachable_data [OF assms(1)] assms(2,3)
  by (simp add: HandleRead_def Let_def pure_result_def received_def array_string_def)

text \<open>
  What the buffer held after the bytes of a read, up to a \<open>NUL\<close>, becomes the end of the message.
  The buffer of a new session is not initialised, so its first request can have such an end.
\<close>

theorem session_first_read:
  assumes "NUL \<notin> set bytes" and "drop (length bytes) (se_data s) = stale @ NUL # rest" and "NUL \<notin> set stale"
  shows "HandleRead E (Some bytes) s w =
    ebind (answer E (bytes @ stale) (s\<lparr>se_data := received bytes (se_data s)\<rparr>) w) (\<lambda>(res, s) w.
      (Inr (s\<lparr>se_data := zeroed, se_phase := Writing (getResponse (en_beast E) res)\<rparr>), w))"
proof -
  have "c_str (bytes @ stale @ NUL # rest) = bytes @ stale"
    using c_str_append_NUL [of "bytes @ stale" rest] assms(1,3) by simp
  then show ?thesis
    using assms(2)
    by (simp add: HandleRead_def Let_def pure_result_def received_def array_string_def)
qed

section \<open>Routing\<close>

text \<open>
  Complete tables: the routes are those the server makes of the handler map, every handler name is
  known, and the location \<open>/\<close> exists.
\<close>

definition tables_ok :: "handler_map \<Rightarrow> routes \<Rightarrow> bool" where
  "tables_ok m routes \<longleftrightarrow>
     smap_ok routes \<and>
     (\<forall>l. smap_find routes l = map_option (\<lambda>(t, c). createHandlerFactory t) (smap_find m l)) \<and>
     (\<forall>l t c. smap_find m l = Some (t, c) \<longrightarrow> createHandlerFactory t \<noteq> None) \<and>
     smap_find m [SLASH] \<noteq> None"

lemma Server_tables_ok:
  assumes "smap_ok m" and "\<And>l t c. smap_find m l = Some (t, c) \<Longrightarrow> createHandlerFactory t \<noteq> None"
    and "smap_find m [SLASH] \<noteq> None"
  shows "tables_ok m (sv_routes (Server port m))"
  using assms by (auto simp: tables_ok_def Server_routes_find Server_routes_ok)

lemma smap_find_keys: "l \<in> fst ` set m \<longleftrightarrow> smap_find m l \<noteq> None"
  by (simp add: smap_find_map_of map_of_eq_None_iff)

text \<open>The location for a target: the longest that covers it, else \<open>/\<close>.\<close>

definition route_of :: "routes \<Rightarrow> string \<Rightarrow> string \<Rightarrow> bool" where
  "route_of routes uri location \<longleftrightarrow>
     location \<in> fst ` set routes \<and>
     (if \<exists>l \<in> fst ` set routes. l \<noteq> [] \<and> covers l uri
      then covers location uri \<and> (\<forall>l \<in> fst ` set routes. covers l uri \<longrightarrow> length l \<le> length location)
      else location = [SLASH])"

lemma match_route_of:
  assumes "tables_ok m routes"
  shows "\<exists>r. match routes uri = Inr r \<and> route_of routes uri (if r = [] then [SLASH] else r)"
proof -
  obtain r where r: "match routes uri = Inr r"
    "r = [] \<or> r \<in> fst ` set routes \<and> covers r uri"
    "\<forall>l \<in> fst ` set routes. covers l uri \<longrightarrow> length l \<le> length r"
    using match_loop_spec [of uri routes "[]"] by (auto simp: match_def)
  have "[SLASH] \<in> fst ` set routes"
    using assms by (auto simp: smap_find_keys tables_ok_def)
  with r show ?thesis
    by (cases "r = []") (force simp: route_of_def)+
qed

lemma route_of_tables:
  assumes "tables_ok m routes" and "route_of routes uri location"
  shows "\<exists>t conf factory. smap_find m location = Some (t, conf) \<and>
    createHandlerFactory t = Some factory \<and> smap_find routes location = Some (Some factory)"
proof -
  from assms(2) have "smap_find routes location \<noteq> None"
    by (simp add: route_of_def smap_find_keys)
  with assms(1) show ?thesis
    by (cases "smap_find m location") (fastforce simp: tables_ok_def)+
qed

lemma answer_served:
  assumes "tables_ok (se_handler_map s) (se_routes s)"
    and "getFields (en_beast E) msg (bs_request (en_beast E)) = Inr req"
    and "bs_parser_put (en_beast E) msg \<in> {No_error, Bad_version}"
  obtains location t conf factory where "route_of (se_routes s) (rq_target req) location"
    and "smap_find (se_handler_map s) location = Some (t, conf)" and "createHandlerFactory t = Some factory"
    and "answer E msg s w =
      ebind (serve E factory location conf w req (bs_response (en_beast E))) (\<lambda>x w. (Inr (snd x, s), w))"
proof -
  obtain r where r: "match (se_routes s) (rq_target req) = Inr r"
    "route_of (se_routes s) (rq_target req) (if r = [] then [SLASH] else r)"
    using match_route_of [OF assms(1)] by blast
  let ?l = "if r = [] then [SLASH] else r"
  obtain t conf factory where t: "smap_find (se_handler_map s) ?l = Some (t, conf)"
    "createHandlerFactory t = Some factory" "smap_find (se_routes s) ?l = Some (Some factory)"
    using route_of_tables [OF assms(1) r(2)] by blast
  have "answer E msg s w =
      ebind (serve E factory ?l conf w req (bs_response (en_beast E))) (\<lambda>x w. (Inr (snd x, s), w))"
    using assms(2,3) r(1) t by (auto simp: answer_def Let_def pure_result_def smap_index_def)
  with that r(2) t show ?thesis by blast
qed

section \<open>The answer\<close>

definition blocks_ok :: "handler_map \<Rightarrow> bool" where
  "blocks_ok m \<longleftrightarrow> (\<forall>l t conf. smap_find m l = Some (t, conf) \<longrightarrow> block_ok conf)"

text \<open>
  C12: with complete tables, a message that \<open>getFields\<close> reads and in which Beast's parser
  finds no error, or a bad version only, is answered by a fresh handler of the longest location that covers the target (of \<open>/\<close> if none does), made with that
  location's configuration block; the tables stay as they are, and the response carries one of the
  server's five status codes.
\<close>

theorem answer_routed:
  assumes "tables_ok (se_handler_map s) (se_routes s)"
    and "getFields (en_beast E) msg (bs_request (en_beast E)) = Inr req"
    and "bs_parser_put (en_beast E) msg \<in> {No_error, Bad_version}"
  shows "\<exists>location t conf factory. route_of (se_routes s) (rq_target req) location \<and>
    smap_find (se_handler_map s) location = Some (t, conf) \<and> createHandlerFactory t = Some factory \<and>
    answer E msg s w =
      ebind (serve E factory location conf w req (bs_response (en_beast E))) (\<lambda>x w. (Inr (snd x, s), w)) \<and>
    (\<forall>res s' w'. answer E msg s w = (Inr (res, s'), w') \<longrightarrow> s' = s \<and> rs_result res \<in> statuses)"
  using assms
proof (rule answer_served)
  fix location t conf factory
  let ?run = "serve E factory location conf w req (bs_response (en_beast E))"
  assume *: "route_of (se_routes s) (rq_target req) location"
    "smap_find (se_handler_map s) location = Some (t, conf)" "createHandlerFactory t = Some factory"
    "answer E msg s w = ebind ?run (\<lambda>x w. (Inr (snd x, s), w))"
  have "s' = s \<and> rs_result res \<in> statuses" if "answer E msg s w = (Inr (res, s'), w')" for res s' w'
  proof -
    from that *(4) obtain st where "?run = (Inr (st, res), w')" "s' = s"
      by (auto simp: result_iff)
    with served.handle_status [of E factory location conf w req "bs_response (en_beast E)" st res w']
    show ?thesis by simp
  qed
  with * show ?thesis by blast
qed

text \<open>
  A message in which the parser finds an error other than a bad version is
  answered with 400, whatever its target, and no handler runs: world and tables stay as they are.
\<close>

theorem answer_refused:
  assumes "bs_parser_put (en_beast E) msg = Other_error"
    and "getFields (en_beast E) msg (bs_request (en_beast E)) = Inr req"
  shows "answer E msg s w =
    (Inr ((bs_response (en_beast E))\<lparr>rs_result := 400, rs_reason := ''Bad Request''\<rparr>, s), w)"
proof -
  obtain r where "match (se_routes s) (rq_target req) = Inr r"
    using match_loop_spec [of "rq_target req" "se_routes s" "[]"] by (auto simp: match_def)
  with assms show ?thesis by (simp add: answer_def Let_def pure_result_def)
qed

text \<open>
  Without a location \<open>/\<close> in the table, a target that no location covers makes the
  session dereference a null factory.
\<close>

theorem answer_no_root:
  assumes "smap_ok (se_routes s)" and "smap_find (se_routes s) [SLASH] = None"
    and "getFields (en_beast E) msg (bs_request (en_beast E)) = Inr req"
    and "bs_parser_put (en_beast E) msg = No_error"
    and "\<And>l. l \<in> fst ` set (se_routes s) \<Longrightarrow> \<not> covers l (rq_target req)"
  shows "answer E msg s w = (Inl Null_deref, w)"
proof -
  have "match (se_routes s) (rq_target req) = Inr []"
    using match_loop_spec [of "rq_target req" "se_routes s" "[]"] assms(5) by (auto simp: match_def)
  with assms(2-4) show ?thesis
    by (simp add: answer_def Let_def pure_result_def smap_index_def split: prod.split)
qed

lemma faults_answer:
  assumes "tables_ok (se_handler_map s) (se_routes s)" and "blocks_ok (se_handler_map s)"
    and "fs_faults (en_files E)"
  shows "faults_in (serve_faults E) (fst (answer E msg s w))"
proof (cases "getFields (en_beast E) msg (bs_request (en_beast E))")
  case (Inl e)
  then have "e = Out_of_range" by (auto simp: getFields_fault_iff)
  with Inl show ?thesis by (simp add: answer_def Let_def pure_result_def)
next
  case (Inr req)
  show ?thesis
  proof (cases "bs_parser_put (en_beast E) msg \<in> {No_error, Bad_version}")
    case True
    with assms(1) Inr show ?thesis
    proof (rule answer_served)
      fix location t conf factory
      assume "smap_find (se_handler_map s) location = Some (t, conf)"
        and run: "answer E msg s w =
          ebind (serve E factory location conf w req (bs_response (en_beast E))) (\<lambda>x w. (Inr (snd x, s), w))"
      then have "block_ok conf" using assms(2) by (auto simp: blocks_ok_def)
      then show ?thesis
        using faults_serve [OF assms(3)] by (auto simp: run)
    qed
  next
    case False
    obtain r where "match (se_routes s) (rq_target req) = Inr r"
      using match_loop_spec [of "rq_target req" "se_routes s" "[]"] by (auto simp: match_def)
    with False Inr show ?thesis by (simp add: answer_def Let_def pure_result_def)
  qed
qed

end
