(* ===== verification/Server_Loop.thy ===== *)
theory Server_Loop
  imports Session_Props
begin

text \<open>
  The accept loop \<open>Server::StartAccept\<close> and \<open>Server::HandleAccept\<close> (\<open>src/server.cc\<close>) with the
  sessions it starts, as one transition system.

  The completion handlers run on \<open>io_service\<close> threads without a handler for exceptions, so a fault
  in one session ends the process: the state records it in \<open>ss_crashed\<close>.
\<close>

section \<open>States and steps\<close>

record ('s, 'd) server_state =
  ss_server :: server
  ss_pending :: session                \<comment> \<open>the session of the accept under way\<close>
  ss_sessions :: "session list"
  ss_world :: "('s, 'd) world"
  ss_crashed :: "fault option"

definition new_session :: "server \<Rightarrow> string \<Rightarrow> session" where
  "new_session sv memory = RealSession memory (sv_handler_map sv) (sv_routes sv)"

definition StartAccept :: "string \<Rightarrow> ('s, 'd) server_state \<Rightarrow> ('s, 'd) server_state" where
  "StartAccept memory st = st\<lparr>ss_pending := new_session (ss_server st) memory\<rparr>"

text \<open>
  The accept under way has completed, with an error or with a connection whose peer is \<open>peer\<close>.  When
  \<open>Start\<close> throws, the next accept is not begun: the exception leaves the handler.
\<close>

definition HandleAccept ::
  "bool \<Rightarrow> string option \<Rightarrow> string \<Rightarrow> ('s, 'd) server_state \<Rightarrow> ('s, 'd) server_state" where
  "HandleAccept error peer memory st =
     (if error then StartAccept memory st
      else
        case Start peer (ss_pending st) of
          Inl e \<Rightarrow> st\<lparr>ss_crashed := Some e\<rparr>
        | Inr s \<Rightarrow> StartAccept memory (st\<lparr>ss_sessions := ss_sessions st @ [s]\<rparr>))"

definition run_server :: "server \<Rightarrow> string \<Rightarrow> ('s, 'd) world \<Rightarrow> ('s, 'd) server_state" where
  "run_server sv memory w =
     \<lparr>ss_server = sv, ss_pending = new_session sv memory, ss_sessions = [], ss_world = w, ss_crashed = None\<rparr>"

text \<open>The effect of one session's step on the server.\<close>

definition session_result ::
  "nat \<Rightarrow> session result \<Rightarrow> ('s, 'd) world \<Rightarrow> ('s, 'd) server_state \<Rightarrow> ('s, 'd) server_state" where
  "session_result i r w st =
     (case r of
        Inl e \<Rightarrow> st\<lparr>ss_world := w, ss_crashed := Some e\<rparr>
      | Inr s \<Rightarrow> st\<lparr>ss_world := w, ss_sessions := (ss_sessions st)[i := s]\<rparr>)"

inductive server_step :: "('f, 's, 'd, 'q) env \<Rightarrow> ('s, 'd) server_state \<Rightarrow> ('s, 'd) server_state \<Rightarrow> bool"
  for E
where
  accept: "ss_crashed st = None \<Longrightarrow> length memory = max_length \<Longrightarrow>
    server_step E st (HandleAccept error peer memory st)"
| session: "ss_crashed st = None \<Longrightarrow> i < length (ss_sessions st) \<Longrightarrow>
    session_step E ev (ss_sessions st ! i) (ss_world st) r w' \<Longrightarrow>
    server_step E st (session_result i r w' st)"

inductive_cases server_stepE: "server_step E st st'"

inductive server_reachable :: "('f, 's, 'd, 'q) env \<Rightarrow> server \<Rightarrow> ('s, 'd) server_state \<Rightarrow> bool"
  for E sv
where
  start: "length memory = max_length \<Longrightarrow> server_reachable E sv (run_server sv memory w)"
| step: "server_reachable E sv st \<Longrightarrow> server_step E st st' \<Longrightarrow> server_reachable E sv st'"

section \<open>The tables of the sessions\<close>

definition server_ok :: "server \<Rightarrow> bool" where
  "server_ok sv \<longleftrightarrow> tables_ok (sv_handler_map sv) (sv_routes sv) \<and> blocks_ok (sv_handler_map sv)"

definition has_tables :: "server \<Rightarrow> session \<Rightarrow> bool" where
  "has_tables sv s \<longleftrightarrow> se_handler_map s = sv_handler_map sv \<and> se_routes s = sv_routes sv"

lemma zeroed_length [simp]: "length zeroed = max_length"
  by (simp add: zeroed_def)

lemma has_tables_new [simp]: "has_tables sv (new_session sv memory)"
  by (simp add: has_tables_def new_session_def RealSession_def)

lemma Start_cases:
  obtains (throws) "peer = None" and "Start peer s = Inl System_error"
  | (begins) client_ip where "peer = Some client_ip"
    and "Start peer s = Inr (s\<lparr>se_client_ip := client_ip, se_phase := Reading\<rparr>)"
  by (cases peer) (simp_all add: Start_def)

lemma answer_keeps_tables:
  assumes "tables_ok (se_handler_map s) (se_routes s)" and "answer E msg s w = (Inr (res, s'), w')"
  shows "s' = s"
proof (cases "getFields (en_beast E) msg (bs_request (en_beast E))")
  case (Inl e)
  with assms(2) show ?thesis by (simp add: answer_def Let_def pure_result_def)
next
  case (Inr req)
  show ?thesis
  proof (cases "bs_parser_put (en_beast E) msg \<in> {No_error, Bad_version}")
    case True
    with assms(1) Inr show ?thesis
    proof (rule answer_served)
      fix location t conf factory
      assume "answer E msg s w =
        ebind (serve E factory location conf w req (bs_response (en_beast E))) (\<lambda>x w. (Inr (snd x, s), w))"
      with assms(2) show ?thesis by (simp add: ebind_Inr_iff)
    qed
  next
    case False
    obtain r where "match (se_routes s) (rq_target req) = Inr r"
      using match_loop_spec [of "rq_target req" "se_routes s" "[]"] by (auto simp: match_def)
    with False Inr assms(2) show ?thesis by (simp add: answer_def Let_def pure_result_def)
  qed
qed

text \<open>What a read that succeeded has done.\<close>

lemma HandleRead_Inr:
  assumes "HandleRead E (Some bytes) s w = (Inr s', w')"
  obtains msg res t where "array_string (received bytes (se_data s)) = Inr msg"
    and "answer E msg (s\<lparr>se_data := received bytes (se_data s)\<rparr>) w = (Inr (res, t), w')"
    and "s' = t\<lparr>se_data := zeroed, se_phase := Writing (getResponse (en_beast E) res)\<rparr>"
  using assms by (auto simp: HandleRead_def Let_def ebind_Inr_iff)

lemma has_tables_update [simp]:
  "has_tables sv (s\<lparr>se_data := d\<rparr>) = has_tables sv s" "has_tables sv (s\<lparr>se_phase := p\<rparr>) = has_tables sv s"
  "has_tables sv (s\<lparr>se_client_ip := ip\<rparr>) = has_tables sv s"
  by (simp_all add: has_tables_def)

lemma HandleRead_tables:
  assumes "server_ok sv" and "has_tables sv s" and "HandleRead E (Some bytes) s w = (Inr s', w')"
  shows "has_tables sv s'"
  using assms(3)
proof (rule HandleRead_Inr)
  fix msg res t
  let ?s = "s\<lparr>se_data := received bytes (se_data s)\<rparr>"
  assume *: "answer E msg ?s w = (Inr (res, t), w')"
    "s' = t\<lparr>se_data := zeroed, se_phase := Writing (getResponse (en_beast E) res)\<rparr>"
  have "tables_ok (se_handler_map ?s) (se_routes ?s)"
    using assms(1,2) by (simp add: server_ok_def has_tables_def)
  then have "t = ?s" using *(1) by (rule answer_keeps_tables)
  with *(2) assms(2) show ?thesis by simp
qed

lemma session_step_tables:
  assumes "server_ok sv" and "has_tables sv s" and "session_step E ev s w (Inr s') w'"
  shows "has_tables sv s'"
  using assms(3)
proof (cases rule: session_step.cases)
  case (read bytes)
  then show ?thesis using HandleRead_tables [OF assms(1,2)] by blast
next
  case read_error
  with assms(2) show ?thesis by (auto simp: HandleRead_def)
next
  case (written out)
  with assms(2) show ?thesis by (simp add: HandleWrite_def)
next
  case (write_error out)
  with assms(2) show ?thesis by (simp add: HandleWrite_def)
qed

lemma session_step_fault:
  assumes "server_ok sv" and "has_tables sv s" and "fs_faults (en_files E)"
    and "session_step E ev s w (Inl e) w'"
  shows "e \<in> serve_faults E \<or> e = Bad_index \<and>
    (\<exists>bytes. ev = Read bytes \<and> NUL \<notin> set (received bytes (se_data s)))"
  using assms(4)
proof (cases rule: session_step.cases)
  case (read bytes)
  let ?s = "s\<lparr>se_data := received bytes (se_data s)\<rparr>"
  have ok: "tables_ok (se_handler_map ?s) (se_routes ?s)" "blocks_ok (se_handler_map ?s)"
    using assms(1,2) by (auto simp: server_ok_def has_tables_def)
  show ?thesis
  proof (cases "array_string (received bytes (se_data s))")
    case (Inl f)
    with read show ?thesis
      by (auto simp: HandleRead_def Let_def pure_result_def array_string_def split: if_splits)
  next
    case (Inr msg)
    have "faults_in (serve_faults E) (fst (answer E msg ?s w))"
      using ok assms(3) by (rule faults_answer)
    with read Inr show ?thesis
      by (auto simp: HandleRead_def Let_def pure_result_def split: ebind_split_asm)
  qed
qed (auto simp: HandleRead_def)

lemma server_reachable_inv:
  assumes "server_ok sv" and "server_reachable E sv st"
  shows "ss_server st = sv \<and> has_tables sv (ss_pending st) \<and> list_all (has_tables sv) (ss_sessions st)"
  using assms(2)
proof (induction rule: server_reachable.induct)
  case (start memory w)
  then show ?case by (simp add: run_server_def)
next
  case (step st st')
  from step.hyps(2) show ?case
  proof (cases rule: server_step.cases)
    case (accept memory error peer)
    with step.IH show ?thesis
      by (cases peer "ss_pending st" rule: Start_cases) (auto simp: HandleAccept_def StartAccept_def)
  next
    case (session i ev r w')
    then have "has_tables sv (ss_sessions st ! i)"
      using step.IH by (simp add: list_all_length)
    then have "has_tables sv s'" if "r = Inr s'" for s'
      using session_step_tables [OF assms(1)] session(4) that by blast
    moreover have "list_all (has_tables sv) ((ss_sessions st)[i := s'])" if "has_tables sv s'" for s'
      using step.IH that set_update_subset_insert [of "ss_sessions st" i s'] by (auto simp: list_all_iff)
    ultimately show ?thesis
      using step.IH session(1) by (auto simp: session_result_def split: sum.split)
  qed
qed

section \<open>Faults\<close>

text \<open>An accept ends the server in one way only: the peer of the connection is gone.\<close>

lemma HandleAccept_crash:
  assumes "ss_crashed st = None" and "ss_crashed (HandleAccept error peer memory st) = Some e"
  shows "e = System_error \<and> \<not> error \<and> peer = None"
  using assms by (cases peer "ss_pending st" rule: Start_cases) (auto simp: HandleAccept_def StartAccept_def split: if_splits)

lemma server_reachable_faults:
  assumes "server_ok sv" and "fs_faults (en_files E)" and "server_reachable E sv st"
    and "ss_crashed st = Some e"
  shows "e \<in> insert Bad_index (serve_faults E) \<or>
    e = System_error \<and> (\<exists>st0 memory. server_reachable E sv st0 \<and> st = HandleAccept False None memory st0)"
  using assms(3)
proof (cases rule: server_reachable.cases)
  case (start memory w)
  then show ?thesis using assms(4) by (simp add: run_server_def)
next
  case (step st0)
  from step(2) show ?thesis
  proof (cases rule: server_step.cases)
    case (accept memory error peer)
    then have "e = System_error \<and> \<not> error \<and> peer = None"
      using HandleAccept_crash [of st0 error peer memory e] assms(4) by simp
    with accept step(1) show ?thesis by auto
  next
    case (session i ev r w')
    have "has_tables sv (ss_sessions st0 ! i)"
      using server_reachable_inv [OF assms(1) step(1)] session(3) by (simp add: list_all_length)
    moreover have "r = Inl e"
      using session assms(4) by (auto simp: session_result_def split: sum.splits)
    ultimately show ?thesis
      using session_step_fault [OF assms(1) _ assms(2)] session(4) by blast
  qed
qed


text \<open>And such a connection does end it, whatever the configuration.\<close>

lemma reset_kills_server:
  assumes "ss_crashed st = None"
  shows "\<exists>st'. server_step E st st' \<and> ss_crashed st' = Some System_error"
  using server_step.accept [OF assms zeroed_length, of E False None]
  by (auto simp: HandleAccept_def Start_def)

text \<open>
  C20: every read ends: whatever a session of a server with complete tables has
  read, its completion handler comes back with an answer or an exception and never stays in a
  loop, as long as the queries to the database have finitely many rows.
\<close>

theorem handlers_return:
  assumes "server_ok sv" and "has_tables sv s" and "fs_faults (en_files E)" and "rows_end (en_sqlite E)"
  shows "fst (HandleRead E input s w) \<noteq> Inl No_return"
proof
  assume fault: "fst (HandleRead E input s w) = Inl No_return"
  obtain bytes where input: "input = Some bytes" using fault by (cases input) (auto simp: HandleRead_def)
  let ?s = "s\<lparr>se_data := received bytes (se_data s)\<rparr>"
  have "tables_ok (se_handler_map ?s) (se_routes ?s)" "blocks_ok (se_handler_map ?s)"
    using assms(1,2) by (auto simp: server_ok_def has_tables_def)
  from faults_answer [OF this assms(3)] have "faults_in returning_faults (fst (answer E msg ?s w))" for msg
    using assms(4) by (simp add: serve_faults_def)
  then have "fst (answer E msg ?s w) \<noteq> Inl No_return" for msg
    by (metis faults_in_simps(1) returning_faults_mem(7))
  with fault show False
    by (auto simp: HandleRead_def input Let_def pure_result_def array_string_def split: ebind_split_asm if_splits)
      (metis fst_conv)
qed

text \<open>
  C21: in every state the server can reach, every session that was started has the
  tables the server was built with: no request changes the routing of another one.
\<close>

theorem server_sessions:
  assumes "server_ok sv" and "server_reachable E sv st" and "s \<in> set (ss_sessions st)"
  shows "se_routes s = sv_routes sv \<and> se_handler_map s = sv_handler_map sv"
  using server_reachable_inv [OF assms(1,2)] assms(3) by (auto simp: list_all_iff has_tables_def)

text \<open>A request whose only header line ends with its colon.\<close>

definition bare_request :: string where
  "bare_request = ''GET / HTTP/1.1'' @ crlf @ ''X:'' @ crlf @ crlf"

lemma bare_request_fault: "getFields B bare_request req = Inl Out_of_range"
proof -
  have "case fields_loop fields_start bare_request of Inl e \<Rightarrow> False | Inr f \<Rightarrow> gf_headers f = [''X:'']"
    by code_simp
  moreover have "bare_header ''X:''"
    unfolding bare_header_def by (rule exI [of _ "''X''"]) simp
  ultimately show ?thesis
    by (auto simp: getFields_fault_iff split: sum.splits)
qed

lemma bare_request_step:
  assumes "se_phase s = Reading" and "se_data s = zeroed"
  shows "session_step E (Read bare_request) s w (Inl Out_of_range) w"
proof -
  have len: "length bare_request < max_length" "NUL \<notin> set bare_request" "bare_request \<noteq> []"
    by (simp_all add: bare_request_def max_length_def)
  have "answer E bare_request t w = (Inl Out_of_range, w)" for t
    by (simp add: answer_def Let_def pure_result_def bare_request_fault)
  then have "HandleRead E (Some bare_request) s w = (Inl Out_of_range, w)"
    using assms(2) received_zeroed [OF len(1,2)] by (simp add: HandleRead_def Let_def pure_result_def)
  with assms(1) len show ?thesis
    by (intro session_step.read) simp_all
qed

text \<open>
  C23: a client that sends a request whose header line ends with its colon ends
  the whole server process: the \<open>std::out_of_range\<close> of \<open>substr\<close> leaves the completion handler.
\<close>

theorem header_kills_server:
  assumes "ss_crashed st = None" and "i < length (ss_sessions st)"
    and "se_phase (ss_sessions st ! i) = Reading" and "se_data (ss_sessions st ! i) = zeroed"
  shows "\<exists>st'. server_step E st st' \<and> ss_crashed st' = Some Out_of_range"
proof (rule exI, rule conjI)
  show "server_step E st (session_result i (Inl Out_of_range) (ss_world st) st)"
    using assms(1,2) bare_request_step [OF assms(3,4)] by (rule server_step.session)
qed (simp add: session_result_def)

section \<open>A concrete server\<close>

definition demo_env :: "(field_list, flat_fs, unit, unit) env" where
  "demo_env = \<lparr>en_beast = list_beast, en_files = flat_ops, en_sqlite = closed_sqlite, en_iter = id\<rparr>"

definition demo_block :: NginxConfig where
  "demo_block = NginxConfig [NginxConfigStatement [''root'', ''/www''] None]"

definition demo_map :: handler_map where
  "demo_map = [(''/'', (''HealthHandler'', Some demo_block)), (''/echo'', (''EchoHandler'', Some demo_block))]"

definition demo_server :: server where
  "demo_server = Server 80 demo_map"

definition demo_wo :: "(flat_fs, unit) world" where
  "demo_wo = \<lparr>wo_files = (\<lambda>p. None), wo_storage = storage_empty, wo_db = ()\<rparr>"

definition demo_state :: "(flat_fs, unit) server_state" where
  "demo_state = HandleAccept False (Some ''10.0.0.1'') zeroed
     (run_server demo_server zeroed demo_wo)"

abbreviation demo_new :: session where
  "demo_new \<equiv> (RealSession zeroed demo_map (sv_routes demo_server))\<lparr>se_client_ip := ''10.0.0.1'', se_phase := Reading\<rparr>"

lemma demo_server_ok: "server_ok demo_server"
proof -
  have "smap_ok demo_map" by (simp add: smap_ok_def demo_map_def)
  moreover have "createHandlerFactory t \<noteq> None \<and> conf = Some demo_block" if "smap_find demo_map l = Some (t, conf)" for l t conf
    using that by (auto simp: demo_map_def createHandlerFactory_def split: if_splits)
  moreover have "smap_find demo_map [SLASH] \<noteq> None" by (simp add: demo_map_def)
  moreover have "sv_handler_map demo_server = demo_map" by (simp add: demo_server_def Server_def)
  moreover have "config_ok demo_block" by (simp add: demo_block_def)
  ultimately show ?thesis
    unfolding server_ok_def blocks_ok_def block_ok_def demo_server_def
    using Server_tables_ok [of demo_map 80] by (fastforce simp: Server_def)
qed

lemma demo_reachable: "server_reachable demo_env demo_server demo_state"
  unfolding demo_state_def
  by (rule server_reachable.step, rule server_reachable.start [of zeroed], simp, rule server_step.accept)
    (simp_all add: run_server_def)

lemma demo_session: "ss_sessions demo_state = [demo_new]"
  by (simp add: demo_state_def HandleAccept_def StartAccept_def Start_def run_server_def new_session_def
      demo_server_def Server_def)

lemma demo_running: "ss_crashed demo_state = None"
  by (simp add: demo_state_def HandleAccept_def StartAccept_def Start_def run_server_def)

lemma closed_rows_end: "rows_end closed_sqlite"
  unfolding rows_end_def
  by (auto simp: closed_sqlite_def sqlite_defs intro!: exI yields.stop [where rc = 21])

lemma handlers_return_witness:
  "fst (HandleRead demo_env (Some bare_request) (new_session demo_server zeroed) demo_wo) \<noteq> Inl No_return"
  by (rule handlers_return [OF demo_server_ok]) (simp_all add: demo_env_def flat_fs_faults closed_rows_end)

lemma header_kills_server_witness:
  "\<exists>st'. server_step demo_env demo_state st' \<and> ss_crashed st' = Some Out_of_range"
  by (rule header_kills_server [of _ 0]) (simp_all add: demo_session demo_running RealSession_def)

lemma server_sessions_witness:
  "se_routes (ss_sessions demo_state ! 0) = sv_routes demo_server"
  using server_sessions [OF demo_server_ok demo_reachable, of "ss_sessions demo_state ! 0"]
  by (simp add: demo_session)


text \<open>A request to the demonstration server, its answer, and the session after it.\<close>

definition demo_msg :: string where
  "demo_msg = ''GET /x HTTP/1.1'' @ crlf @ crlf"

lemma demo_msg_facts:
  "length demo_msg < max_length" "NUL \<notin> set demo_msg" "demo_msg \<noteq> []"
  by (simp_all add: demo_msg_def max_length_def)

lemma demo_fields: "\<exists>req. getFields list_beast demo_msg (bs_request list_beast) = Inr req"
proof -
  have "case getFields list_beast demo_msg (bs_request list_beast) of Inl e \<Rightarrow> False | Inr r \<Rightarrow> True"
    by code_simp
  then show ?thesis by (auto split: sum.splits)
qed

lemma demo_tables: "tables_ok demo_map (sv_routes demo_server)"
  using demo_server_ok by (simp add: server_ok_def demo_server_def Server_def)

lemma demo_answer:
  assumes "se_handler_map s = demo_map" and "se_routes s = sv_routes demo_server"
  shows "\<exists>res. answer demo_env demo_msg s w = (Inr (res, s), w)"
proof -
  obtain req where req: "getFields (en_beast demo_env) demo_msg (bs_request (en_beast demo_env)) = Inr req"
    using demo_fields by (auto simp: demo_env_def)
  have put: "bs_parser_put (en_beast demo_env) demo_msg \<in> {No_error, Bad_version}"
    by (simp add: demo_env_def list_beast_def)
  have "tables_ok (se_handler_map s) (se_routes s)" using assms demo_tables by simp
  then show ?thesis
    using req put
  proof (rule answer_served)
    fix location t conf factory
    let ?run = "serve demo_env factory location conf w req (bs_response (en_beast demo_env))"
    assume *: "smap_find (se_handler_map s) location = Some (t, conf)" "createHandlerFactory t = Some factory"
      "answer demo_env demo_msg s w = ebind ?run (\<lambda>x w. (Inr (snd x, s), w))"
    then have "factory = HealthRequestHandlerFactory \<or> factory = EchoRequestHandlerFactory"
      by (auto simp: assms(1) demo_map_def createHandlerFactory_def split: if_splits)
    then have "\<exists>r. ?run = (Inr r, w)"
      using echo.handle_answers health.handle_answers
      by (auto simp: serve_def create_defs handle_request_def Let_def)
    with *(3) show ?thesis by auto
  qed
qed

lemma demo_new_reachable: "session_reachable demo_env 0 demo_new"
  by (rule session_reachable.start [of zeroed "Some ''10.0.0.1''"]) (simp_all add: Start_def)

lemma demo_answered: "\<exists>s. session_reachable demo_env 1 s \<and> se_phase s = Reading"
proof -
  fix w :: "(flat_fs, unit) world"
  obtain res where "answer demo_env demo_msg (demo_new\<lparr>se_data := received demo_msg zeroed\<rparr>) w =
      (Inr (res, demo_new\<lparr>se_data := received demo_msg zeroed\<rparr>), w)"
    using demo_answer [of "demo_new\<lparr>se_data := received demo_msg zeroed\<rparr>" w] by (auto simp: RealSession_def)
  then have "HandleRead demo_env (Some demo_msg) demo_new w =
      (Inr (demo_new\<lparr>se_phase := Writing (getResponse (en_beast demo_env) res)\<rparr>), w)"
    using received_zeroed [OF demo_msg_facts(1,2)]
    by (simp add: HandleRead_def Let_def pure_result_def RealSession_def)
  then have "session_step demo_env (Read demo_msg) demo_new w
      (Inr (demo_new\<lparr>se_phase := Writing (getResponse (en_beast demo_env) res)\<rparr>)) w"
    using demo_msg_facts by (intro session_step.read) (simp_all add: RealSession_def)
  from session_reachable.step [OF demo_new_reachable this]
  have "session_reachable demo_env 1 (demo_new\<lparr>se_phase := Writing (getResponse (en_beast demo_env) res)\<rparr>)"
    by simp
  from session_reachable.step [OF this session_step.written [where w = w]] show ?thesis
    by (auto simp: HandleWrite_def)
qed

lemma session_no_leak_witness:
  "\<exists>s. session_reachable demo_env 1 s \<and>
    HandleRead demo_env (Some demo_msg) s demo_wo =
      ebind (answer demo_env demo_msg (s\<lparr>se_data := received demo_msg zeroed\<rparr>) demo_wo)
        (\<lambda>(res, s) w. (Inr (s\<lparr>se_data := zeroed, se_phase := Writing (getResponse (en_beast demo_env) res)\<rparr>), w))"
proof -
  obtain s where s: "session_reachable demo_env 1 s" using demo_answered by blast
  show ?thesis
    by (rule exI [of _ s], rule conjI [OF s], rule session_no_leak [OF s _ demo_msg_facts(1,2)]) simp
qed

lemma session_full_read_witness:
  "HandleRead demo_env (Some (replicate max_length (CHR ''a''))) demo_new demo_wo = (Inl Bad_index, demo_wo)"
  by (rule session_full_read [OF demo_new_reachable]) simp_all

lemma session_first_read_witness:
  "\<exists>s. se_data s = ''xxxxxsecret'' @ [NUL] \<and>
    HandleRead demo_env (Some ''GET /'') s demo_wo =
      ebind (answer demo_env ''GET /secret'' (s\<lparr>se_data := ''GET /secret'' @ [NUL]\<rparr>) demo_wo)
        (\<lambda>(res, s) w. (Inr (s\<lparr>se_data := zeroed, se_phase := Writing (getResponse (en_beast demo_env) res)\<rparr>), w))"
  using session_first_read [of "''GET /''" "demo_new\<lparr>se_data := ''xxxxxsecret'' @ [NUL]\<rparr>" "''secret''" "[]" demo_env demo_wo]
  by (intro exI [of _ "demo_new\<lparr>se_data := ''xxxxxsecret'' @ [NUL]\<rparr>"]) (simp add: received_def)

text \<open>The demonstration request is answered by the health handler of \<open>/\<close>.\<close>

lemma answer_routed_witness:
  "\<exists>req. getFields list_beast demo_msg (bs_request list_beast) = Inr req \<and>
    answer demo_env demo_msg demo_new demo_wo =
      ebind (serve demo_env HealthRequestHandlerFactory ''/'' (Some demo_block) demo_wo req (bs_response list_beast))
        (\<lambda>x w. (Inr (snd x, demo_new), w))"
proof -
  have beast: "en_beast demo_env = list_beast" by (simp add: demo_env_def)
  have "case getFields list_beast demo_msg (bs_request list_beast) of Inl e \<Rightarrow> False | Inr r \<Rightarrow> rq_target r = ''/x''"
    by code_simp
  then obtain req where req: "getFields list_beast demo_msg (bs_request list_beast) = Inr req" "rq_target req = ''/x''"
    by (auto split: sum.splits)
  have "tables_ok (se_handler_map demo_new) (se_routes demo_new)"
    using demo_tables by (simp add: RealSession_def)
  moreover have "getFields (en_beast demo_env) demo_msg (bs_request (en_beast demo_env)) = Inr req"
    using req(1) by (simp add: beast)
  moreover have "bs_parser_put (en_beast demo_env) demo_msg \<in> {No_error, Bad_version}"
    by (simp add: demo_env_def list_beast_def)
  ultimately obtain location t conf factory where *: "route_of (se_routes demo_new) (rq_target req) location"
    "smap_find (se_handler_map demo_new) location = Some (t, conf)" "createHandlerFactory t = Some factory"
    "answer demo_env demo_msg demo_new demo_wo =
      ebind (serve demo_env factory location conf demo_wo req (bs_response list_beast)) (\<lambda>x w. (Inr (snd x, demo_new), w))"
    using answer_routed [of demo_new demo_env demo_msg req demo_wo] unfolding beast by blast
  have "location = ''/''"
  proof -
    have "\<not> covers ''/echo'' ''/x''" by (simp add: covers_def)
    moreover have "fst ` set (se_routes demo_new) = {''/'', ''/echo''}" by code_simp
    ultimately show ?thesis using *(1) by (auto simp: route_of_def req(2) split: if_splits)
  qed
  with * have "factory = HealthRequestHandlerFactory" "conf = Some demo_block"
    by (auto simp: RealSession_def demo_map_def createHandlerFactory_def)
  with * \<open>location = ''/''\<close> req(1) show ?thesis by blast
qed

lemma answer_no_root_witness:
  "answer demo_env demo_msg (RealSession zeroed [] []) demo_wo = (Inl Null_deref, demo_wo)"
proof -
  obtain req where "getFields (en_beast demo_env) demo_msg (bs_request (en_beast demo_env)) = Inr req"
    using demo_fields by (auto simp: demo_env_def)
  then show ?thesis
    by (intro answer_no_root) (simp_all add: RealSession_def smap_ok_def demo_env_def list_beast_def)
qed

text \<open>The same with a parser that refuses everything.\<close>

lemma answer_refused_witness:
  "answer (demo_env\<lparr>en_beast := list_beast\<lparr>bs_parser_put := \<lambda>s. Other_error\<rparr>\<rparr>) demo_msg demo_new demo_wo =
    (Inr ((bs_response list_beast)\<lparr>rs_result := 400, rs_reason := ''Bad Request''\<rparr>, demo_new), demo_wo)"
proof -
  let ?B = "list_beast\<lparr>bs_parser_put := \<lambda>s. Other_error\<rparr>"
  have "case getFields ?B demo_msg (bs_request ?B) of Inl e \<Rightarrow> False | Inr r \<Rightarrow> True"
    by code_simp
  then obtain req where "getFields ?B demo_msg (bs_request ?B) = Inr req" by (auto split: sum.splits)
  then show ?thesis
    using answer_refused [of "demo_env\<lparr>en_beast := ?B\<rparr>" demo_msg req demo_new demo_wo]
    by (simp add: demo_env_def)
qed

end
