(* ===== verification/Config_Lexer.thy ===== *)
theory Config_Lexer
  imports Std_String
begin

text \<open>
  \<open>NginxConfigParser::ParseToken\<close>: the lexer of the configuration parser, as a state machine
  over the remaining input.

  The stream is the list of bytes not yet read.  A \<open>get\<close> takes the head, an \<open>unget\<close> puts it
  back; a \<open>get\<close> at the end makes the stream bad, which ends the loop, and a bad stream reads
  like an empty one from then on, so the list alone is enough.  The result is the token's type,
  the final contents of \<open>*value\<close> and the rest of the input.
\<close>

datatype TokenType =
    TOKEN_TYPE_START
  | TOKEN_TYPE_NORMAL
  | TOKEN_TYPE_START_BLOCK
  | TOKEN_TYPE_END_BLOCK
  | TOKEN_TYPE_COMMENT
  | TOKEN_TYPE_STATEMENT_END
  | TOKEN_TYPE_EOF
  | TOKEN_TYPE_ERROR
  | TOKEN_TYPE_QUOTED_STRING
  | TOKEN_TYPE_WHITESPACE

fun TokenTypeAsString :: "TokenType \<Rightarrow> string" where
  "TokenTypeAsString TOKEN_TYPE_START = ''TOKEN_TYPE_START''"
| "TokenTypeAsString TOKEN_TYPE_NORMAL = ''TOKEN_TYPE_NORMAL''"
| "TokenTypeAsString TOKEN_TYPE_START_BLOCK = ''TOKEN_TYPE_START_BLOCK''"
| "TokenTypeAsString TOKEN_TYPE_END_BLOCK = ''TOKEN_TYPE_END_BLOCK''"
| "TokenTypeAsString TOKEN_TYPE_COMMENT = ''TOKEN_TYPE_COMMENT''"
| "TokenTypeAsString TOKEN_TYPE_STATEMENT_END = ''TOKEN_TYPE_STATEMENT_END''"
| "TokenTypeAsString TOKEN_TYPE_EOF = ''TOKEN_TYPE_EOF''"
| "TokenTypeAsString TOKEN_TYPE_ERROR = ''TOKEN_TYPE_ERROR''"
| "TokenTypeAsString TOKEN_TYPE_QUOTED_STRING = ''TOKEN_TYPE_QUOTED_STRING''"
| "TokenTypeAsString TOKEN_TYPE_WHITESPACE = ''TOKEN_TYPE_WHITESPACE''"

datatype TokenParserState =
    TOKEN_STATE_INITIAL_WHITESPACE
  | TOKEN_STATE_SINGLE_QUOTE
  | TOKEN_STATE_DOUBLE_QUOTE
  | TOKEN_STATE_TOKEN_TYPE_COMMENT
  | TOKEN_STATE_TOKEN_TYPE_NORMAL
  | TOKEN_STATE_WHITESPACE

definition is_ws :: "char \<Rightarrow> bool" where
  "is_ws c \<longleftrightarrow> c = SP \<or> c = TAB \<or> c = LF \<or> c = CR"

text \<open>The characters that end an unquoted token, and those that may follow a quoted one.\<close>

definition ends_normal :: "char \<Rightarrow> bool" where
  "ends_normal c \<longleftrightarrow> is_ws c \<or> c = CHR '';'' \<or> c = CHR ''{'' \<or> c = CHR ''}'' \<or> c = SQ \<or> c = DQ"

definition follows_quoted :: "char \<Rightarrow> bool" where
  "follows_quoted c \<longleftrightarrow> is_ws c \<or> c = CHR '';'' \<or> c = CHR ''{''"

text \<open>The escapes of both quoted states, and the quote that closes each.\<close>

definition escaped :: "char \<Rightarrow> char option" where
  "escaped c =
     (if c = SQ then Some SQ
      else if c = DQ then Some DQ
      else if c = CHR ''n'' then Some LF
      else if c = CHR ''t'' then Some TAB
      else if c = BSL then Some BSL
      else None)"

definition closing_quote :: "TokenParserState \<Rightarrow> char" where
  "closing_quote st = (if st = TOKEN_STATE_SINGLE_QUOTE then SQ else DQ)"

text \<open>\<open>ParseToken_loop state value input\<close> is the \<open>while\<close> loop.\<close>

fun ParseToken_loop :: "TokenParserState \<Rightarrow> string \<Rightarrow> string \<Rightarrow> TokenType \<times> string \<times> string" where
  "ParseToken_loop st v [] =
     (if st = TOKEN_STATE_SINGLE_QUOTE \<or> st = TOKEN_STATE_DOUBLE_QUOTE
      then (TOKEN_TYPE_ERROR, v, []) else (TOKEN_TYPE_EOF, v, []))"
| "ParseToken_loop TOKEN_STATE_INITIAL_WHITESPACE v (c # inp) =
     (if c = CHR ''{'' then (TOKEN_TYPE_START_BLOCK, [c], inp)
      else if c = CHR ''}'' then (TOKEN_TYPE_END_BLOCK, [c], inp)
      else if c = CHR ''#'' then ParseToken_loop TOKEN_STATE_TOKEN_TYPE_COMMENT [c] inp
      else if c = DQ then ParseToken_loop TOKEN_STATE_DOUBLE_QUOTE [c] inp
      else if c = SQ then ParseToken_loop TOKEN_STATE_SINGLE_QUOTE [c] inp
      else if c = CHR '';'' then (TOKEN_TYPE_STATEMENT_END, [c], inp)
      else if is_ws c then ParseToken_loop TOKEN_STATE_WHITESPACE v inp
      else ParseToken_loop TOKEN_STATE_TOKEN_TYPE_NORMAL (v @ [c]) inp)"
| "ParseToken_loop TOKEN_STATE_TOKEN_TYPE_COMMENT v (c # inp) =
     (if c = LF \<or> c = CR then (TOKEN_TYPE_COMMENT, v, inp)
      else ParseToken_loop TOKEN_STATE_TOKEN_TYPE_COMMENT (v @ [c]) inp)"
| "ParseToken_loop TOKEN_STATE_TOKEN_TYPE_NORMAL v (c # inp) =
     (if ends_normal c then (TOKEN_TYPE_NORMAL, v, c # inp)
      else ParseToken_loop TOKEN_STATE_TOKEN_TYPE_NORMAL (v @ [c]) inp)"
| "ParseToken_loop TOKEN_STATE_WHITESPACE v (c # inp) =
     (if is_ws c then ParseToken_loop TOKEN_STATE_WHITESPACE (v @ [c]) inp
      else (TOKEN_TYPE_WHITESPACE, v, c # inp))"
| "ParseToken_loop st v (c # inp) =
     \<comment> \<open>the two quoted states\<close>
     (if c = BSL then
        (case inp of
           [] \<Rightarrow> ParseToken_loop st (v @ [c]) []
         | c_next # inp' \<Rightarrow>
             (case escaped c_next of
                Some e \<Rightarrow> ParseToken_loop st (v @ [e]) inp'
              | None \<Rightarrow> ParseToken_loop st (v @ [c]) inp))
      else if c = closing_quote st then
        (case inp of
           [] \<Rightarrow> (TOKEN_TYPE_ERROR, v @ [c], [])
         | c_next # inp' \<Rightarrow>
             if follows_quoted c_next then (TOKEN_TYPE_QUOTED_STRING, v @ [c], inp)
             else (TOKEN_TYPE_ERROR, v @ [c], inp'))
      else ParseToken_loop st (v @ [c]) inp)"

definition ParseToken :: "string \<Rightarrow> TokenType \<times> string \<times> string" where
  "ParseToken input = ParseToken_loop TOKEN_STATE_INITIAL_WHITESPACE [] input"

text \<open>
  The equations of the two quoted states rewrite into themselves when the next character is
  known, so they are unfolded by hand, one step at a time.
\<close>

lemmas ParseToken_quoted_eqs = ParseToken_loop.simps(6,7)

declare ParseToken_loop.simps(6,7) [simp del]

section \<open>The lexer makes progress\<close>

lemmas lexer_induct = ParseToken_loop.induct
  [case_names empty initial comment normal space single double]

lemma ParseToken_loop_rest_le: "length (snd (snd (ParseToken_loop st v inp))) \<le> length inp"
proof (induction st v inp rule: lexer_induct)
  case (single v c inp)
  then show ?case
    by (subst ParseToken_loop.simps) (auto split: list.split option.split intro: le_SucI; meson le_SucI)
next
  case (double v c inp)
  then show ?case
    by (subst ParseToken_loop.simps) (auto split: list.split option.split intro: le_SucI; meson le_SucI)
qed (auto intro: le_SucI)

lemma ParseToken_rest_less:
  assumes "ParseToken inp = (tt, v, rest)" and "tt \<noteq> TOKEN_TYPE_EOF" and "tt \<noteq> TOKEN_TYPE_ERROR"
  shows "length rest < length inp"
proof (cases inp)
  case Nil
  with assms show ?thesis by (simp add: ParseToken_def)
next
  case (Cons c inp')
  have "length (snd (snd (ParseToken inp))) \<le> length inp'"
    using Cons by (simp add: ParseToken_def ParseToken_loop_rest_le)
  with assms(1) Cons show ?thesis by simp
qed

lemma ParseToken_eof: "ParseToken [] = (TOKEN_TYPE_EOF, [], [])"
  by (simp add: ParseToken_def)

section \<open>What each token type stands for\<close>

text \<open>The value of a token never shrinks below what was collected, so no token is empty.\<close>

lemma ParseToken_loop_value:
  "v \<noteq> [] \<Longrightarrow> fst (snd (ParseToken_loop st v inp)) \<noteq> []"
proof (induction st v inp rule: lexer_induct)
  case (single v c inp)
  then show ?case by (subst ParseToken_loop.simps) (auto split: list.split option.split)
next
  case (double v c inp)
  then show ?case by (subst ParseToken_loop.simps) (auto split: list.split option.split)
qed auto

lemma ParseToken_loop_type:
  "fst (ParseToken_loop st v inp) \<in>
     (case st of
        TOKEN_STATE_INITIAL_WHITESPACE \<Rightarrow> UNIV - {TOKEN_TYPE_START}
      | TOKEN_STATE_SINGLE_QUOTE \<Rightarrow> {TOKEN_TYPE_QUOTED_STRING, TOKEN_TYPE_ERROR}
      | TOKEN_STATE_DOUBLE_QUOTE \<Rightarrow> {TOKEN_TYPE_QUOTED_STRING, TOKEN_TYPE_ERROR}
      | TOKEN_STATE_TOKEN_TYPE_COMMENT \<Rightarrow> {TOKEN_TYPE_COMMENT, TOKEN_TYPE_EOF}
      | TOKEN_STATE_TOKEN_TYPE_NORMAL \<Rightarrow> {TOKEN_TYPE_NORMAL, TOKEN_TYPE_EOF}
      | TOKEN_STATE_WHITESPACE \<Rightarrow> {TOKEN_TYPE_WHITESPACE, TOKEN_TYPE_EOF})"
proof (induction st v inp rule: lexer_induct)
  case (empty st v)
  then show ?case by (cases st) auto
next
  case (single v c inp)
  then show ?case by (subst ParseToken_loop.simps) (auto split: list.split option.split)
next
  case (double v c inp)
  then show ?case by (subst ParseToken_loop.simps) (auto split: list.split option.split)
qed auto

lemma ParseToken_value_nonempty:
  assumes "ParseToken inp = (tt, v, rest)" and "tt = TOKEN_TYPE_NORMAL \<or> tt = TOKEN_TYPE_QUOTED_STRING"
  shows "v \<noteq> []"
proof (cases inp)
  case Nil
  with assms show ?thesis by (simp add: ParseToken_def)
next
  case (Cons c inp')
  show ?thesis
  proof (cases "is_ws c")
    case True
    then have "ParseToken inp = ParseToken_loop TOKEN_STATE_WHITESPACE [] inp'"
      using Cons by (auto simp: ParseToken_def is_ws_def)
    with assms ParseToken_loop_type [of TOKEN_STATE_WHITESPACE "[]" inp'] show ?thesis by auto
  next
    case False
    have "fst (snd (ParseToken inp)) \<noteq> []"
      using False Cons by (simp add: ParseToken_def ParseToken_loop_value)
    with assms(1) show ?thesis by simp
  qed
qed

section \<open>Lexing known text\<close>

text \<open>
  The words the printer can write back: an unquoted word without a delimiter, and a quoted one
  that holds neither its quote nor a backslash.
\<close>

definition plain_word :: "string \<Rightarrow> bool" where
  "plain_word t \<longleftrightarrow> t \<noteq> [] \<and> hd t \<noteq> CHR ''#'' \<and> list_all (\<lambda>c. \<not> ends_normal c) t"

definition quoted_word :: "string \<Rightarrow> bool" where
  "quoted_word t \<longleftrightarrow>
     length t \<ge> 2 \<and> (hd t = SQ \<or> hd t = DQ) \<and> last t = hd t \<and>
     list_all (\<lambda>c. c \<noteq> hd t \<and> c \<noteq> BSL) (butlast (tl t))"

definition word_type :: "string \<Rightarrow> TokenType" where
  "word_type t = (if quoted_word t then TOKEN_TYPE_QUOTED_STRING else TOKEN_TYPE_NORMAL)"

lemma ParseToken_loop_ws:
  assumes "list_all is_ws w" and "r = [] \<or> \<not> is_ws (hd r)"
  shows "\<exists>u. ParseToken_loop TOKEN_STATE_WHITESPACE v (w @ r) =
    (if r = [] then TOKEN_TYPE_EOF else TOKEN_TYPE_WHITESPACE, u, r)"
  using assms(1)
proof (induction w arbitrary: v)
  case Nil
  with assms(2) show ?case by (cases r) auto
qed simp

lemma ParseToken_ws:
  assumes "list_all is_ws w" and "w \<noteq> []" and "r \<noteq> []" and "\<not> is_ws (hd r)"
  shows "\<exists>u. ParseToken (w @ r) = (TOKEN_TYPE_WHITESPACE, u, r)"
proof (cases w)
  case (Cons c w')
  with assms(1) have c: "is_ws c" "list_all is_ws w'" by auto
  then have "ParseToken (w @ r) = ParseToken_loop TOKEN_STATE_WHITESPACE [] (w' @ r)"
    using Cons by (auto simp: ParseToken_def is_ws_def)
  with ParseToken_loop_ws [OF c(2), of r "[]"] assms(3,4) show ?thesis by simp
qed (use assms(2) in simp)

lemma ParseToken_ws_eof:
  assumes "list_all is_ws w"
  shows "\<exists>u. ParseToken w = (TOKEN_TYPE_EOF, u, [])"
proof (cases w)
  case (Cons c w')
  with assms have c: "is_ws c" "list_all is_ws w'" by auto
  then have "ParseToken w = ParseToken_loop TOKEN_STATE_WHITESPACE [] (w' @ [])"
    using Cons by (auto simp: ParseToken_def is_ws_def)
  with ParseToken_loop_ws [OF c(2), of "[]" "[]"] show ?thesis by simp
qed (simp add: ParseToken_def)

lemma ParseToken_loop_normal:
  assumes "list_all (\<lambda>c. \<not> ends_normal c) t" and "ends_normal d"
  shows "ParseToken_loop TOKEN_STATE_TOKEN_TYPE_NORMAL v (t @ d # r) = (TOKEN_TYPE_NORMAL, v @ t, d # r)"
  using assms by (induction t arbitrary: v) auto

lemma ParseToken_plain:
  assumes "plain_word t" and "ends_normal d"
  shows "ParseToken (t @ d # r) = (TOKEN_TYPE_NORMAL, t, d # r)"
proof (cases t)
  case (Cons c t')
  with assms(1) have c: "\<not> ends_normal c" "c \<noteq> CHR ''#''" "list_all (\<lambda>c. \<not> ends_normal c) t'"
    by (auto simp: plain_word_def)
  then have "ParseToken (t @ d # r) = ParseToken_loop TOKEN_STATE_TOKEN_TYPE_NORMAL [c] (t' @ d # r)"
    using Cons by (auto simp: ParseToken_def ends_normal_def)
  with ParseToken_loop_normal [OF c(3) assms(2), of "[c]" r] Cons show ?thesis by simp
qed (use assms(1) in \<open>simp add: plain_word_def\<close>)

lemma ParseToken_loop_quoted:
  assumes "st = TOKEN_STATE_SINGLE_QUOTE \<or> st = TOKEN_STATE_DOUBLE_QUOTE"
    and "list_all (\<lambda>c. c \<noteq> closing_quote st \<and> c \<noteq> BSL) t" and "follows_quoted d"
  shows "ParseToken_loop st v (t @ closing_quote st # d # r) =
    (TOKEN_TYPE_QUOTED_STRING, v @ t @ [closing_quote st], d # r)"
  using assms(2)
proof (induction t arbitrary: v)
  case Nil
  with assms(1,3) show ?case by (auto simp: closing_quote_def ParseToken_quoted_eqs)
next
  case (Cons c t)
  with assms(1) show ?case by (auto simp: ParseToken_quoted_eqs)
qed

lemma quoted_word_split:
  assumes "quoted_word t"
  obtains q u where "t = q # u @ [q]" "q = SQ \<or> q = DQ" "list_all (\<lambda>c. c \<noteq> q \<and> c \<noteq> BSL) u"
proof -
  from assms obtain q t' where t: "t = q # t'" "t' \<noteq> []"
    by (cases t; cases "tl t") (auto simp: quoted_word_def)
  with assms have "t' = butlast t' @ [q]" "q = SQ \<or> q = DQ"
      "list_all (\<lambda>c. c \<noteq> q \<and> c \<noteq> BSL) (butlast t')"
    by (auto simp: quoted_word_def) (metis append_butlast_last_id)+
  with t that show ?thesis by metis
qed

lemma ParseToken_quoted:
  assumes "quoted_word t" and "follows_quoted d"
  shows "ParseToken (t @ d # r) = (TOKEN_TYPE_QUOTED_STRING, t, d # r)"
proof -
  from assms(1) obtain q u where q: "t = q # u @ [q]" "q = SQ \<or> q = DQ"
    "list_all (\<lambda>c. c \<noteq> q \<and> c \<noteq> BSL) u" by (rule quoted_word_split)
  from q(2) show ?thesis
  proof
    assume "q = SQ"
    with q ParseToken_loop_quoted [of TOKEN_STATE_SINGLE_QUOTE u d "[SQ]" r] assms(2)
    show ?thesis by (simp add: ParseToken_def closing_quote_def)
  next
    assume "q = DQ"
    with q ParseToken_loop_quoted [of TOKEN_STATE_DOUBLE_QUOTE u d "[DQ]" r] assms(2)
    show ?thesis by (simp add: ParseToken_def closing_quote_def)
  qed
qed

lemma follows_quoted_ends_normal: "follows_quoted d \<Longrightarrow> ends_normal d"
  by (auto simp: follows_quoted_def ends_normal_def)

lemma ParseToken_word:
  assumes "plain_word t \<or> quoted_word t" and "follows_quoted d"
  shows "ParseToken (t @ d # r) = (word_type t, t, d # r)"
proof (cases "quoted_word t")
  case True
  then show ?thesis using assms(2) by (simp add: word_type_def ParseToken_quoted)
next
  case False
  with assms show ?thesis
    by (simp add: word_type_def ParseToken_plain follows_quoted_ends_normal)
qed

lemma ParseToken_punctuation:
  "ParseToken (CHR '';'' # r) = (TOKEN_TYPE_STATEMENT_END, '';'', r)"
  "ParseToken (CHR ''{'' # r) = (TOKEN_TYPE_START_BLOCK, ''{'', r)"
  "ParseToken (CHR ''}'' # r) = (TOKEN_TYPE_END_BLOCK, ''}'', r)"
  by (simp_all add: ParseToken_def)

end
