(* ===== verification/Config_Parser_Sound.thy ===== *)
theory Config_Parser_Sound
  imports Config_Parser
begin

text \<open>
  What \<open>Parse\<close> guarantees on every input: it never uses \<open>back()\<close> of an empty vector and never
  pops the caller's block; it keeps every tree well formed; and when it accepts, the tree holds
  exactly the tokens of the input, in order, with their braces and semicolons.
\<close>

section \<open>The invariant of the loop\<close>

definition parse_inv :: "parse_state \<Rightarrow> bool" where
  "parse_inv p \<longleftrightarrow>
     config_stack p \<noteq> [] \<and>
     depth p = int (length (config_stack p)) - 1 \<and>
     [] \<notin> set (tl (config_stack p)) \<and>
     list_all statements_ok (config_stack p) \<and>
     (word_before p \<longrightarrow> hd (config_stack p) \<noteq> [] \<and> child_block (last (hd (config_stack p))) = None)"

definition outcome_state :: "parse_outcome \<Rightarrow> parse_state" where
  "outcome_state out = (case out of Continue p \<Rightarrow> p | Return b p \<Rightarrow> p)"

lemma outcome_state_simps [simp]:
  "outcome_state (Continue p) = p" "outcome_state (Return b p) = p"
  by (simp_all add: outcome_state_def)

lemma shift_token_sel [simp]:
  "config_stack (shift_token t p) = config_stack p"
  "depth (shift_token t p) = depth p"
  "last_token_type (shift_token t p) = t"
  "second_last_token_type (shift_token t p) = last_token_type p"
  by (simp_all add: shift_token_def)

lemma with_top_sel [simp]:
  "config_stack (with_top ss p) = ss # tl (config_stack p)"
  "depth (with_top ss p) = depth p"
  "last_token_type (with_top ss p) = last_token_type p"
  "second_last_token_type (with_top ss p) = second_last_token_type p"
  by (simp_all add: with_top_def)

text \<open>After a shift, a word stands before the position exactly when the shifted token says so.\<close>

lemma word_before_shift:
  "word_before (shift_token t p) \<longleftrightarrow>
     t = TOKEN_TYPE_NORMAL \<or> t = TOKEN_TYPE_QUOTED_STRING \<or>
     t = TOKEN_TYPE_WHITESPACE \<and>
       (last_token_type p = TOKEN_TYPE_NORMAL \<or> last_token_type p = TOKEN_TYPE_QUOTED_STRING)"
  by (auto simp: word_before_def ws_after_def)

lemma parse_inv_initial: "config_ok c \<Longrightarrow> parse_inv (initial_parse_state c)"
  by (cases c) (auto simp: parse_inv_def initial_parse_state_def word_before_def ws_after_def)

lemma back_push_token_ok:
  assumes "statements_ok (butlast ss)" and "ss \<noteq> []" and "child_block (last ss) = None"
    and "[] \<notin> set (tokens (last ss))" and "token \<noteq> []"
  shows "\<exists>ts. back_push_token token ss = Inr (butlast ss @ [NginxConfigStatement ts None]) \<and>
    ts = tokens (last ss) @ [token] \<and> statements_ok (butlast ss @ [NginxConfigStatement ts None])"
  using assms by (auto simp: back_push_token_def)

lemma statements_ok_last:
  "statements_ok ss \<Longrightarrow> ss \<noteq> [] \<Longrightarrow>
     statements_ok (butlast ss) \<and> statement_ok (last ss)"
  by (metis append_butlast_last_id statements_ok.simps statements_ok_append)

lemma parse_inv_frames:
  assumes "parse_inv p"
  obtains top frames where "config_stack p = top # frames" and "statements_ok top"
    and "list_all statements_ok frames" and "[] \<notin> set frames"
    and "depth p = int (length frames)"
    and "word_before p \<Longrightarrow> top \<noteq> [] \<and> child_block (last top) = None"
  using assms by (cases "config_stack p") (auto simp: parse_inv_def)

text \<open>Each kind of token keeps the invariant and faults never.\<close>

lemma step_word_inv:
  assumes inv: "parse_inv p" and tok: "token \<noteq> []"
    and tt: "tt = TOKEN_TYPE_NORMAL \<or> tt = TOKEN_TYPE_QUOTED_STRING"
  shows "\<exists>out. step_word tt token p = Inr out \<and> parse_inv (outcome_state out)"
proof -
  from inv obtain top frames where f: "config_stack p = top # frames" "statements_ok top"
    "list_all statements_ok frames" "[] \<notin> set frames" "depth p = int (length frames)"
    "word_before p \<Longrightarrow> top \<noteq> [] \<and> child_block (last top) = None"
    by (rule parse_inv_frames) blast
  let ?cont = "ws_after TOKEN_TYPE_NORMAL p \<or> ws_after TOKEN_TYPE_QUOTED_STRING p"
  let ?top = "if \<not> ?cont then top @ [NginxConfigStatement [] None] else top"
  have "statements_ok (butlast ?top)" "?top \<noteq> []" "child_block (last ?top) = None"
    "[] \<notin> set (tokens (last ?top))"
    using f statements_ok_last [of top] statement_ok_tokens [of "last top"]
    by (auto simp: word_before_def)
  from back_push_token_ok [OF this tok] obtain ts where
    push: "back_push_token token ?top = Inr (butlast ?top @ [NginxConfigStatement ts None])"
      "statements_ok (butlast ?top @ [NginxConfigStatement ts None])" by blast
  then show ?thesis
    using f inv tt
    by (auto simp: step_word_def Let_def parse_inv_def word_before_shift)
qed

lemma step_start_block_inv:
  assumes inv: "parse_inv p"
  shows "\<exists>out. step_start_block p = Inr out \<and> parse_inv (outcome_state out)"
proof -
  from inv obtain top frames where f: "config_stack p = top # frames" "statements_ok top"
    "list_all statements_ok frames" "[] \<notin> set frames" "depth p = int (length frames)"
    "word_before p \<Longrightarrow> top \<noteq> [] \<and> child_block (last top) = None"
    by (rule parse_inv_frames) blast
  have "statements_ok (butlast top @ [NginxConfigStatement (tokens (last top)) (Some (NginxConfig []))])"
    if "top \<noteq> []"
    using that f(2) statements_ok_last [of top] statement_ok_tokens [of "last top"] by simp
  then show ?thesis
    using f inv
    by (auto simp: step_start_block_def back_reset_child_def parse_inv_def word_before_shift)
qed

lemma set_child_ok:
  "statements_ok block \<Longrightarrow> statements_ok ss \<Longrightarrow> ss \<noteq> [] \<Longrightarrow>
     statements_ok (set_child block ss) \<and> set_child block ss \<noteq> []"
  using statements_ok_last [of ss] statement_ok_tokens [of "last ss"] by (simp add: set_child_def)

lemma step_end_block_inv:
  assumes inv: "parse_inv p"
  shows "\<exists>out. step_end_block p = Inr out \<and> parse_inv (outcome_state out)"
proof -
  from inv obtain top frames where f: "config_stack p = top # frames" "statements_ok top"
    "list_all statements_ok frames" "[] \<notin> set frames" "depth p = int (length frames)"
    by (rule parse_inv_frames) blast
  show ?thesis
  proof (cases frames)
    case Nil
    with f inv show ?thesis by (auto simp: step_end_block_def)
  next
    case (Cons parent fs)
    with f set_child_ok [of top parent] inv show ?thesis
      by (auto simp: step_end_block_def parse_inv_def word_before_shift)
  qed
qed

lemma parse_step_inv:
  assumes "parse_inv p"
    and "tt = TOKEN_TYPE_NORMAL \<or> tt = TOKEN_TYPE_QUOTED_STRING \<Longrightarrow> token \<noteq> []"
  shows "\<exists>out. parse_step tt token p = Inr out \<and> parse_inv (outcome_state out)"
proof (cases tt)
  case TOKEN_TYPE_NORMAL
  with assms step_word_inv show ?thesis by (simp add: parse_step_def)
next
  case TOKEN_TYPE_QUOTED_STRING
  with assms step_word_inv show ?thesis by (simp add: parse_step_def)
next
  case TOKEN_TYPE_START_BLOCK
  with assms step_start_block_inv show ?thesis by (simp add: parse_step_def)
next
  case TOKEN_TYPE_END_BLOCK
  with assms step_end_block_inv show ?thesis by (simp add: parse_step_def)
next
  case TOKEN_TYPE_WHITESPACE
  with assms(1) show ?thesis
    by (auto simp: parse_step_def parse_inv_def word_before_shift)
      (auto simp: word_before_def)
qed (use assms(1) in \<open>auto simp: parse_step_def step_statement_end_def step_eof_def parse_inv_def
       word_before_shift\<close>)

text \<open>So the loop returns a flag and a state on every input, and the state satisfies the invariant.\<close>

lemma parse_loop_inv:
  "parse_inv p \<Longrightarrow> \<exists>b p'. parse_loop p inp = Inr (b, p') \<and> parse_inv p'"
proof (induction p inp rule: parse_loop.induct)
  case (1 p inp)
  obtain tt v rest where tok: "ParseToken inp = (tt, v, rest)" by (metis prod_cases3)
  then have "tt = TOKEN_TYPE_NORMAL \<or> tt = TOKEN_TYPE_QUOTED_STRING \<Longrightarrow> v \<noteq> []"
    by (rule ParseToken_value_nonempty)
  with 1(2) obtain out where out: "parse_step tt v p = Inr out" "parse_inv (outcome_state out)"
    using parse_step_inv by blast
  show ?case
  proof (cases out)
    case (Continue p')
    with out tok 1(1) show ?thesis by (subst parse_loop.simps) auto
  next
    case (Return b p')
    with out tok show ?thesis by (subst parse_loop.simps) auto
  qed
qed

lemma collapse_ok:
  "frames \<noteq> [] \<Longrightarrow> [] \<notin> set (tl frames) \<Longrightarrow> list_all statements_ok frames \<Longrightarrow> config_ok (collapse frames)"
proof (induction frames rule: collapse.induct)
  case (3 ss ps fs)
  with set_child_ok [of ss ps] show ?case by auto
qed auto

lemma Parse_ok:
  assumes "config_ok config"
  shows "\<exists>b c. Parse inp config = Inr (b, c) \<and> config_ok c"
proof -
  from parse_loop_inv [OF parse_inv_initial [OF assms], of inp] obtain b p where
    "parse_loop (initial_parse_state config) inp = Inr (b, p)" "parse_inv p" by blast
  then show ?thesis by (auto simp: Parse_def parse_inv_def intro!: collapse_ok)
qed

lemma Parse_file_ok:
  assumes "config_ok config"
  shows "\<exists>b c. Parse_file read_file file_name config = Inr (b, c) \<and> config_ok c"
proof (cases "read_file file_name")
  case None
  with assms show ?thesis by (auto simp: Parse_file_def)
next
  case (Some inp)
  with Parse_ok [OF assms, of inp] show ?thesis by (simp add: Parse_file_def)
qed

text \<open>
  C3: on every file the configuration parser returns (it neither runs forever nor
  touches an empty statement list, a null block or an empty stack), and the tree it leaves has no
  empty statement and no empty token, also when it reports an error or the file cannot be read.
\<close>

theorem Parse_total:
  assumes "config_ok config"
  shows "\<exists>b c. Parse_file read_file file_name config = Inr (b, c) \<and> config_ok c"
  using assms by (rule Parse_file_ok)

lemma Parse_total_witness:
  "\<exists>b c. Parse_file (\<lambda>n. Some ''location /x { root'') ''conf'' (NginxConfig []) = Inr (b, c) \<and> config_ok c"
  by (rule Parse_total) simp

section \<open>No token is lost or made up\<close>

text \<open>The tokens a tree was written with, and those of an input (white space and comments apart).\<close>

fun flatten :: "NginxConfig \<Rightarrow> string list"
  and flatten_statements :: "NginxConfigStatement list \<Rightarrow> string list"
  and flatten_statement :: "NginxConfigStatement \<Rightarrow> string list" where
  "flatten (NginxConfig ss) = flatten_statements ss"
| "flatten_statements [] = []"
| "flatten_statements (s # ss) = flatten_statement s @ flatten_statements ss"
| "flatten_statement (NginxConfigStatement ts None) = ts @ ['';'']"
| "flatten_statement (NginxConfigStatement ts (Some block)) = ts @ [''{''] @ flatten block @ [''}'']"

definition is_blank :: "TokenType \<Rightarrow> bool" where
  "is_blank tt \<longleftrightarrow> tt = TOKEN_TYPE_WHITESPACE \<or> tt = TOKEN_TYPE_COMMENT"

function significant_tokens :: "string \<Rightarrow> string list" where
  "significant_tokens inp =
     (case ParseToken inp of (tt, v, rest) \<Rightarrow>
        if tt = TOKEN_TYPE_EOF \<or> tt = TOKEN_TYPE_ERROR then []
        else (if is_blank tt then [] else [v]) @ significant_tokens rest)"
  by pat_completeness auto
termination
  by (relation "measure length") (auto dest: ParseToken_rest_less [OF sym])

declare significant_tokens.simps [simp del]

lemma flatten_statements_append [simp]:
  "flatten_statements (ss @ rs) = flatten_statements ss @ flatten_statements rs"
  by (induction ss) auto

definition open_frame :: "NginxConfigStatement list \<Rightarrow> string list" where
  "open_frame ss = flatten_statements (butlast ss) @ tokens (last ss)"

text \<open>The tokens read so far, as the frames record them.\<close>

definition written :: "parse_state \<Rightarrow> string list" where
  "written p =
     concat (map (\<lambda>ss. open_frame ss @ [''{'']) (rev (tl (config_stack p)))) @
     (if word_before p then open_frame (hd (config_stack p))
      else flatten_statements (hd (config_stack p)))"

lemma flatten_last:
  "ss \<noteq> [] \<Longrightarrow> child_block (last ss) = None \<Longrightarrow> flatten_statements ss = open_frame ss @ ['';'']"
proof -
  assume ne: "ss \<noteq> []" and "child_block (last ss) = None"
  then have "last ss = NginxConfigStatement (tokens (last ss)) None" by (cases "last ss") auto
  then have "flatten_statement (last ss) = tokens (last ss) @ ['';'']"
    by (metis flatten_statement.simps(1))
  then show ?thesis
    using append_butlast_last_id [OF ne] flatten_statements_append [of "butlast ss" "[last ss]"]
    by (simp add: open_frame_def)
qed

lemma open_frame_snoc [simp]: "open_frame (ss @ [s]) = flatten_statements ss @ tokens s"
  by (simp add: open_frame_def)

lemma flatten_set_child:
  "flatten_statements (set_child block ss) = open_frame ss @ [''{''] @ flatten_statements block @ [''}'']"
  by (simp add: set_child_def open_frame_def)

lemma open_frame_push:
  "back_push_token token ss = Inr ss' \<Longrightarrow> open_frame ss' = open_frame ss @ [token]"
  by (auto simp: back_push_token_def open_frame_def split: if_splits)

lemma open_frame_reset:
  "back_reset_child b ss = Inr ss' \<Longrightarrow> open_frame ss' = open_frame ss"
  by (auto simp: back_reset_child_def open_frame_def split: if_splits)

lemma word_before_ws:
  "last_token_type p \<noteq> TOKEN_TYPE_WHITESPACE \<Longrightarrow>
     word_before (shift_token TOKEN_TYPE_WHITESPACE p) = word_before p"
  by (auto simp: word_before_shift) (auto simp: word_before_def ws_after_def)

lemma step_word_written:
  assumes "parse_inv p" and "tt = TOKEN_TYPE_NORMAL \<or> tt = TOKEN_TYPE_QUOTED_STRING"
    and step: "step_word tt token p = Inr (Continue p')"
  shows "written p' = written p @ [token]"
proof -
  from assms(1) obtain top frames where f: "config_stack p = top # frames"
    by (rule parse_inv_frames) blast
  let ?cont = "ws_after TOKEN_TYPE_NORMAL p \<or> ws_after TOKEN_TYPE_QUOTED_STRING p"
  let ?top = "if \<not> ?cont then top @ [NginxConfigStatement [] None] else top"
  from step f obtain top' where push: "back_push_token token ?top = Inr top'"
    and p': "p' = shift_token tt (with_top top' p)"
    and cont: "word_before p \<longleftrightarrow> ?cont"
    by (auto simp: step_word_def Let_def result_iff word_before_def ws_after_def split: if_splits)
  have "word_before p'" using p' assms(2) by (auto simp: word_before_shift)
  with f p' open_frame_push [OF push] cont show ?thesis
    by (auto simp: written_def)
qed

lemma step_end_block_written:
  assumes "parse_inv p" and step: "step_end_block p = Inr (Continue p')"
  shows "written p' = written p @ [''}'']"
proof -
  from assms(1) obtain top frames where f: "config_stack p = top # frames"
    by (rule parse_inv_frames) blast
  have nw: "\<not> word_before p"
    using step by (auto simp: step_end_block_def word_before_def ws_after_def split: if_splits)
  from step f obtain parent fs where fs: "frames = parent # fs"
    and p': "p' = shift_token TOKEN_TYPE_END_BLOCK
      (p\<lparr>config_stack := set_child top parent # fs, depth := depth p - 1\<rparr>)"
    by (auto simp: step_end_block_def split: if_splits list.splits)
  have "\<not> word_before p'" using p' by (simp add: word_before_shift)
  with nw f fs p' show ?thesis by (simp add: written_def flatten_set_child)
qed

lemma ParseToken_punctuation_value:
  "ParseToken inp = (tt, v, rest) \<Longrightarrow>
     (tt = TOKEN_TYPE_STATEMENT_END \<longrightarrow> v = '';'') \<and>
     (tt = TOKEN_TYPE_START_BLOCK \<longrightarrow> v = ''{'') \<and> (tt = TOKEN_TYPE_END_BLOCK \<longrightarrow> v = ''}'')"
proof (cases inp)
  case (Cons c inp')
  assume "ParseToken inp = (tt, v, rest)"
  with Cons ParseToken_loop_type [of TOKEN_STATE_WHITESPACE "[]" inp']
    ParseToken_loop_type [of TOKEN_STATE_TOKEN_TYPE_NORMAL "[c]" inp']
    ParseToken_loop_type [of TOKEN_STATE_TOKEN_TYPE_COMMENT "[c]" inp']
    ParseToken_loop_type [of TOKEN_STATE_SINGLE_QUOTE "[c]" inp']
    ParseToken_loop_type [of TOKEN_STATE_DOUBLE_QUOTE "[c]" inp']
  show ?thesis by (auto simp: ParseToken_def split: if_splits)
qed (simp add: ParseToken_def)

lemma parse_step_written:
  assumes inv: "parse_inv p" and tok: "ParseToken inp = (tt, v, rest)"
    and step: "parse_step tt v p = Inr (Continue p')"
  shows "written p' = written p @ (if is_blank tt then [] else [v])"
proof (cases tt)
  case TOKEN_TYPE_NORMAL
  with step step_word_written [OF inv, of tt v p'] show ?thesis
    by (simp add: parse_step_def is_blank_def)
next
  case TOKEN_TYPE_QUOTED_STRING
  with step step_word_written [OF inv, of tt v p'] show ?thesis
    by (simp add: parse_step_def is_blank_def)
next
  case TOKEN_TYPE_WHITESPACE
  with step show ?thesis
    by (auto simp: parse_step_def is_blank_def written_def word_before_ws split: if_splits)
next
  case TOKEN_TYPE_STATEMENT_END
  with step ParseToken_punctuation_value [OF tok] inv flatten_last [of "hd (config_stack p)"]
  show ?thesis
    by (auto simp: parse_step_def step_statement_end_def is_blank_def written_def
        word_before_shift parse_inv_def split: if_splits)
next
  case TOKEN_TYPE_START_BLOCK
  with step ParseToken_punctuation_value [OF tok] show ?thesis
    by (auto simp: parse_step_def step_start_block_def is_blank_def written_def result_iff
        word_before_shift open_frame_reset split: if_splits)
next
  case TOKEN_TYPE_END_BLOCK
  with step step_end_block_written [OF inv] ParseToken_punctuation_value [OF tok] show ?thesis
    by (simp add: parse_step_def is_blank_def)
qed (use step in \<open>auto simp: parse_step_def step_eof_def is_blank_def split: if_splits\<close>)

lemma parse_step_accept:
  "parse_step tt v p = Inr (Return True p') \<Longrightarrow>
     tt = TOKEN_TYPE_EOF \<and> p' = p \<and> depth p = 0 \<and> \<not> word_before p"
  by (auto simp: parse_step_def step_eof_def step_word_def step_statement_end_def
      step_start_block_def step_end_block_def result_iff word_before_def ws_after_def
      split: TokenType.splits if_splits list.splits)

lemma parse_loop_written:
  "parse_inv p \<Longrightarrow> parse_loop p inp = Inr (True, p') \<Longrightarrow>
     written p' = written p @ significant_tokens inp \<and> depth p' = 0 \<and> \<not> word_before p'"
proof (induction p inp rule: parse_loop.induct)
  case (1 p inp)
  obtain tt v rest where tok: "ParseToken inp = (tt, v, rest)" by (metis prod_cases3)
  then have v: "tt = TOKEN_TYPE_NORMAL \<or> tt = TOKEN_TYPE_QUOTED_STRING \<Longrightarrow> v \<noteq> []"
    by (rule ParseToken_value_nonempty)
  with 1(2) obtain out where out: "parse_step tt v p = Inr out" "parse_inv (outcome_state out)"
    using parse_step_inv by blast
  show ?case
  proof (cases out)
    case (Continue q)
    with out have q: "parse_step tt v p = Inr (Continue q)" "parse_inv q" by auto
    with 1(3) tok have "parse_loop q rest = Inr (True, p')"
      by (subst (asm) parse_loop.simps) simp
    with 1(1) tok q have "written p' = written q @ significant_tokens rest \<and> depth p' = 0 \<and> \<not> word_before p'"
      by simp
    with parse_step_written [OF 1(2) tok q(1)] parse_step_Continue_type [OF q(1)] tok
    show ?thesis by (subst significant_tokens.simps) simp
  next
    case (Return b q)
    with 1(3) tok out have "b = True" "q = p'" by (subst (asm) parse_loop.simps, simp)+
    with Return out parse_step_accept [of tt v p p'] tok
    show ?thesis by (subst significant_tokens.simps) simp
  qed
qed

text \<open>
  When the parser accepts an input, the tree it built has exactly the tokens of the
  input, in their order, the braces and semicolons at their places: the tree printed as tokens is
  the token sequence of the input after what the tree held before.
\<close>

theorem Parse_tokens:
  assumes "config_ok config" and "Parse inp config = Inr (True, c)"
  shows "flatten c = flatten config @ significant_tokens inp"
proof -
  from assms(2) obtain p where p: "parse_loop (initial_parse_state config) inp = Inr (True, p)"
    "c = collapse (config_stack p)" by (auto simp: Parse_def result_iff)
  have inv: "parse_inv (initial_parse_state config)" using assms(1) by (rule parse_inv_initial)
  from parse_loop_written [OF inv p(1)] have
    w: "written p = written (initial_parse_state config) @ significant_tokens inp"
      "depth p = 0" "\<not> word_before p" by auto
  from parse_loop_inv [OF inv, of inp] p(1) have "parse_inv p" by auto
  with w(2) obtain top where top: "config_stack p = [top]"
    by (cases "config_stack p"; cases "tl (config_stack p)") (auto simp: parse_inv_def)
  have "flatten c = written p" using p(2) top w(3) by (simp add: written_def)
  moreover have "written (initial_parse_state config) = flatten config"
    by (cases config) (simp add: written_def initial_parse_state_def word_before_def ws_after_def)
  ultimately show ?thesis using w(1) by simp
qed

lemma Parse_tokens_witness:
  "Parse ''port 80; x { y 1; }'' (NginxConfig []) = Inr (True, NginxConfig
     [NginxConfigStatement [''port'', ''80''] None,
      NginxConfigStatement [''x''] (Some (NginxConfig [NginxConfigStatement [''y'', ''1''] None]))]) \<and>
   significant_tokens ''port 80; x { y 1; }'' =
     [''port'', ''80'', '';'', ''x'', ''{'', ''y'', ''1'', '';'', ''}'']"
proof -
  let ?c = "NginxConfig
     [NginxConfigStatement [''port'', ''80''] None,
      NginxConfigStatement [''x''] (Some (NginxConfig [NginxConfigStatement [''y'', ''1''] None]))]"
  have p: "Parse ''port 80; x { y 1; }'' (NginxConfig []) = Inr (True, ?c)"
    by code_simp
  from Parse_tokens [OF _ p] show ?thesis using p by simp
qed

end
