(* ===== verification/Config_Roundtrip.thy ===== *)
theory Config_Roundtrip
  imports Config_Parser
begin

text \<open>
  \<open>Parse\<close> inverts \<open>ToString\<close>: printing a tree of printable words and parsing the text accepts
  and gives the same tree back.  A word is printable when the lexer reads it back as it is, that
  is, when it is an unquoted word without a delimiter or a quoted one without an escape.

  The proof runs the parser over the printed text, one printed statement at a time, from an
  arbitrary stack of open blocks and with arbitrary white space pending from what was printed
  before.
\<close>

definition printable_word :: "string \<Rightarrow> bool" where
  "printable_word t \<longleftrightarrow> plain_word t \<or> quoted_word t"

fun printable :: "NginxConfig \<Rightarrow> bool"
  and printable_statements :: "NginxConfigStatement list \<Rightarrow> bool"
  and printable_statement :: "NginxConfigStatement \<Rightarrow> bool" where
  "printable (NginxConfig ss) \<longleftrightarrow> printable_statements ss"
| "printable_statements [] \<longleftrightarrow> True"
| "printable_statements (s # ss) \<longleftrightarrow> printable_statement s \<and> printable_statements ss"
| "printable_statement (NginxConfigStatement ts None) \<longleftrightarrow> ts \<noteq> [] \<and> list_all printable_word ts"
| "printable_statement (NginxConfigStatement ts (Some block)) \<longleftrightarrow>
     ts \<noteq> [] \<and> list_all printable_word ts \<and> printable block"

section \<open>One step of the parser\<close>

definition mk_state :: "NginxConfigStatement list list \<Rightarrow> TokenType \<Rightarrow> TokenType \<Rightarrow> parse_state" where
  "mk_state frames l s =
     \<lparr>config_stack = frames, last_token_type = l, second_last_token_type = s,
      depth = int (length frames) - 1\<rparr>"

lemma mk_state_sel [simp]:
  "config_stack (mk_state fs l s) = fs" "last_token_type (mk_state fs l s) = l"
  "second_last_token_type (mk_state fs l s) = s" "depth (mk_state fs l s) = int (length fs) - 1"
  by (simp_all add: mk_state_def)

lemma shift_mk_state [simp]: "shift_token t (mk_state fs l s) = mk_state fs t l"
  by (simp add: shift_token_def mk_state_def)

lemma with_top_mk_state [simp]: "with_top ss (mk_state (rs # fs) l s) = mk_state (ss # fs) l s"
  by (simp add: with_top_def mk_state_def)

lemma parse_loop_continue:
  "ParseToken inp = (tt, v, rest) \<Longrightarrow> parse_step tt v p = Inr (Continue p') \<Longrightarrow>
     parse_loop p inp = parse_loop p' rest"
  by (subst parse_loop.simps) simp

text \<open>\<open>after x l s\<close>: the last token that is not white space was of type \<open>x\<close>.\<close>

definition after :: "TokenType set \<Rightarrow> TokenType \<Rightarrow> TokenType \<Rightarrow> bool" where
  "after X l s \<longleftrightarrow> l \<in> X \<or> l = TOKEN_TYPE_WHITESPACE \<and> s \<in> X"

abbreviation words :: "TokenType set" where
  "words \<equiv> {TOKEN_TYPE_NORMAL, TOKEN_TYPE_QUOTED_STRING}"

abbreviation starts :: "TokenType set" where
  "starts \<equiv> {TOKEN_TYPE_START, TOKEN_TYPE_STATEMENT_END, TOKEN_TYPE_START_BLOCK, TOKEN_TYPE_END_BLOCK}"

abbreviation closes :: "TokenType set" where
  "closes \<equiv> {TOKEN_TYPE_STATEMENT_END, TOKEN_TYPE_END_BLOCK}"

lemma parse_pending_ws:
  assumes "list_all is_ws w" and "\<not> is_ws c" and "l \<in> X" and "TOKEN_TYPE_WHITESPACE \<notin> X"
  shows "\<exists>l' s'. after (X \<inter> {l}) l' s' \<and>
    parse_loop (mk_state fs l s) (w @ c # r) = parse_loop (mk_state fs l' s') (c # r)"
proof (cases "w = []")
  case True
  with assms(3) show ?thesis by (auto simp: after_def)
next
  case False
  from assms(1,2) ParseToken_ws [OF assms(1) False, of "c # r"] obtain u where
    "ParseToken (w @ c # r) = (TOKEN_TYPE_WHITESPACE, u, c # r)" by auto
  moreover have "parse_step TOKEN_TYPE_WHITESPACE u (mk_state fs l s) =
      Inr (Continue (mk_state fs TOKEN_TYPE_WHITESPACE l))"
    using assms(3,4) by (auto simp: parse_step_def)
  ultimately have "parse_loop (mk_state fs l s) (w @ c # r) =
      parse_loop (mk_state fs TOKEN_TYPE_WHITESPACE l) (c # r)"
    by (rule parse_loop_continue)
  with assms(3) show ?thesis by (auto simp: after_def)
qed

lemma word_type_word [simp]: "word_type t \<in> words"
  by (simp add: word_type_def)

lemma parse_step_first_word:
  assumes "after starts l s"
  shows "parse_step (word_type t) t (mk_state (ss # fs) l s) =
    Inr (Continue (mk_state ((ss @ [NginxConfigStatement [t] None]) # fs) (word_type t) l))"
  using assms word_type_word [of t]
  by (auto simp: parse_step_def step_word_def ws_after_def after_def back_push_token_def)

lemma parse_step_next_word:
  assumes "l \<in> words"
  shows "parse_step (word_type t) t
      (mk_state ((ss @ [NginxConfigStatement ts None]) # fs) TOKEN_TYPE_WHITESPACE l) =
    Inr (Continue (mk_state ((ss @ [NginxConfigStatement (ts @ [t]) None]) # fs)
      (word_type t) TOKEN_TYPE_WHITESPACE))"
  using assms word_type_word [of t]
  by (auto simp: parse_step_def step_word_def ws_after_def back_push_token_def)

section \<open>The words of a statement\<close>

lemma join_tokens_Cons: "join_tokens (t # ts) = t @ concat (map ((#) SP) ts)"
  by (induction ts arbitrary: t) auto

lemma printable_word_hd: "printable_word t \<Longrightarrow> \<exists>c u. t = c # u \<and> \<not> is_ws c"
  by (cases t) (auto simp: printable_word_def plain_word_def quoted_word_def ends_normal_def is_ws_def)

lemma follows_quoted_simps [simp]:
  "follows_quoted SP" "follows_quoted (CHR '';'')" "follows_quoted (CHR ''{'')"
  by (auto simp: follows_quoted_def is_ws_def)

lemma is_ws_simps [simp]:
  "is_ws SP" "is_ws LF" "\<not> is_ws (CHR '';'')" "\<not> is_ws (CHR ''{'')" "\<not> is_ws (CHR ''}'')"
  by (auto simp: is_ws_def)

lemma parse_more_words:
  assumes "list_all printable_word us" and "follows_quoted d" and "l \<in> words"
  shows "\<exists>l' s'. l' \<in> words \<and>
    parse_loop (mk_state ((ss @ [NginxConfigStatement ts None]) # fs) l s)
      (concat (map ((#) SP) us) @ d # r) =
    parse_loop (mk_state ((ss @ [NginxConfigStatement (ts @ us) None]) # fs) l' s') (d # r)"
  using assms(1,3)
proof (induction us arbitrary: ts l s)
  case Nil
  then show ?case by auto
next
  case (Cons t us)
  let ?tail = "concat (map ((#) SP) us) @ d # r"
  from Cons.prems(1) obtain c u where t: "t = c # u" "\<not> is_ws c"
    using printable_word_hd [of t] by auto
  have "ParseToken ([SP] @ t @ ?tail) = (TOKEN_TYPE_WHITESPACE, [], t @ ?tail)"
    using t by (auto simp: ParseToken_def is_ws_def)
  moreover have "parse_step TOKEN_TYPE_WHITESPACE [] (mk_state fs' l s) =
      Inr (Continue (mk_state fs' TOKEN_TYPE_WHITESPACE l))" for fs'
    using Cons.prems(2) by (auto simp: parse_step_def)
  ultimately have 1: "parse_loop (mk_state ((ss @ [NginxConfigStatement ts None]) # fs) l s) ([SP] @ t @ ?tail) =
      parse_loop (mk_state ((ss @ [NginxConfigStatement ts None]) # fs) TOKEN_TYPE_WHITESPACE l) (t @ ?tail)"
    by (rule parse_loop_continue)
  obtain d' r' where d': "?tail = d' # r'" "follows_quoted d'"
    using assms(2) by (cases us) auto
  have "ParseToken (t @ ?tail) = (word_type t, t, ?tail)"
    using Cons.prems(1) d' by (simp add: ParseToken_word printable_word_def)
  from parse_loop_continue [OF this parse_step_next_word [OF Cons.prems(2)], of ss ts fs]
  have 2: "parse_loop (mk_state ((ss @ [NginxConfigStatement ts None]) # fs) TOKEN_TYPE_WHITESPACE l) (t @ ?tail) =
      parse_loop (mk_state ((ss @ [NginxConfigStatement (ts @ [t]) None]) # fs)
        (word_type t) TOKEN_TYPE_WHITESPACE) ?tail" .
  from Cons.IH [of "word_type t" "ts @ [t]" TOKEN_TYPE_WHITESPACE] Cons.prems(1) word_type_word
  show ?case using 1 2 by auto
qed

lemma parse_words:
  assumes "ts \<noteq> []" and "list_all printable_word ts" and "follows_quoted d"
    and "list_all is_ws w" and "l \<in> starts"
  shows "\<exists>l' s'. l' \<in> words \<and>
    parse_loop (mk_state (ss # fs) l s) (w @ join_tokens ts @ d # r) =
    parse_loop (mk_state ((ss @ [NginxConfigStatement ts None]) # fs) l' s') (d # r)"
proof -
  from assms(1,2) obtain t us where ts: "ts = t # us" "printable_word t" "list_all printable_word us"
    by (cases ts) auto
  then obtain c u where c: "t = c # u" "\<not> is_ws c" using printable_word_hd [of t] by auto
  let ?tail = "concat (map ((#) SP) us) @ d # r"
  obtain l1 s1 where
    "after starts l1 s1" and
    1: "parse_loop (mk_state (ss # fs) l s) (w @ t @ ?tail) = parse_loop (mk_state (ss # fs) l1 s1) (t @ ?tail)"
    using parse_pending_ws [OF assms(4) c(2) assms(5), of "ss # fs" s "u @ ?tail"] c(1)
    by (auto simp: after_def)
  obtain d' r' where d': "?tail = d' # r'" "follows_quoted d'"
    using assms(3) by (cases us) auto
  have "ParseToken (t @ ?tail) = (word_type t, t, ?tail)"
    using ts(2) d' by (simp add: ParseToken_word printable_word_def)
  from parse_loop_continue [OF this parse_step_first_word [OF \<open>after starts l1 s1\<close>], of ss fs]
  have 2: "parse_loop (mk_state (ss # fs) l1 s1) (t @ ?tail) =
      parse_loop (mk_state ((ss @ [NginxConfigStatement [t] None]) # fs) (word_type t) l1) ?tail" .
  from parse_more_words [OF ts(3) assms(3) word_type_word [of t], of ss "[t]" fs l1 r] 1 2 ts(1)
  show ?thesis by (simp add: join_tokens_Cons)
qed

section \<open>The end of a statement, and the braces\<close>

lemma parse_statement_end:
  assumes "l \<in> words"
  shows "parse_loop (mk_state fs l s) (CHR '';'' # r) = parse_loop (mk_state fs TOKEN_TYPE_STATEMENT_END l) r"
  by (rule parse_loop_continue [OF ParseToken_punctuation(1)])
    (use assms in \<open>auto simp: parse_step_def step_statement_end_def word_before_def\<close>)

lemma parse_start_block:
  assumes "l \<in> words"
  shows "\<exists>s'. parse_loop (mk_state ((ss @ [NginxConfigStatement ts None]) # fs) l s) (SP # CHR ''{'' # r) =
    parse_loop (mk_state ([] # (ss @ [NginxConfigStatement ts (Some (NginxConfig []))]) # fs)
      TOKEN_TYPE_START_BLOCK s') r"
proof -
  let ?fs = "(ss @ [NginxConfigStatement ts None]) # fs"
  from parse_pending_ws [of "[SP]" "CHR ''{''" l words ?fs s r] assms obtain l1 s1 where
    l1: "after words l1 s1" and
    1: "parse_loop (mk_state ?fs l s) (SP # CHR ''{'' # r) = parse_loop (mk_state ?fs l1 s1) (CHR ''{'' # r)"
    by (auto simp: after_def)
  have "parse_step TOKEN_TYPE_START_BLOCK ''{'' (mk_state ?fs l1 s1) =
      Inr (Continue (mk_state ([] # (ss @ [NginxConfigStatement ts (Some (NginxConfig []))]) # fs)
        TOKEN_TYPE_START_BLOCK l1))"
    using l1 by (auto simp: parse_step_def step_start_block_def word_before_def ws_after_def
        after_def back_reset_child_def mk_state_def shift_token_def)
  from parse_loop_continue [OF ParseToken_punctuation(2) this] 1 show ?thesis by auto
qed

lemma parse_end_block:
  assumes "list_all is_ws w" and "l \<in> {TOKEN_TYPE_START_BLOCK} \<union> closes"
  shows "\<exists>s'. parse_loop (mk_state (block # (ss @ [NginxConfigStatement ts (Some b)]) # fs) l s) (w @ CHR ''}'' # r) =
    parse_loop (mk_state ((ss @ [NginxConfigStatement ts (Some (NginxConfig block))]) # fs)
      TOKEN_TYPE_END_BLOCK s') r"
proof -
  let ?fs = "block # (ss @ [NginxConfigStatement ts (Some b)]) # fs"
  from parse_pending_ws [of w "CHR ''}''" l "{TOKEN_TYPE_START_BLOCK} \<union> closes" ?fs s r] assms
  obtain l1 s1 where l1: "after ({TOKEN_TYPE_START_BLOCK} \<union> closes) l1 s1" and
    1: "parse_loop (mk_state ?fs l s) (w @ CHR ''}'' # r) = parse_loop (mk_state ?fs l1 s1) (CHR ''}'' # r)"
    by (auto simp: after_def)
  have "parse_step TOKEN_TYPE_END_BLOCK ''}'' (mk_state ?fs l1 s1) =
      Inr (Continue (mk_state ((ss @ [NginxConfigStatement ts (Some (NginxConfig block))]) # fs)
        TOKEN_TYPE_END_BLOCK l1))"
    using l1 by (auto simp: parse_step_def step_end_block_def ws_after_def after_def set_child_def
        mk_state_def shift_token_def)
  from parse_loop_continue [OF ParseToken_punctuation(3) this] 1 show ?thesis by auto
qed

section \<open>The printed tree\<close>

lemma indent_ws: "list_all is_ws (indent n)"
  by (induction n) (auto simp: indent_def)

lemma parse_statements:
  fixes c and ss' and s'
  shows
  "printable c \<Longrightarrow> list_all is_ws w \<Longrightarrow> l \<in> starts \<Longrightarrow>
     \<exists>l' s'' w'. (l' = l \<or> l' \<in> closes) \<and> list_all is_ws w' \<and>
       parse_loop (mk_state (ss # fs) l s) (w @ ToString c d @ r) =
       parse_loop (mk_state ((ss @ statements c) # fs) l' s'') (w' @ r)"
  "printable_statements ss' \<Longrightarrow> list_all is_ws w \<Longrightarrow> l \<in> starts \<Longrightarrow>
     \<exists>l' s'' w'. (l' = l \<or> l' \<in> closes) \<and> list_all is_ws w' \<and>
       parse_loop (mk_state (ss # fs) l s) (w @ statements_ToString ss' d @ r) =
       parse_loop (mk_state ((ss @ ss') # fs) l' s'') (w' @ r)"
  "printable_statement s' \<Longrightarrow> list_all is_ws w \<Longrightarrow> l \<in> starts \<Longrightarrow>
     \<exists>l' s''. l' \<in> closes \<and>
       parse_loop (mk_state (ss # fs) l s) (w @ statement_ToString s' d @ r) =
       parse_loop (mk_state ((ss @ [s']) # fs) l' s'') (LF # r)"
proof (induction c d and ss' d and s' d arbitrary: ss fs l s w r and ss fs l s w r and ss fs l s w r
    rule: ToString_statements_ToString_statement_ToString.induct)
  case (1 ss' d)
  then show ?case by simp
next
  case (2 d)
  then show ?case by (intro exI [of _ l] exI [of _ s] exI [of _ w]) simp
next
  case (3 s' ss' d)
  let ?rest = "statements_ToString ss' d @ r"
  from 3 have "printable_statement s'" "printable_statements ss'" by auto
  from 3(1) [OF this(1) 3(4,5), of ss fs s ?rest] obtain l1 s1 where l1: "l1 \<in> closes" and
    1: "parse_loop (mk_state (ss # fs) l s) (w @ statement_ToString s' d @ ?rest) =
        parse_loop (mk_state ((ss @ [s']) # fs) l1 s1) ([LF] @ ?rest)" by auto
  have "list_all is_ws [LF]" "l1 \<in> starts" using l1 by auto
  from 3(2) [OF \<open>printable_statements ss'\<close> this, of "ss @ [s']" fs s1 r] obtain l2 s2 w2 where
    2: "l2 = l1 \<or> l2 \<in> closes" "list_all is_ws w2"
       "parse_loop (mk_state ((ss @ [s']) # fs) l1 s1) ([LF] @ ?rest) =
        parse_loop (mk_state ((ss @ s' # ss') # fs) l2 s2) (w2 @ r)" by auto
  from 1 2 l1 show ?case
    by (intro exI [of _ l2] exI [of _ s2] exI [of _ w2]) auto
next
  case (4 ts d)
  from 4 have ts: "ts \<noteq> []" "list_all printable_word ts" by auto
  have "list_all is_ws (w @ indent d)" using 4 indent_ws by simp
  from parse_words [OF ts follows_quoted_simps(2) this 4(3), of ss fs s "LF # r"]
  obtain l1 s1 where l1: "l1 \<in> words" and
    1: "parse_loop (mk_state (ss # fs) l s) (w @ statement_ToString (NginxConfigStatement ts None) d @ r) =
       parse_loop (mk_state ((ss @ [NginxConfigStatement ts None]) # fs) l1 s1) (CHR '';'' # LF # r)"
    by auto
  with parse_statement_end [OF l1] show ?case by auto
next
  case (5 ts block d)
  let ?inner = "ToString block (d + 1) @ indent d @ CHR ''}'' # LF # r"
  from 5 have ts: "ts \<noteq> []" "list_all printable_word ts" and b: "printable block" by auto
  have "list_all is_ws (w @ indent d)" using 5 indent_ws by simp
  from parse_words [OF ts follows_quoted_simps(1) this 5(4), of ss fs s "CHR ''{'' # LF # ?inner"]
  obtain l1 s1 where l1: "l1 \<in> words" and
    1: "parse_loop (mk_state (ss # fs) l s) (w @ statement_ToString (NginxConfigStatement ts (Some block)) d @ r) =
       parse_loop (mk_state ((ss @ [NginxConfigStatement ts None]) # fs) l1 s1) (SP # CHR ''{'' # LF # ?inner)"
    by auto
  let ?parent = "ss @ [NginxConfigStatement ts (Some (NginxConfig []))]"
  from parse_start_block [OF l1, of ss ts fs s1 "LF # ?inner"] obtain s2 where
    2: "parse_loop (mk_state ((ss @ [NginxConfigStatement ts None]) # fs) l1 s1) (SP # CHR ''{'' # LF # ?inner) =
        parse_loop (mk_state ([] # ?parent # fs) TOKEN_TYPE_START_BLOCK s2) ([LF] @ ?inner)" by auto
  from 5(1) [OF b, of "[LF]" TOKEN_TYPE_START_BLOCK "[]" "?parent # fs" s2 "indent d @ CHR ''}'' # LF # r"]
  obtain l3 s3 w3 where l3: "l3 \<in> {TOKEN_TYPE_START_BLOCK} \<union> closes" "list_all is_ws (w3 @ indent d)" and
    3: "parse_loop (mk_state ([] # ?parent # fs) TOKEN_TYPE_START_BLOCK s2) ([LF] @ ?inner) =
        parse_loop (mk_state (statements block # ?parent # fs) l3 s3) ((w3 @ indent d) @ CHR ''}'' # LF # r)"
    using indent_ws by auto
  from parse_end_block [OF l3(2,1), of "statements block" ss ts "NginxConfig []" fs s3 "LF # r"] 1 2 3
  show ?case by (cases block) auto
qed

lemma Parse_printed:
  assumes "printable c"
  shows "Parse (ToString c 0) (NginxConfig []) = Inr (True, c)"
proof -
  have init: "initial_parse_state (NginxConfig []) = mk_state [[]] TOKEN_TYPE_START TOKEN_TYPE_START"
    by (simp add: initial_parse_state_def mk_state_def)
  from parse_statements(1) [OF assms, of "[]" TOKEN_TYPE_START "[]" "[]" TOKEN_TYPE_START 0 "[]"]
  obtain l s w where l: "l = TOKEN_TYPE_START \<or> l \<in> closes" "list_all is_ws w" and
    1: "parse_loop (mk_state [[]] TOKEN_TYPE_START TOKEN_TYPE_START) (ToString c 0) =
        parse_loop (mk_state [statements c] l s) w" by auto
  from ParseToken_ws_eof [OF l(2)] obtain u where "ParseToken w = (TOKEN_TYPE_EOF, u, [])" by auto
  with l(1) have "parse_loop (mk_state [statements c] l s) w = Inr (True, mk_state [statements c] l s)"
    by (subst parse_loop.simps) (auto simp: parse_step_def step_eof_def)
  with 1 init show ?thesis by (simp add: Parse_def)
qed

text \<open>
  C5: printing a configuration tree and parsing what was printed gives the tree back,
  for every tree whose tokens are words or quoted strings the lexer can read.
\<close>

theorem Parse_ToString:
  assumes "printable c"
  shows "Parse (ToString c 0) (NginxConfig []) = Inr (True, c)"
  using assms by (rule Parse_printed)

lemma Parse_ToString_witness:
  "\<exists>c. statements c \<noteq> [] \<and> Parse (ToString c 0) (NginxConfig []) = Inr (True, c)"
proof -
  let ?c = "NginxConfig
     [NginxConfigStatement [''port'', ''80''] None,
      NginxConfigStatement [''location'', ''/x'', ''StaticHandler'']
        (Some (NginxConfig [NginxConfigStatement [''root'', ''./a''] None]))]"
  have "printable ?c" by code_simp
  from Parse_ToString [OF this] show ?thesis by (intro exI [of _ ?c]) simp
qed

end
