(* ===== verification/Server_Main.thy ===== *)
theory Server_Main
  imports Server_Loop Config_Parser_Sound Config_Roundtrip
begin

text \<open>
  The two programs: \<open>main\<close> of the server (\<open>src/server_main.cc\<close>) up to the point where the
  threads run, and the \<open>config_parser\<close> tool (\<open>src/config_parser_main.cc\<close>).

  \<open>main\<close> does not look at the result of \<open>Parse\<close>, and catches every \<open>std::exception\<close>; the faults
  that are no exceptions stay faults.
\<close>

datatype main_result = Exit int | Serving server

definition exceptions :: "fault set" where
  "exceptions = {Out_of_range, Invalid_argument, Length_error, Logic_error, Filesystem_error}"

definition load_server :: "(string \<Rightarrow> string option) \<Rightarrow> string \<Rightarrow> server result" where
  "load_server read_file file_name =
     rbind (Parse_file read_file file_name (NginxConfig [])) (\<lambda>(_, config).
     rbind (GetPort config) (\<lambda>server_port.
     rbind (populateHandlerMap config []) (\<lambda>handler_map.
       Inr (Server server_port handler_map))))"

definition server_main :: "(string \<Rightarrow> string option) \<Rightarrow> string list \<Rightarrow> main_result result" where
  "server_main read_file argv =
     (if length argv \<noteq> 2 then Inr (Exit 1)
      else
        case load_server read_file (argv ! 1) of
          Inl e \<Rightarrow> if e \<in> exceptions then Inr (Exit 0) else Inl e
        | Inr s \<Rightarrow> Inr (Serving s))"

text \<open>The exit code and the output of the tool.\<close>

definition config_parser_main :: "(string \<Rightarrow> string option) \<Rightarrow> string list \<Rightarrow> (int \<times> string) result" where
  "config_parser_main read_file argv =
     (if length argv \<noteq> 2 then Inr (1, ''Usage: ./config_parser <path to config file>'' @ [LF])
      else
        rbind (Parse_file read_file (argv ! 1) (NginxConfig [])) (\<lambda>(_, config).
          Inr (0, c_str (ToString config 0))))"

section \<open>The configuration that is served\<close>

lemma config_ok_statements: "config_ok c \<Longrightarrow> statements_ok (statements c)"
  by (cases c) simp

lemma populate_total: "config_ok c \<Longrightarrow> populateHandlerMap c [] = Inr (assign_all (location_entries (statements c)) [])"
  by (simp add: populateHandlerMap_def populateHandlerMap_loop_eq config_ok_statements)

text \<open>
  A usable configuration: every location names a known handler and has a block, and there is a
  location \<open>/\<close>.
\<close>

definition usable :: "NginxConfig \<Rightarrow> bool" where
  "usable c \<longleftrightarrow>
     list_all (\<lambda>(l, t, conf). createHandlerFactory t \<noteq> None \<and> conf \<noteq> None) (location_entries (statements c)) \<and>
     [SLASH] \<in> fst ` set (location_entries (statements c))"

lemma location_entries_blocks:
  "statements_ok ss \<Longrightarrow> (l, t, Some b) \<in> set (location_entries ss) \<Longrightarrow> config_ok b"
proof (induction ss rule: location_entries.induct)
  case (2 ts child ss)
  then show ?case by (auto simp: statement_ok_iff split: if_splits sum.splits)
qed simp

lemma usable_server_ok:
  assumes "config_ok c" and "usable c"
  shows "server_ok (Server p (assign_all (location_entries (statements c)) []))"
proof -
  let ?es = "location_entries (statements c)" and ?m = "assign_all (location_entries (statements c)) []"
  have find: "smap_find ?m l = map_of (rev ?es) l" for l
    by (simp add: smap_find_assign_all split: option.split)
  have entry: "createHandlerFactory t \<noteq> None \<and> block_ok conf" if "smap_find ?m l = Some (t, conf)" for l t conf
  proof -
    have "(l, t, conf) \<in> set ?es" using that by (auto simp: find dest: map_of_SomeD)
    then have "createHandlerFactory t \<noteq> None" "conf \<noteq> None"
      using assms(2) by (auto simp: usable_def list_all_iff)
    then show ?thesis
      using location_entries_blocks [OF config_ok_statements [OF assms(1)]] \<open>(l, t, conf) \<in> set ?es\<close>
      by (auto simp: block_ok_def)
  qed
  have "smap_find ?m [SLASH] \<noteq> None"
    using assms(2) by (auto simp: find usable_def map_of_eq_None_iff rev_map [symmetric])
  then have "tables_ok ?m (sv_routes (Server p ?m))"
    using entry by (intro Server_tables_ok smap_ok_assign_all) (auto simp: smap.ok_empty)
  moreover have "blocks_ok ?m" using entry by (auto simp: blocks_ok_def)
  ultimately show ?thesis by (simp add: server_ok_def Server_def)
qed

lemma load_server_Inr:
  assumes "load_server read_file file_name = Inr sv"
  obtains b c p where "Parse_file read_file file_name (NginxConfig []) = Inr (b, c)" and "config_ok c"
    and "GetPort c = Inr p" and "sv = Server p (assign_all (location_entries (statements c)) [])"
proof -
  obtain b c where c: "Parse_file read_file file_name (NginxConfig []) = Inr (b, c)" "config_ok c"
    using Parse_file_ok [of "NginxConfig []" read_file "file_name"] by auto
  with assms that show ?thesis by (auto simp: load_server_def result_iff populate_total)
qed

text \<open>
  Whatever the arguments and the file, \<open>main\<close> either exits with a code or serves;
  starting up never runs into undefined behaviour, and the port it serves is a 16-bit number.
\<close>

theorem server_main_total:
  "case server_main read_file argv of
     Inl e \<Rightarrow> False
   | Inr (Exit code) \<Rightarrow> code = 0 \<or> code = 1
   | Inr (Serving sv) \<Rightarrow> 0 \<le> endpoint_port sv \<and> endpoint_port sv \<le> 65535"
proof -
  obtain b c where c: "Parse_file read_file (argv ! 1) (NginxConfig []) = Inr (b, c)" "config_ok c"
    using Parse_file_ok [of "NginxConfig []" read_file "(argv ! 1)"] by auto
  have "e \<in> exceptions" if "GetPort c = Inl e" for e
    using that GetPortHelper_fault(1) [of c e]
    by (auto simp: GetPort_def result_iff exceptions_def split: if_splits)
  then have "e \<in> exceptions" if "load_server read_file (argv ! 1) = Inl e" for e
    using that c by (auto simp: load_server_def result_iff populate_total)
  moreover have "0 \<le> endpoint_port sv \<and> endpoint_port sv \<le> 65535" for sv
    using uint_lt2p [of "sv_port sv"] by (simp add: endpoint_port_def)
  ultimately show ?thesis
    by (auto simp: server_main_def split: sum.split)
qed

text \<open>
  The result of the parser is ignored: when the file cannot be read the server
  runs on port 8080 without any location, and every message that the parser of requests accepts
  makes its session dereference a null factory.
\<close>

theorem main_ignores_parse:
  assumes "read_file name = None" and "getFields (en_beast E) msg (bs_request (en_beast E)) = Inr req"
    and "bs_parser_put (en_beast E) msg = No_error"
  shows "server_main read_file [prog, name] = Inr (Serving (Server 8080 [])) \<and>
    answer E msg (new_session (Server 8080 []) memory) w = (Inl Null_deref, w)"
proof -
  have "load_server read_file name = Inr (Server 8080 [])"
    using assms(1) by (simp add: load_server_def Parse_file_def GetPort_def populateHandlerMap_def)
  then have "server_main read_file [prog, name] = Inr (Serving (Server 8080 []))"
    by (simp add: server_main_def)
  moreover have "answer E msg (new_session (Server 8080 []) memory) w = (Inl Null_deref, w)"
    using assms(2,3)
    by (simp add: answer_def Let_def pure_result_def new_session_def RealSession_def Server_def match_def
        smap_index_def)
  ultimately show ?thesis by simp
qed

lemma main_ignores_parse_witness:
  "server_main (\<lambda>n. None) [''server'', ''conf''] = Inr (Serving (Server 8080 []))"
proof -
  have "case getFields list_beast ''GET / HTTP/1.1'' (bs_request list_beast) of Inl e \<Rightarrow> False | Inr r \<Rightarrow> True"
    by code_simp
  then obtain req where "getFields (en_beast demo_env) ''GET / HTTP/1.1'' (bs_request (en_beast demo_env)) = Inr req"
    by (auto simp: demo_env_def split: sum.splits)
  moreover have "bs_parser_put (en_beast demo_env) ''GET / HTTP/1.1'' = No_error"
    by (simp add: demo_env_def list_beast_def)
  ultimately show ?thesis
    using main_ignores_parse [of "\<lambda>n. None" "''conf''" demo_env] by blast
qed

text \<open>
  On a file that is the printed form of a printable tree and has no \<open>NUL\<close>, the
  configuration tool prints the file itself.
\<close>

theorem config_parser_prints:
  assumes "printable c" and "read_file name = Some (ToString c 0)" and "NUL \<notin> set (ToString c 0)"
  shows "config_parser_main read_file [prog, name] = Inr (0, ToString c 0)"
  using assms Parse_printed [OF assms(1)] by (simp add: config_parser_main_def Parse_file_def)

lemma config_parser_prints_witness:
  "config_parser_main (\<lambda>n. Some (ToString demo_block 0)) [''config_parser'', ''conf''] =
    Inr (0, ToString demo_block 0)"
proof (rule config_parser_prints)
  show "printable demo_block" by code_simp
  show "NUL \<notin> set (ToString demo_block 0)" by (simp add: demo_block_def indent_def)
qed simp

end
