(* ===== verification/Logging.thy ===== *)
theory Logging
  imports Std_String
begin

text \<open>
  \<open>Logger\<close> (\<open>src/logging.cc\<close>, \<open>include/logging.h\<close>): the object through which every component writes
  its messages.  \<open>GetLogger\<close> makes it on the first call and returns the same one later.

  Boost.Log is a parameter, the record \<open>boost_log\<close> on a state of type \<open>'l\<close>; \<open>log_laws\<close> states what it
  documents of sinks and filters.  The static pointer is \<open>lg_logger\<close>, an address or null; the
  constructor's own \<open>logger_\<close> is a local variable that hides it, so the constructor does not write it.
\<close>

section \<open>Severities\<close>

datatype severity_level = Trace | Debug | Info | Warning | Error | Fatal

fun severity_rank :: "severity_level \<Rightarrow> nat" where
  "severity_rank Trace = 0"
| "severity_rank Debug = 1"
| "severity_rank Info = 2"
| "severity_rank Warning = 3"
| "severity_rank Error = 4"
| "severity_rank Fatal = 5"

lemma severity_rank_inj: "severity_rank a = severity_rank b \<Longrightarrow> a = b"
  by (cases a; cases b) simp_all

instantiation severity_level :: linorder
begin

definition less_eq_severity_level :: "severity_level \<Rightarrow> severity_level \<Rightarrow> bool" where
  "a \<le> b \<longleftrightarrow> severity_rank a \<le> severity_rank b"

definition less_severity_level :: "severity_level \<Rightarrow> severity_level \<Rightarrow> bool" where
  "a < b \<longleftrightarrow> severity_rank a < severity_rank b"

instance
  by standard (auto simp: less_eq_severity_level_def less_severity_level_def intro: severity_rank_inj)

end

section \<open>Boost.Log\<close>

record file_log =
  fl_file_name :: string
  fl_format :: string
  fl_rotation_size :: nat
  fl_rotation_hour :: "nat \<times> nat \<times> nat"
  fl_auto_flush :: bool
  fl_filter :: "severity_level \<Rightarrow> bool"

record 'l boost_log =
  bl_register_formatter :: "string \<Rightarrow> 'l \<Rightarrow> 'l"
  bl_add_file_log :: "file_log \<Rightarrow> 'l \<Rightarrow> 'l"
  bl_add_console_log :: "string \<Rightarrow> bool \<Rightarrow> 'l \<Rightarrow> 'l"
  bl_add_common_attributes :: "'l \<Rightarrow> 'l"
  bl_trivial :: "severity_level \<Rightarrow> string \<Rightarrow> 'l \<Rightarrow> 'l"

text \<open>
  What is observed of its state: the file sinks, the number of console sinks, and the messages that
  the files and the console got.
\<close>

record 'l log_view =
  lv_files :: "'l \<Rightarrow> file_log list"
  lv_consoles :: "'l \<Rightarrow> nat"
  lv_file_lines :: "'l \<Rightarrow> string list"
  lv_console_lines :: "'l \<Rightarrow> string list"

definition log_laws :: "'l log_view \<Rightarrow> 'l boost_log \<Rightarrow> bool" where
  "log_laws V L \<longleftrightarrow>
     (\<forall>l n f s b sev msg.
        lv_files V (bl_register_formatter L n l) = lv_files V l \<and>
        lv_consoles V (bl_register_formatter L n l) = lv_consoles V l \<and>
        lv_file_lines V (bl_register_formatter L n l) = lv_file_lines V l \<and>
        lv_console_lines V (bl_register_formatter L n l) = lv_console_lines V l \<and>
        lv_files V (bl_add_file_log L f l) = lv_files V l @ [f] \<and>
        lv_consoles V (bl_add_file_log L f l) = lv_consoles V l \<and>
        lv_file_lines V (bl_add_file_log L f l) = lv_file_lines V l \<and>
        lv_console_lines V (bl_add_file_log L f l) = lv_console_lines V l \<and>
        lv_files V (bl_add_console_log L s b l) = lv_files V l \<and>
        lv_consoles V (bl_add_console_log L s b l) = lv_consoles V l + 1 \<and>
        lv_file_lines V (bl_add_console_log L s b l) = lv_file_lines V l \<and>
        lv_console_lines V (bl_add_console_log L s b l) = lv_console_lines V l \<and>
        lv_files V (bl_add_common_attributes L l) = lv_files V l \<and>
        lv_consoles V (bl_add_common_attributes L l) = lv_consoles V l \<and>
        lv_file_lines V (bl_add_common_attributes L l) = lv_file_lines V l \<and>
        lv_console_lines V (bl_add_common_attributes L l) = lv_console_lines V l \<and>
        lv_files V (bl_trivial L sev msg l) = lv_files V l \<and>
        lv_consoles V (bl_trivial L sev msg l) = lv_consoles V l \<and>
        lv_file_lines V (bl_trivial L sev msg l) =
          lv_file_lines V l @ replicate (length (filter (\<lambda>f. fl_filter f sev) (lv_files V l))) msg \<and>
        lv_console_lines V (bl_trivial L sev msg l) = lv_console_lines V l @ replicate (lv_consoles V l) msg)"

section \<open>The logger\<close>

definition LOG_FILE_NAME :: string where
  "LOG_FILE_NAME = ''../logs/server_%Y-%m-%d_%H-%M-%S.%N.log''"

definition LOG_FILE_FORMAT :: string where
  "LOG_FILE_FORMAT = ''[%TimeStamp%] [%ThreadID%] [%Severity%] %Message%''"

definition server_file_log :: file_log where
  "server_file_log =
     \<lparr>fl_file_name = LOG_FILE_NAME, fl_format = LOG_FILE_FORMAT, fl_rotation_size = 10 * 1024 * 1024,
      fl_rotation_hour = (0, 0, 0), fl_auto_flush = True, fl_filter = (\<lambda>severity. severity \<ge> Info)\<rparr>"

record 'l logging =
  lg_logger :: "nat option"
  lg_next :: nat                     \<comment> \<open>the address \<open>new\<close> gives next\<close>
  lg_core :: 'l

text \<open>\<open>Logger::Logger()\<close>; the \<open>exit(-1)\<close> is the fault \<open>Process_exit\<close>.\<close>

definition Logger :: "'l boost_log \<Rightarrow> 'l logging \<Rightarrow> unit result \<times> 'l logging" where
  "Logger L st =
     (if lg_logger st \<noteq> None then (Inl Process_exit, st)
      else
        let core = bl_register_formatter L ''Severity'' (lg_core st);
            core = bl_add_file_log L server_file_log core;
            core = bl_add_console_log L LOG_FILE_FORMAT True core;
            core = bl_add_common_attributes L core
        in (Inr (), st\<lparr>lg_core := core\<rparr>))"

definition delete_Logger :: "'l logging \<Rightarrow> 'l logging" where
  "delete_Logger st = st\<lparr>lg_logger := None\<rparr>"

definition GetLogger :: "'l boost_log \<Rightarrow> 'l logging \<Rightarrow> nat result \<times> 'l logging" where
  "GetLogger L st =
     (case lg_logger st of
        Some p \<Rightarrow> (Inr p, st)
      | None \<Rightarrow>
          ebind (Logger L st) (\<lambda>_ st.
            (Inr (lg_next st), st\<lparr>lg_logger := Some (lg_next st), lg_next := lg_next st + 1\<rparr>)))"

text \<open>The six methods that write a message.\<close>

definition log_message :: "'l boost_log \<Rightarrow> severity_level \<Rightarrow> string \<Rightarrow> 'l logging \<Rightarrow> 'l logging" where
  "log_message L severity message st = st\<lparr>lg_core := bl_trivial L severity message (lg_core st)\<rparr>"

definition LogTrace :: "'l boost_log \<Rightarrow> string \<Rightarrow> 'l logging \<Rightarrow> 'l logging" where
  "LogTrace L = log_message L Trace"

definition LogDebug :: "'l boost_log \<Rightarrow> string \<Rightarrow> 'l logging \<Rightarrow> 'l logging" where
  "LogDebug L = log_message L Debug"

definition LogInfo :: "'l boost_log \<Rightarrow> string \<Rightarrow> 'l logging \<Rightarrow> 'l logging" where
  "LogInfo L = log_message L Info"

definition LogWarn :: "'l boost_log \<Rightarrow> string \<Rightarrow> 'l logging \<Rightarrow> 'l logging" where
  "LogWarn L = log_message L Warning"

definition LogError :: "'l boost_log \<Rightarrow> string \<Rightarrow> 'l logging \<Rightarrow> 'l logging" where
  "LogError L = log_message L Error"

definition LogFatal :: "'l boost_log \<Rightarrow> string \<Rightarrow> 'l logging \<Rightarrow> 'l logging" where
  "LogFatal L = log_message L Fatal"

definition SignalHandler :: "'l boost_log \<Rightarrow> int \<Rightarrow> 'l logging \<Rightarrow> unit result \<times> 'l logging" where
  "SignalHandler L signal st =
     (Inl Process_exit, log_message L Fatal (''Server interrupted with signal: '' @ to_string signal) st)"

section \<open>What the components do with it\<close>

text \<open>
  Every component writes a message as \<open>Logger *log = Logger::GetLogger(); log->LogInfo(message)\<close>; a
  program is the sequence of these.
\<close>

datatype log_call = Log severity_level string

fun log_method :: "severity_level \<Rightarrow> 'l boost_log \<Rightarrow> string \<Rightarrow> 'l logging \<Rightarrow> 'l logging" where
  "log_method Trace = LogTrace"
| "log_method Debug = LogDebug"
| "log_method Info = LogInfo"
| "log_method Warning = LogWarn"
| "log_method Error = LogError"
| "log_method Fatal = LogFatal"

fun log_calls :: "'l boost_log \<Rightarrow> log_call list \<Rightarrow> 'l logging \<Rightarrow> unit result \<times> 'l logging" where
  "log_calls L [] st = (Inr (), st)"
| "log_calls L (Log severity message # calls) st =
     ebind (GetLogger L st) (\<lambda>_ st. log_calls L calls (log_method severity L message st))"

lemmas log_defs = LogTrace_def LogDebug_def LogInfo_def LogWarn_def LogError_def LogFatal_def

lemma log_method_message: "log_method severity = (\<lambda>L. log_message L severity)"
  by (cases severity) (auto simp: log_defs)

fun call_messages :: "(severity_level \<Rightarrow> bool) \<Rightarrow> log_call list \<Rightarrow> string list" where
  "call_messages P [] = []"
| "call_messages P (Log severity message # calls) =
     (if P severity then message # call_messages P calls else call_messages P calls)"

lemma log_calls_running:
  assumes "log_laws V L" and "lv_files V (lg_core st) = [server_file_log]" and "lv_consoles V (lg_core st) = 1"
    and "lg_logger st = Some p"
  shows "\<exists>st'. log_calls L calls st = (Inr (), st') \<and> lg_logger st' = Some p \<and>
    lv_files V (lg_core st') = [server_file_log] \<and> lv_consoles V (lg_core st') = 1 \<and>
    lv_console_lines V (lg_core st') = lv_console_lines V (lg_core st) @ call_messages (\<lambda>_. True) calls \<and>
    lv_file_lines V (lg_core st') = lv_file_lines V (lg_core st) @ call_messages (\<lambda>s. s \<ge> Info) calls"
  using assms(2-4)
proof (induction calls arbitrary: st)
  case (Cons c calls)
  obtain s m where c: "c = Log s m" by (cases c)
  let ?st = "log_message L s m st"
  have keep: "lv_files V (lg_core ?st) = [server_file_log]" "lv_consoles V (lg_core ?st) = 1"
    "lg_logger ?st = Some p"
    using assms(1) Cons.prems by (simp_all add: log_laws_def log_message_def)
  have lines: "lv_console_lines V (lg_core ?st) = lv_console_lines V (lg_core st) @ [m]"
    "lv_file_lines V (lg_core ?st) = lv_file_lines V (lg_core st) @ (if s \<ge> Info then [m] else [])"
    using assms(1) Cons.prems by (simp_all add: log_laws_def log_message_def server_file_log_def)
  from Cons.IH [OF keep] lines Cons.prems(3) c show ?case
    by (auto simp: GetLogger_def log_method_message)
qed simp

text \<open>
  C36: a program that logs through \<open>GetLogger\<close> makes one logger, whatever it logs: afterwards
  there is one file sink and one console sink, the console has every message once, in order, and
  the file exactly those of severity info and above.
\<close>

theorem log_once:
  assumes "log_laws V L" and "lg_logger st = None" and "lv_files V (lg_core st) = []" and "lv_consoles V (lg_core st) = 0"
    and "lv_console_lines V (lg_core st) = []" and "lv_file_lines V (lg_core st) = []" and "calls \<noteq> []"
  shows "\<exists>st'. log_calls L calls st = (Inr (), st') \<and> lg_logger st' = Some (lg_next st) \<and>
    lv_files V (lg_core st') = [server_file_log] \<and> lv_consoles V (lg_core st') = 1 \<and>
    lv_console_lines V (lg_core st') = call_messages (\<lambda>_. True) calls \<and>
    lv_file_lines V (lg_core st') = call_messages (\<lambda>s. s \<ge> Info) calls"
proof -
  obtain p st1 where first: "GetLogger L st = (Inr p, st1)" "lg_logger st1 = Some (lg_next st)"
    "lv_files V (lg_core st1) = [server_file_log]" "lv_consoles V (lg_core st1) = 1"
    "lv_console_lines V (lg_core st1) = []" "lv_file_lines V (lg_core st1) = []"
    using assms(1-6) by (simp add: GetLogger_def Logger_def Let_def log_laws_def)
  have "log_calls L calls st = log_calls L calls st1"
    using first(1,2) assms(7) by (cases "(L, calls, st)" rule: log_calls.cases) (simp_all add: GetLogger_def)
  with log_calls_running [OF assms(1) first(3,4,2), of calls] first(5,6) show ?thesis by simp
qed

text \<open>
  The guard of the constructor does not make the logger a singleton: the
  constructor's \<open>logger_\<close> is a local variable, so the static pointer stays null, a second logger
  can be constructed, and from then on every message is written twice to the console.
\<close>

theorem Logger_not_single:
  assumes "log_laws V L" and "lg_logger st = None"
  shows "\<exists>st1 st2. Logger L st = (Inr (), st1) \<and> Logger L st1 = (Inr (), st2) \<and> lg_logger st2 = None \<and>
    lv_consoles V (lg_core st2) = lv_consoles V (lg_core st) + 2 \<and>
    lv_console_lines V (lg_core (log_message L severity message st2)) =
      lv_console_lines V (lg_core st) @ replicate (lv_consoles V (lg_core st) + 2) message"
  using assms by (simp add: Logger_def Let_def log_laws_def log_message_def)

section \<open>A log that is a list\<close>

record list_log =
  ll_files :: "file_log list"
  ll_consoles :: nat
  ll_file_lines :: "string list"
  ll_console_lines :: "string list"

definition list_boost_log :: "list_log boost_log" where
  "list_boost_log =
     \<lparr>bl_register_formatter = \<lambda>n l. l,
      bl_add_file_log = \<lambda>f l. l\<lparr>ll_files := ll_files l @ [f]\<rparr>,
      bl_add_console_log = \<lambda>s b l. l\<lparr>ll_consoles := ll_consoles l + 1\<rparr>,
      bl_add_common_attributes = \<lambda>l. l,
      bl_trivial = \<lambda>sev msg l.
        l\<lparr>ll_file_lines := ll_file_lines l @ replicate (length (filter (\<lambda>f. fl_filter f sev) (ll_files l))) msg,
          ll_console_lines := ll_console_lines l @ replicate (ll_consoles l) msg\<rparr>\<rparr>"

definition list_log_view :: "list_log log_view" where
  "list_log_view = \<lparr>lv_files = ll_files, lv_consoles = ll_consoles, lv_file_lines = ll_file_lines,
     lv_console_lines = ll_console_lines\<rparr>"

lemma list_log_laws: "log_laws list_log_view list_boost_log"
  by (simp add: log_laws_def list_log_view_def list_boost_log_def)

definition empty_log :: "list_log logging" where
  "empty_log = \<lparr>lg_logger = None, lg_next = 4096,
     lg_core = \<lparr>ll_files = [], ll_consoles = 0, ll_file_lines = [], ll_console_lines = []\<rparr>\<rparr>"

lemma log_once_witness:
  "\<exists>st'. log_calls list_boost_log [Log Debug ''in constructor'', Log Warning ''no root''] empty_log = (Inr (), st') \<and>
    ll_console_lines (lg_core st') = [''in constructor'', ''no root''] \<and> ll_file_lines (lg_core st') = [''no root'']"
  using log_once [OF list_log_laws, of empty_log "[Log Debug ''in constructor'', Log Warning ''no root'']"]
  by (auto simp: empty_log_def list_log_view_def less_eq_severity_level_def)

lemma Logger_not_single_witness:
  "\<exists>st1 st2. Logger list_boost_log empty_log = (Inr (), st1) \<and> Logger list_boost_log st1 = (Inr (), st2) \<and>
    ll_console_lines (lg_core (log_message list_boost_log Fatal ''twice'' st2)) = [''twice'', ''twice'']"
  using Logger_not_single [OF list_log_laws, of empty_log Fatal "''twice''"]
  by (simp add: empty_log_def list_log_view_def numeral_2_eq_2) blast

end
