(* ===== verification/Main_Threads.thy ===== *)
theory Main_Threads
  imports Server_Main Logging
begin

text \<open>
  The whole \<open>main\<close> of the server (\<open>src/server_main.cc\<close>) with its log: it makes the logger, builds the
  server, creates \<open>SERVER_MAX_THREADS\<close> threads that run the completion handlers, and joins them.

  What the operating system decides is the record \<open>os\<close>: whether the port can be bound, whether a
  thread can be created, and whether the \<open>run\<close> of a thread has come to its end; a join of a thread
  that is still running is where \<open>main\<close> stays (\<open>Joining\<close>).  That \<open>reserve\<close> runs out of memory is not
  modelled.
\<close>

section \<open>The program\<close>

definition SERVER_MAX_THREADS :: nat where
  "SERVER_MAX_THREADS = 128"

record os =
  os_bind :: "int \<Rightarrow> bool"
  os_thread :: "nat \<Rightarrow> bool"
  os_ended :: "nat \<Rightarrow> bool"
  os_what :: "fault option \<Rightarrow> string"     \<comment> \<open>the text of an exception; \<open>None\<close>: of the system\<close>

text \<open>What the constructors of the factories and of the server write.\<close>

fun factory_name :: "RequestHandlerFactory \<Rightarrow> string" where
  "factory_name EchoRequestHandlerFactory = ''EchoRequestHandlerFactory''"
| "factory_name StaticRequestHandlerFactory = ''StaticRequestHandlerFactory''"
| "factory_name ErrorHandlerFactory = ''ErrorHandlerFactory''"
| "factory_name ApiRequestHandlerFactory = ''ApiRequestHandlerFactory''"
| "factory_name HealthRequestHandlerFactory = ''HealthRequestHandlerFactory''"
| "factory_name MemeRequestHandlerFactory = ''MemeRequestHandlerFactory''"

fun route_log :: "handler_map \<Rightarrow> log_call list" where
  "route_log [] = []"
| "route_log ((location, (handler_type, conf)) # m) =
     (case createHandlerFactory handler_type of
        None \<Rightarrow> [Log Warning ''Server :: Server: createHandlerFactory failed'']
      | Some factory \<Rightarrow>
          [Log Debug (factory_name factory @ '' :: '' @ factory_name factory @ '': in constructor''),
           Log Info ''Server :: Server: createHandlerFactory success'']) @ route_log m"

definition server_log :: "server \<Rightarrow> log_call list" where
  "server_log sv =
     Log Info (''Server :: Server: running on port: '' @ logged_port sv) # route_log (sv_handler_map sv)"

text \<open>The loop that creates the threads, with its handler for exceptions: the number that exist.\<close>

function create_threads :: "'l boost_log \<Rightarrow> os \<Rightarrow> nat \<Rightarrow> 'l logging \<Rightarrow> nat \<times> 'l logging" where
  "create_threads L S thread_num st =
     (if thread_num < SERVER_MAX_THREADS then
        let st = LogDebug L (''Server main: creating thread: '' @ to_string (int thread_num)) st
        in if os_thread S thread_num then create_threads L S (thread_num + 1) st
           else (thread_num,
             LogError L (''Server main: error creating thread '' @ to_string (int thread_num) @ '': '' @ os_what S None) st)
      else (thread_num, LogInfo L (''Server main: created '' @ to_string (int SERVER_MAX_THREADS) @ '' threads'') st))"
  by pat_completeness auto

termination
  by (relation "measure (\<lambda>(L, S, thread_num, st). SERVER_MAX_THREADS - thread_num)") auto

text \<open>The loop that joins them; \<open>threads[thread_num]\<close> is not checked.\<close>

datatype join_result = Joined | Waits nat

function join_threads ::
  "'l boost_log \<Rightarrow> os \<Rightarrow> nat \<Rightarrow> nat \<Rightarrow> 'l logging \<Rightarrow> join_result result \<times> 'l logging" where
  "join_threads L S threads thread_num st =
     (if thread_num < SERVER_MAX_THREADS then
        if thread_num \<ge> threads then (Inl Bad_index, st)
        else if \<not> os_ended S thread_num then (Inr (Waits thread_num), st)
        else join_threads L S threads (thread_num + 1)
               (LogDebug L (''Server main: joining thread: '' @ to_string (int thread_num)) st)
      else (Inr Joined, st))"
  by pat_completeness auto

termination
  by (relation "measure (\<lambda>(L, S, threads, thread_num, st). SERVER_MAX_THREADS - thread_num)") auto

declare create_threads.simps [simp del] join_threads.simps [simp del]

datatype main_state = Exited int | Joining server nat

definition main_caught :: "'l boost_log \<Rightarrow> string \<Rightarrow> 'l logging \<Rightarrow> main_state result \<times> 'l logging" where
  "main_caught L error st = (Inr (Exited 0), delete_Logger (LogError L (''Server main: exception: '' @ error) st))"

definition main ::
  "'l boost_log \<Rightarrow> os \<Rightarrow> (string \<Rightarrow> string option) \<Rightarrow> string list \<Rightarrow> 'l logging \<Rightarrow> main_state result \<times> 'l logging" where
  "main L S read_file argv st =
     ebind (GetLogger L st) (\<lambda>_ st.
       if length argv \<noteq> 2
       then (Inr (Exited 1), LogFatal L ''Invalid arguments. Usage: ./path/to/Server path/to/config/file'' st)
       else
         case load_server read_file (argv ! 1) of
           Inl e \<Rightarrow> if e \<in> exceptions then main_caught L (os_what S (Some e)) st else (Inl e, st)
         | Inr sv \<Rightarrow>
             if \<not> os_bind S (endpoint_port sv) then main_caught L (os_what S None) st
             else
               ebind (log_calls L (server_log sv) st) (\<lambda>_ st.
                 let (threads, st) = create_threads L S 0 st in
                 ebind (join_threads L S threads 0 st) (\<lambda>joined st.
                   case joined of
                     Waits i \<Rightarrow> (Inr (Joining sv i), st)
                   | Joined \<Rightarrow> (Inr (Exited 0), delete_Logger (LogInfo L ''Server main: stopping server'' st)))))"

text \<open>The signals for which \<open>main\<close> installs \<open>Logger::SignalHandler\<close>, with their numbers on Linux.\<close>

definition main_signals :: "int list" where
  "main_signals = [2, 3, 15]"

definition main_signalled :: "'l boost_log \<Rightarrow> int \<Rightarrow> 'l logging \<Rightarrow> (unit result \<times> 'l logging) option" where
  "main_signalled L signal st = (if signal \<in> set main_signals then Some (SignalHandler L signal st) else None)"

section \<open>The loops\<close>

text \<open>A logger that \<open>GetLogger\<close> has made: one file, one console.\<close>

definition log_running :: "'l log_view \<Rightarrow> 'l logging \<Rightarrow> bool" where
  "log_running V st \<longleftrightarrow>
     lv_files V (lg_core st) = [server_file_log] \<and> lv_consoles V (lg_core st) = 1 \<and> lg_logger st \<noteq> None"

definition log_file :: "'l log_view \<Rightarrow> 'l logging \<Rightarrow> string list" where
  "log_file V st = lv_file_lines V (lg_core st)"

lemma log_message_running:
  assumes "log_laws V L" and "log_running V st"
  shows "log_running V (log_message L s m st)"
    and "log_file V (log_message L s m st) = log_file V st @ (if s \<ge> Info then [m] else [])"
  using assms by (simp_all add: log_running_def log_file_def log_laws_def log_message_def server_file_log_def)

lemma delete_Logger_file [simp]: "log_file V (delete_Logger st) = log_file V st"
  by (simp add: log_file_def delete_Logger_def)

definition first_failure :: "(nat \<Rightarrow> bool) \<Rightarrow> nat \<Rightarrow> nat option" where
  "first_failure ok thread_num = find (\<lambda>i. \<not> ok i) [thread_num..<SERVER_MAX_THREADS]"

lemma first_failure_rec:
  "first_failure ok n =
     (if n < SERVER_MAX_THREADS then if ok n then first_failure ok (n + 1) else Some n else None)"
  by (simp add: first_failure_def upt_conv_Cons)

lemma first_failure_Some: "first_failure ok n = Some k \<Longrightarrow> k < SERVER_MAX_THREADS \<and> \<not> ok k"
  by (auto simp: first_failure_def find_Some_iff)

definition thread_line :: "os \<Rightarrow> nat option \<Rightarrow> string" where
  "thread_line S failed =
     (case failed of
        None \<Rightarrow> ''Server main: created '' @ to_string (int SERVER_MAX_THREADS) @ '' threads''
      | Some k \<Rightarrow> ''Server main: error creating thread '' @ to_string (int k) @ '': '' @ os_what S None)"

lemma create_threads_result:
  assumes "log_laws V L" and "log_running V st" and "thread_num \<le> SERVER_MAX_THREADS"
  shows "\<exists>st'. create_threads L S thread_num st =
      (case first_failure (os_thread S) thread_num of Some k \<Rightarrow> k | None \<Rightarrow> SERVER_MAX_THREADS, st') \<and>
    log_running V st' \<and> log_file V st' = log_file V st @ [thread_line S (first_failure (os_thread S) thread_num)]"
  using assms(2,3)
proof (induction "SERVER_MAX_THREADS - thread_num" arbitrary: thread_num st)
  case 0
  then show ?case
    using log_message_running [OF assms(1) 0(2), of Info] first_failure_rec [of "os_thread S" thread_num]
    by (simp add: create_threads.simps thread_line_def log_defs less_eq_severity_level_def)
next
  case (Suc k)
  let ?st = "LogDebug L (''Server main: creating thread: '' @ to_string (int thread_num)) st"
  have st: "log_running V ?st" "log_file V ?st = log_file V st"
    using log_message_running [OF assms(1) Suc.prems(1), of Debug]
    by (simp_all add: log_defs less_eq_severity_level_def)
  have less: "thread_num < SERVER_MAX_THREADS" using Suc.hyps(2) by simp
  note step = create_threads.simps [of L S thread_num st] first_failure_rec [of "os_thread S" thread_num]
  show ?case
  proof (cases "os_thread S thread_num")
    case True
    have "k = SERVER_MAX_THREADS - (thread_num + 1)" "thread_num + 1 \<le> SERVER_MAX_THREADS"
      using Suc.hyps(2) by simp_all
    from Suc.hyps(1) [OF this(1) st(1) this(2)] show ?thesis
      using True less st(2) by (simp only: step if_True Let_def)
  next
    case False
    then show ?thesis
      using less st log_message_running [OF assms(1) st(1), of Error]
      by (simp add: step thread_line_def log_defs less_eq_severity_level_def Let_def)
  qed
qed

lemma join_threads_result:
  assumes "log_laws V L" and "log_running V st" and "thread_num \<le> threads" and "threads \<le> SERVER_MAX_THREADS"
  shows "\<exists>st'. join_threads L S threads thread_num st =
      (case find (\<lambda>i. \<not> os_ended S i) [thread_num..<threads] of
         Some i \<Rightarrow> Inr (Waits i)
       | None \<Rightarrow> if threads < SERVER_MAX_THREADS then Inl Bad_index else Inr Joined, st') \<and>
    log_running V st' \<and> log_file V st' = log_file V st"
  using assms(2,3)
proof (induction "threads - thread_num" arbitrary: thread_num st)
  case 0
  then show ?case using assms(4) by (auto simp: join_threads.simps)
next
  case (Suc k)
  let ?st = "LogDebug L (''Server main: joining thread: '' @ to_string (int thread_num)) st"
  have st: "log_running V ?st" "log_file V ?st = log_file V st"
    using log_message_running [OF assms(1) Suc.prems(1), of Debug]
    by (simp_all add: log_defs less_eq_severity_level_def)
  have less: "thread_num < threads" "thread_num < SERVER_MAX_THREADS" using Suc.hyps(2) assms(4) by simp_all
  have next_thread: "k = threads - (thread_num + 1)" "thread_num + 1 \<le> threads" using Suc.hyps(2) by simp_all
  note step = join_threads.simps [of L S threads thread_num st]
  show ?case
  proof (cases "os_ended S thread_num")
    case True
    from Suc.hyps(1) [OF next_thread(1) st(1) next_thread(2)] show ?thesis
      using True less st(2) by (simp add: step upt_conv_Cons)
  next
    case False
    then show ?thesis using less Suc.prems(1) by (simp add: step upt_conv_Cons)
  qed
qed

section \<open>What main does\<close>

text \<open>The log before \<open>main\<close>: no logger, no sinks.\<close>

definition log_fresh :: "'l log_view \<Rightarrow> 'l logging \<Rightarrow> bool" where
  "log_fresh V st \<longleftrightarrow>
     lg_logger st = None \<and> lv_files V (lg_core st) = [] \<and> lv_consoles V (lg_core st) = 0 \<and>
     lv_console_lines V (lg_core st) = [] \<and> lv_file_lines V (lg_core st) = []"

lemma GetLogger_fresh:
  assumes "log_laws V L" and "log_fresh V st"
  obtains p st' where "GetLogger L st = (Inr p, st')" and "log_running V st'" and "log_file V st' = []"
  using assms
  by (simp add: GetLogger_def Logger_def Let_def log_laws_def log_fresh_def log_running_def log_file_def)

lemma log_calls_file:
  assumes "log_laws V L" and "log_running V st"
  obtains st' where "log_calls L calls st = (Inr (), st')" and "log_running V st'"
    and "log_file V st' = log_file V st @ call_messages (\<lambda>s. s \<ge> Info) calls"
  using log_calls_running [OF assms(1)] assms(2) by (fastforce simp: log_running_def log_file_def)

text \<open>The server is built and bound: what happens then is decided by the threads.\<close>

definition threads_made :: "os \<Rightarrow> nat" where
  "threads_made S = (case first_failure (os_thread S) 0 of Some k \<Rightarrow> k | None \<Rightarrow> SERVER_MAX_THREADS)"

lemma threads_made_le: "threads_made S \<le> SERVER_MAX_THREADS"
  by (auto simp: threads_made_def less_imp_le split: option.split dest: first_failure_Some)

definition first_running :: "os \<Rightarrow> nat option" where
  "first_running S = find (\<lambda>i. \<not> os_ended S i) [0..<threads_made S]"

lemma main_started:
  assumes "log_laws V L" and "log_fresh V st" and "load_server read_file name = Inr sv"
    and "os_bind S (endpoint_port sv)"
  shows "\<exists>st'. main L S read_file [prog, name] st =
      (case first_running S of
         Some i \<Rightarrow> Inr (Joining sv i)
       | None \<Rightarrow> if threads_made S < SERVER_MAX_THREADS then Inl Bad_index else Inr (Exited 0), st') \<and>
    (first_running S \<noteq> None \<longrightarrow>
      log_file V st' = call_messages (\<lambda>s. s \<ge> Info) (server_log sv) @ [thread_line S (first_failure (os_thread S) 0)])"
proof -
  obtain p st1 where st1: "GetLogger L st = (Inr p, st1)" "log_running V st1" "log_file V st1 = []"
    using GetLogger_fresh [OF assms(1,2)] .
  obtain st2 where st2: "log_calls L (server_log sv) st1 = (Inr (), st2)" "log_running V st2"
    "log_file V st2 = call_messages (\<lambda>s. s \<ge> Info) (server_log sv)"
    using log_calls_file [OF assms(1) st1(2), of "server_log sv"] st1(3) by auto
  obtain st3 where st3: "create_threads L S 0 st2 = (threads_made S, st3)" "log_running V st3"
    "log_file V st3 = log_file V st2 @ [thread_line S (first_failure (os_thread S) 0)]"
    using create_threads_result [OF assms(1) st2(2), of 0 S] by (auto simp: threads_made_def)
  obtain st4 where st4: "join_threads L S (threads_made S) 0 st3 =
      (case first_running S of
         Some i \<Rightarrow> Inr (Waits i)
       | None \<Rightarrow> if threads_made S < SERVER_MAX_THREADS then Inl Bad_index else Inr Joined, st4)"
    "log_file V st4 = log_file V st3"
    using join_threads_result [OF assms(1) st3(2) le0 threads_made_le, of S] by (auto simp: first_running_def)
  show ?thesis
    using assms(3,4) st1(1) st2 st3 st4 by (auto simp: main_def Let_def split: option.split)
qed

lemma load_server_faults: "load_server read_file name = Inl e \<Longrightarrow> e \<in> exceptions"
proof -
  obtain b c where c: "Parse_file read_file name (NginxConfig []) = Inr (b, c)" "config_ok c"
    using Parse_file_ok [of "NginxConfig []" read_file name] by auto
  have "e \<in> exceptions" if "GetPort c = Inl e" for e
    using that GetPortHelper_fault(1) [of c e]
    by (auto simp: GetPort_def result_iff exceptions_def split: if_splits)
  then show "load_server read_file name = Inl e \<Longrightarrow> e \<in> exceptions"
    using c by (auto simp: load_server_def result_iff populate_total)
qed

text \<open>
  C34: with a configuration that loads, a port that can be bound, all 128 threads created
  and the first of them still running, \<open>main\<close> serves: it stays in the join of the first thread, and
  the log file has the port, one line per location, saying whether its handler is known, and the
  number of threads.
\<close>

theorem main_serves:
  assumes "log_laws V L" and "log_fresh V st" and "load_server read_file name = Inr sv"
    and "os_bind S (endpoint_port sv)" and "\<forall>i < SERVER_MAX_THREADS. os_thread S i" and "\<not> os_ended S 0"
  shows "\<exists>st'. main L S read_file [prog, name] st = (Inr (Joining sv 0), st') \<and>
    lv_file_lines V (lg_core st') =
      (''Server :: Server: running on port: '' @ logged_port sv) #
      map (\<lambda>(location, (handler_type, conf)).
        if createHandlerFactory handler_type = None then ''Server :: Server: createHandlerFactory failed''
        else ''Server :: Server: createHandlerFactory success'') (sv_handler_map sv) @
      [''Server main: created 128 threads'']"
proof -
  have none: "first_failure (os_thread S) 0 = None"
    using assms(5) first_failure_Some [of "os_thread S" 0] by (cases "first_failure (os_thread S) 0") auto
  then have "threads_made S = Suc 127" by (simp add: threads_made_def SERVER_MAX_THREADS_def)
  then have running: "first_running S = Some 0"
    using assms(6) by (simp only: first_running_def upt_conv_Cons) simp
  have routes: "call_messages (\<lambda>s. s \<ge> Info) (route_log m) =
      map (\<lambda>(location, (handler_type, conf)).
        if createHandlerFactory handler_type = None then ''Server :: Server: createHandlerFactory failed''
        else ''Server :: Server: createHandlerFactory success'') m" for m
    by (induction m rule: route_log.induct) (auto simp: less_eq_severity_level_def split: option.split)
  have "thread_line S None = ''Server main: created 128 threads''"
    by (simp add: thread_line_def SERVER_MAX_THREADS_def to_string_eval)
  then show ?thesis
    using main_started [OF assms(1-4), of prog] running none routes
    by (auto simp: server_log_def log_file_def less_eq_severity_level_def)
qed

text \<open>
  C35: when the system refuses a thread, \<open>main\<close> goes on with those it has, but the
  loop that joins them counts to \<open>SERVER_MAX_THREADS\<close>: once the threads created before the refused one
  have all come to their end it reads behind the vector (as long as one of them runs, it waits for
  that one).
\<close>

theorem main_joins_missing:
  assumes "log_laws V L" and "log_fresh V st" and "load_server read_file name = Inr sv"
    and "os_bind S (endpoint_port sv)" and "k < SERVER_MAX_THREADS" and "\<not> os_thread S k"
    and "\<forall>i < k. os_ended S i"
  shows "fst (main L S read_file [prog, name] st) = Inl Bad_index"
proof -
  obtain j where j: "first_failure (os_thread S) 0 = Some j" "j \<le> k"
  proof (cases "first_failure (os_thread S) 0")
    case None
    then show ?thesis using assms(5,6) by (auto simp: first_failure_def find_None_iff)
  next
    case (Some j)
    then have "\<forall>i < j. os_thread S i" by (auto simp: first_failure_def find_Some_iff)
    then have "j \<le> k" using assms(6) not_less by blast
    with Some that show ?thesis by blast
  qed
  then have made: "threads_made S = j" "j < SERVER_MAX_THREADS"
    using first_failure_Some by (auto simp: threads_made_def)
  moreover have "first_running S = None"
    using made(1) j(2) assms(7) by (auto simp: first_running_def find_None_iff)
  ultimately show ?thesis using main_started [OF assms(1-4), of prog] by auto
qed

text \<open>
  C33: whatever the arguments, the file and the system, \<open>main\<close> exits with 1 exactly when it
  was not given one argument; else it exits with 0, or serves the loaded server on a 16-bit port and
  waits for a thread that is running; the only undefined behaviour is the join of a thread that
  could not be created.
\<close>

theorem main_total:
  assumes "log_laws V L" and "log_fresh V st"
  shows "case fst (main L S read_file argv st) of
      Inl e \<Rightarrow> e = Bad_index \<and> (\<exists>k < SERVER_MAX_THREADS. \<not> os_thread S k \<and> (\<forall>i < k. os_ended S i))
    | Inr (Exited code) \<Rightarrow> code = (if length argv = 2 then 0 else 1)
    | Inr (Joining sv i) \<Rightarrow>
        load_server read_file (argv ! 1) = Inr sv \<and> os_bind S (endpoint_port sv) \<and>
        0 \<le> endpoint_port sv \<and> endpoint_port sv \<le> 65535 \<and>
        i < SERVER_MAX_THREADS \<and> os_thread S i \<and> \<not> os_ended S i"
proof (cases "length argv = 2")
  case False
  obtain p st1 where "GetLogger L st = (Inr p, st1)" using GetLogger_fresh [OF assms] .
  with False show ?thesis by (simp add: main_def)
next
  case True
  then obtain prog name where argv: "argv = [prog, name]" by (cases argv; cases "tl argv") auto
  obtain p st1 where st1: "GetLogger L st = (Inr p, st1)" using GetLogger_fresh [OF assms] .
  show ?thesis
  proof (cases "load_server read_file name")
    case (Inl e)
    then show ?thesis
      using st1 load_server_faults [OF Inl] by (simp add: argv main_def main_caught_def)
  next
    case (Inr sv)
    show ?thesis
    proof (cases "os_bind S (endpoint_port sv)")
      case False
      with Inr st1 show ?thesis by (simp add: argv main_def main_caught_def)
    next
      case True
      have port: "0 \<le> endpoint_port sv \<and> endpoint_port sv \<le> 65535"
        using uint_lt2p [of "sv_port sv"] by (simp add: endpoint_port_def)
      have waits: "i < SERVER_MAX_THREADS \<and> os_thread S i \<and> \<not> os_ended S i" if "first_running S = Some i" for i
      proof -
        have i: "i < threads_made S" "\<not> os_ended S i"
          using that by (auto simp: first_running_def find_Some_iff)
        have "os_thread S i"
          using i(1) by (auto simp: threads_made_def first_failure_def find_Some_iff find_None_iff split: option.splits)
        with i threads_made_le [of S] show ?thesis by simp
      qed
      have missing: "\<exists>k < SERVER_MAX_THREADS. \<not> os_thread S k \<and> (\<forall>i < k. os_ended S i)"
        if none: "first_running S = None" and few: "threads_made S < SERVER_MAX_THREADS"
      proof (intro exI conjI)
        show "\<not> os_thread S (threads_made S)"
          using few first_failure_Some by (auto simp: threads_made_def split: option.splits)
        show "\<forall>i < threads_made S. os_ended S i" using none by (auto simp: first_running_def find_None_iff)
      qed (rule few)
      show ?thesis
        using main_started [OF assms Inr True, of prog] Inr True port waits missing
        by (cases "first_running S") (auto simp: argv)
    qed
  qed
qed

section \<open>A run\<close>

definition demo_os :: os where
  "demo_os = \<lparr>os_bind = (\<lambda>p. True), os_thread = (\<lambda>i. True), os_ended = (\<lambda>i. False), os_what = (\<lambda>e. [])\<rparr>"

lemma empty_log_fresh: "log_fresh list_log_view empty_log"
  by (simp add: log_fresh_def list_log_view_def empty_log_def)

lemma unreadable_loads: "load_server (\<lambda>n. None) name = Inr (Server 8080 [])"
  by (simp add: load_server_def Parse_file_def GetPort_def populateHandlerMap_def)

lemma health_loads:
  "load_server (\<lambda>n. Some ''location / HealthHandler { root /www; }'') name =
     Inr (Server 8080 [(''/'', (''HealthHandler'', Some demo_block))])"
proof -
  have "Parse ''location / HealthHandler { root /www; }'' (NginxConfig []) =
      Inr (True, NginxConfig [NginxConfigStatement [''location'', ''/'', ''HealthHandler''] (Some demo_block)])"
    by code_simp
  moreover have "populateHandlerMap
      (NginxConfig [NginxConfigStatement [''location'', ''/'', ''HealthHandler''] (Some demo_block)]) [] =
      Inr [(''/'', (''HealthHandler'', Some demo_block))]"
    by code_simp
  moreover have "GetPort
      (NginxConfig [NginxConfigStatement [''location'', ''/'', ''HealthHandler''] (Some demo_block)]) = Inr 8080"
    by (simp add: GetPort_def demo_block_def)
  ultimately show ?thesis by (simp add: load_server_def Parse_file_def)
qed

lemma main_serves_witness:
  "\<exists>sv st'. main list_boost_log demo_os (\<lambda>n. Some ''location / HealthHandler { root /www; }'')
      [''server'', ''conf''] empty_log = (Inr (Joining sv 0), st') \<and>
    ll_file_lines (lg_core st') =
      [''Server :: Server: running on port: 8080'', ''Server :: Server: createHandlerFactory success'',
       ''Server main: created 128 threads'']"
proof -
  let ?sv = "Server 8080 [(''/'', (''HealthHandler'', Some demo_block))]"
  have sv: "logged_port ?sv = ''8080''" "sv_handler_map ?sv = [(''/'', (''HealthHandler'', Some demo_block))]"
    by (simp_all add: logged_port_def Server_def to_string_eval)
  have "os_bind demo_os (endpoint_port ?sv)" "\<forall>i < SERVER_MAX_THREADS. os_thread demo_os i" "\<not> os_ended demo_os 0"
    by (simp_all add: demo_os_def)
  then obtain st' where *: "main list_boost_log demo_os (\<lambda>n. Some ''location / HealthHandler { root /www; }'')
      [''server'', ''conf''] empty_log = (Inr (Joining ?sv 0), st')"
    "lv_file_lines list_log_view (lg_core st') =
      (''Server :: Server: running on port: '' @ logged_port ?sv) #
      map (\<lambda>(location, (handler_type, conf)).
        if createHandlerFactory handler_type = None then ''Server :: Server: createHandlerFactory failed''
        else ''Server :: Server: createHandlerFactory success'') (sv_handler_map ?sv) @
      [''Server main: created 128 threads'']"
    using main_serves [OF list_log_laws empty_log_fresh health_loads] by blast
  from *(2) have "ll_file_lines (lg_core st') =
      [''Server :: Server: running on port: 8080'', ''Server :: Server: createHandlerFactory success'',
       ''Server main: created 128 threads'']"
    unfolding sv by (simp add: list_log_view_def createHandlerFactory_def)
  with *(1) show ?thesis by blast
qed

lemma main_joins_missing_witness:
  "fst (main list_boost_log (demo_os\<lparr>os_thread := \<lambda>i. i = 0, os_ended := \<lambda>i. i = 0\<rparr>) (\<lambda>n. None)
      [''server'', ''conf''] empty_log) = Inl Bad_index"
  by (rule main_joins_missing [OF list_log_laws empty_log_fresh unreadable_loads, of _ 1])
    (simp_all add: demo_os_def SERVER_MAX_THREADS_def)

lemma main_total_witness:
  "fst (main list_boost_log (demo_os\<lparr>os_bind := \<lambda>p. False\<rparr>) (\<lambda>n. None) [''server''] empty_log) = Inr (Exited 1)"
  using main_total [OF list_log_laws empty_log_fresh, where S = "demo_os\<lparr>os_bind := \<lambda>p. False\<rparr>"
      and read_file = "\<lambda>n. None" and argv = "[''server'']"]
  by (simp add: demo_os_def split: sum.splits main_state.splits)

end
