(* ===== verification/Shared_Lock.thy ===== *)
theory Shared_Lock
  imports Prelude "HOL-Library.Multiset"
begin

text \<open>
  Critical sections under a \<open>std::shared_mutex\<close>, run by any number of threads.

  A section is a program of single steps on the shared state: what another thread can see between
  two of them is part of the model.  A job is a sequence of sections, each of which decides how the
  job goes on.  \<open>run\<close> is a section on its own, and \<open>pool_step\<close> one step of one thread of a pool, or one
  operation on the lock.  The locale \<open>locked_jobs\<close> is the contract of code that uses the lock:
  sections under the shared lock only read.  Under it every interleaving has the result of the
  sections one after the other, in the order in which they release the lock.  That every schedule
  ends with all threads finished is so by the construction of these jobs, whose sections are finite
  and always release the lock; code that could do otherwise is the subject of \<open>Lock_Discipline\<close>.
  \<open>single_jobs\<close> extends it for jobs of one section, whose sections
  are whole operations.
\<close>

section \<open>Programs of steps\<close>

datatype ('s, 'r) prog = Done 'r | Step "'s \<Rightarrow> 's \<times> ('s, 'r) prog"

primrec run :: "('s, 'r) prog \<Rightarrow> 's \<Rightarrow> 'r \<times> 's" where
  "run (Done r) = (\<lambda>s. (r, s))"
| "run (Step f) = (\<lambda>s. case (map_prod id run \<circ> f) s of (s', k) \<Rightarrow> k s')"

primrec bind_prog :: "('s, 'a) prog \<Rightarrow> ('a \<Rightarrow> ('s, 'b) prog) \<Rightarrow> ('s, 'b) prog" where
  "bind_prog (Done r) = (\<lambda>k. k r)"
| "bind_prog (Step f) = (\<lambda>k. Step (\<lambda>s. map_prod id (\<lambda>p. p k) ((map_prod id bind_prog \<circ> f) s)))"

text \<open>One step, and the sequence of two programs of which the first can fail.\<close>

definition atomically :: "('s \<Rightarrow> 'r \<times> 's) \<Rightarrow> ('s, 'r) prog" where
  "atomically f = Step (\<lambda>s. case f s of (r, s') \<Rightarrow> (s', Done r))"

definition ebind_prog ::
  "('s, 'a result) prog \<Rightarrow> ('a \<Rightarrow> ('s, 'b result) prog) \<Rightarrow> ('s, 'b result) prog" where
  "ebind_prog p k = bind_prog p (\<lambda>r. case r of Inl e \<Rightarrow> Done (Inl e) | Inr x \<Rightarrow> k x)"

named_theorems run_simps \<open>running programs\<close>

lemma run_Done [run_simps]: "run (Done r) s = (r, s)"
  by simp

lemma run_Step: "f s = (s', p) \<Longrightarrow> run (Step f) s = run p s'"
  by simp

lemma run_atomically [run_simps]: "run (atomically f) s = f s"
  by (simp add: atomically_def split: prod.split)

lemma run_bind_prog [run_simps]: "run (bind_prog p k) s = (case run p s of (r, s') \<Rightarrow> run (k r) s')"
proof (induction p arbitrary: s)
  case (Step f)
  obtain s' q where f: "f s = (s', q)" by fastforce
  then show ?case using Step [of "(s', q)" q] by (auto intro: rangeI [of f s, unfolded f])
qed simp

lemma run_ebind_prog [run_simps]: "run (ebind_prog p k) s = ebind (run p s) (\<lambda>x s. run (k x) s)"
  by (auto simp: ebind_prog_def run_simps ebind_def split: prod.split sum.split)

lemma set_prog_step:
  assumes "f s = (s', p)"
  shows "set_prog p \<subseteq> set_prog (Step f)"
proof -
  have "p \<in> Basic_BNFs.snds (f s)" using assms by simp
  then show ?thesis by auto
qed

text \<open>A program that only reads.\<close>

primrec read_only :: "('s, 'r) prog \<Rightarrow> bool" where
  "read_only (Done r) \<longleftrightarrow> True"
| "read_only (Step f) \<longleftrightarrow> (\<forall>s. fst (f s) = s \<and> snd ((map_prod id read_only \<circ> f) s))"

lemma read_only_run: "read_only p \<Longrightarrow> snd (run p s) = s"
proof (induction p arbitrary: s)
  case (Step f)
  obtain s' q where f: "f s = (s', q)" by fastforce
  have "fst (f s) = s" "snd ((map_prod id read_only \<circ> f) s)" using Step.prems by simp_all
  then have "s' = s" "read_only q" by (simp_all add: f)
  moreover have "(s', q) \<in> range f" using f by (metis rangeI)
  ultimately show ?case using Step.IH [of "(s', q)" q s] f by simp
qed simp

lemma read_only_step: "read_only (Step f) \<Longrightarrow> f s = (s', p) \<Longrightarrow> s' = s \<and> read_only p"
  by (drule iffD1 [OF read_only.simps(2)], drule spec [of _ s]) simp

lemma read_only_bind: "read_only p \<Longrightarrow> (\<And>r. r \<in> set_prog p \<Longrightarrow> read_only (k r)) \<Longrightarrow> read_only (bind_prog p k)"
proof (induction p)
  case (Step f)
  have "fst (f s) = s \<and> read_only (bind_prog (snd (f s)) k)" for s
  proof -
    obtain s' q where f: "f s = (s', q)" by fastforce
    have "read_only (k r)" if "r \<in> set_prog q" for r
      using Step.prems(2) set_prog_step [of f s s' q, OF f] that by blast
    moreover have "(s', q) \<in> range f" using f by (metis rangeI)
    ultimately show ?thesis
      using read_only_step [OF Step.prems(1) f] Step.IH [of "(s', q)" q] f by simp
  qed
  then show ?case by simp
qed simp

lemma read_only_ebind:
  "read_only p \<Longrightarrow> (\<And>x. Inr x \<in> set_prog p \<Longrightarrow> read_only (k x)) \<Longrightarrow> read_only (ebind_prog p k)"
  unfolding ebind_prog_def by (rule read_only_bind) (auto split: sum.split)

lemma read_only_atomically: "(\<And>s. snd (f s) = s) \<Longrightarrow> read_only (atomically f)"
  by (auto simp: atomically_def split: prod.split) (metis snd_conv)

text \<open>A read or a write that cannot fail, as a step.\<close>

definition observe :: "('w \<Rightarrow> 'a) \<Rightarrow> ('w, 'a) prog" where
  "observe f = atomically (\<lambda>w. (f w, w))"

definition change :: "('w \<Rightarrow> 'w) \<Rightarrow> ('w, unit) prog" where
  "change f = atomically (\<lambda>w. ((), f w))"

lemma run_observe [run_simps]: "run (observe f) w = (f w, w)"
  by (simp add: observe_def run_simps)

lemma run_change [run_simps]: "run (change f) w = ((), f w)"
  by (simp add: change_def run_simps)

lemma set_observe [simp]: "set_prog (observe f) = range f"
  by (auto simp: observe_def atomically_def)

lemma read_only_observe: "read_only (observe f)"
  unfolding observe_def by (rule read_only_atomically) simp

lemma run_map_prog [run_simps]: "run (map_prog f p) s = (case run p s of (r, s') \<Rightarrow> (f r, s'))"
proof (induction p arbitrary: s)
  case (Step g)
  obtain s' q where g: "g s = (s', q)" by fastforce
  then show ?case using Step [of "(s', q)" q] by (auto intro: rangeI [of g s, unfolded g])
qed simp

lemma snds_eq: "Basic_BNFs.snds p = {snd p}"
  by (cases p) simp

lemma set_prog_Step: "set_prog (Step f) = (\<Union>s. set_prog (snd (f s)))"
  by (simp add: snds_eq)

lemma set_bind_prog [simp]: "set_prog (bind_prog p k) = (\<Union>r \<in> set_prog p. set_prog (k r))"
proof (induction p)
  case (Step f)
  have "set_prog (bind_prog (snd (f s)) k) = (\<Union>r \<in> set_prog (snd (f s)). set_prog (k r))" for s
    using Step.IH [of "f s" "snd (f s)"] by (simp add: snds_eq)
  then show ?case by (simp add: set_prog_Step del: prog.set)
qed simp

lemma run_in_set_prog: "fst (run p s) \<in> set_prog p"
proof (induction p arbitrary: s)
  case (Step f)
  obtain s' q where f: "f s = (s', q)" by fastforce
  have "fst (run q s') \<in> set_prog q" using Step [of "(s', q)" q s'] f by (auto intro: rangeI [of f s, unfolded f])
  then show ?case using set_prog_step [of f s s' q, OF f] f by (simp del: prog.set) blast
qed simp

section \<open>Threads and the lock\<close>

datatype mode = Shared | Unique

text \<open>
  A job either has its answer, or runs a section with the lock held in a mode; the value of the
  section is how the job goes on after the lock is released.
\<close>

datatype ('s, 'r) job = Answered 'r | Locked mode "('s, ('s, 'r) job) prog"

text \<open>The last section of a job, and the job on its own.\<close>

definition last_section :: "mode \<Rightarrow> ('s, 'r) prog \<Rightarrow> ('s, 'r) job" where
  "last_section m p = Locked m (map_prog Answered p)"

primrec run_job :: "('s, 'r) job \<Rightarrow> 's \<Rightarrow> 'r \<times> 's" where
  "run_job (Answered r) = (\<lambda>s. (r, s))"
| "run_job (Locked m p) = (\<lambda>s. case run (map_prog run_job p) s of (k, s') \<Rightarrow> k s')"

lemma run_Locked [run_simps]: "run_job (Locked m p) s = (case run p s of (j, s') \<Rightarrow> run_job j s')"
  by (simp add: run_simps split: prod.split)

lemma run_last_section [run_simps]: "run_job (last_section m p) s = run p s"
  by (simp add: last_section_def run_simps split: prod.split)

declare run_job.simps(2) [simp del]

datatype ('s, 'r) thread =
    Waiting mode "('s, ('s, 'r) job) prog"
  | Inside mode "('s, ('s, 'r) job) prog"
  | Finished 'r

record ('s, 'r) pool =
  pl_shared :: 's
  pl_writer :: bool
  pl_readers :: nat
  pl_threads :: "('s, 'r) thread list"

fun start_thread :: "('s, 'r) job \<Rightarrow> ('s, 'r) thread" where
  "start_thread (Answered r) = Finished r"
| "start_thread (Locked m p) = Waiting m p"

definition start_pool :: "('s, 'r) job list \<Rightarrow> 's \<Rightarrow> ('s, 'r) pool" where
  "start_pool js s = \<lparr>pl_shared = s, pl_writer = False, pl_readers = 0, pl_threads = map start_thread js\<rparr>"

inductive pool_step :: "nat option \<Rightarrow> ('s, 'r) pool \<Rightarrow> ('s, 'r) pool \<Rightarrow> bool" where
  lock: "i < length (pl_threads pl) \<Longrightarrow> pl_threads pl ! i = Waiting Unique p \<Longrightarrow>
    \<not> pl_writer pl \<Longrightarrow> pl_readers pl = 0 \<Longrightarrow>
    pool_step None pl (pl\<lparr>pl_writer := True, pl_threads := (pl_threads pl)[i := Inside Unique p]\<rparr>)"
| lock_shared: "i < length (pl_threads pl) \<Longrightarrow> pl_threads pl ! i = Waiting Shared p \<Longrightarrow>
    \<not> pl_writer pl \<Longrightarrow>
    pool_step None pl (pl\<lparr>pl_readers := pl_readers pl + 1, pl_threads := (pl_threads pl)[i := Inside Shared p]\<rparr>)"
| run: "i < length (pl_threads pl) \<Longrightarrow> pl_threads pl ! i = Inside m (Step f) \<Longrightarrow> f (pl_shared pl) = (s', p) \<Longrightarrow>
    pool_step None pl (pl\<lparr>pl_shared := s', pl_threads := (pl_threads pl)[i := Inside m p]\<rparr>)"
| unlock: "i < length (pl_threads pl) \<Longrightarrow> pl_threads pl ! i = Inside Unique (Done j) \<Longrightarrow>
    pool_step (Some i) pl (pl\<lparr>pl_writer := False, pl_threads := (pl_threads pl)[i := start_thread j]\<rparr>)"
| unlock_shared: "i < length (pl_threads pl) \<Longrightarrow> pl_threads pl ! i = Inside Shared (Done j) \<Longrightarrow>
    pool_step (Some i) pl (pl\<lparr>pl_readers := pl_readers pl - 1, pl_threads := (pl_threads pl)[i := start_thread j]\<rparr>)"

inductive_cases pool_stepE: "pool_step l pl pl'"

text \<open>The pools that can be reached, with the threads that released the lock, in that order.\<close>

inductive pool_run :: "('s, 'r) pool \<Rightarrow> nat list \<Rightarrow> ('s, 'r) pool \<Rightarrow> bool" for pl0 where
  start: "pool_run pl0 [] pl0"
| step: "pool_run pl0 hist pl \<Longrightarrow> pool_step l pl pl' \<Longrightarrow>
    pool_run pl0 (case l of None \<Rightarrow> hist | Some i \<Rightarrow> hist @ [i]) pl'"

section \<open>The sections one after the other\<close>

definition next_section :: "nat \<Rightarrow> ('s, 'r) job list \<times> 's \<Rightarrow> ('s, 'r) job list \<times> 's" where
  "next_section i c =
     (case fst c ! i of
        Answered r \<Rightarrow> c
      | Locked m p \<Rightarrow> (case run p (snd c) of (j, s') \<Rightarrow> ((fst c)[i := j], s')))"

definition serial :: "('s, 'r) job list \<Rightarrow> nat list \<Rightarrow> 's \<Rightarrow> ('s, 'r) job list \<times> 's" where
  "serial js hist s = fold next_section hist (js, s)"

lemma serial_Nil [simp]: "serial js [] s = (js, s)"
  by (simp add: serial_def)

lemma serial_snoc: "serial js (hist @ [i]) s = next_section i (serial js hist s)"
  by (simp add: serial_def)

lemma next_section_length [simp]: "length (fst (next_section i c)) = length (fst c)"
  by (auto simp: next_section_def split: job.split prod.split)

lemma next_section_Locked:
  "fst c ! i = Locked m p \<Longrightarrow> run p (snd c) = (j, s') \<Longrightarrow> next_section i c = ((fst c)[i := j], s')"
  by (simp add: next_section_def)

section \<open>The contract, and what follows from it\<close>

definition inside :: "mode \<Rightarrow> ('s, 'r) thread list \<Rightarrow> nat set" where
  "inside m ts = {i. i < length ts \<and> (\<exists>p. ts ! i = Inside m p)}"

lemma finite_inside [simp]: "finite (inside m ts)"
  by (simp add: inside_def)

lemma inside_update:
  "i < length ts \<Longrightarrow>
     inside m (ts[i := t]) = (if \<exists>p. t = Inside m p then insert i (inside m ts) else inside m ts - {i})"
  by (auto simp: inside_def nth_list_update)

lemma inside_mem: "i < length ts \<Longrightarrow> ts ! i = Inside m p \<Longrightarrow> i \<in> inside m ts"
  by (auto simp: inside_def)

lemma not_inside: "i < length ts \<Longrightarrow> \<forall>p. ts ! i \<noteq> Inside m p \<Longrightarrow> i \<notin> inside m ts"
  by (auto simp: inside_def)

lemma inside_again:
  assumes "i < length ts" and "ts ! i = Inside m q"
  shows "inside n (ts[i := Inside m p]) = inside n ts"
proof (cases "n = m")
  case True
  then show ?thesis using assms inside_mem [OF assms] by (simp add: inside_update insert_absorb)
next
  case False
  then have "i \<notin> inside n ts" using assms by (simp add: inside_def)
  with False assms(1) show ?thesis by (simp add: inside_update)
qed

lemma start_thread_outside [simp]: "start_thread j \<noteq> Inside m p"
  by (cases j) simp_all

text \<open>Sections under the shared lock only read, however far the job has come.\<close>

inductive shared_reads :: "('s, 'r) job \<Rightarrow> bool" where
  answered: "shared_reads (Answered r)"
| locked: "(m = Shared \<Longrightarrow> read_only p) \<Longrightarrow> (\<And>j. j \<in> set_prog p \<Longrightarrow> shared_reads j) \<Longrightarrow> shared_reads (Locked m p)"

inductive_simps shared_reads_Answered [simp]: "shared_reads (Answered r)"
inductive_simps shared_reads_Locked: "shared_reads (Locked m p)"

lemma read_only_map [simp]: "read_only (map_prog f p) = read_only p"
proof (induction p)
  case (Step g)
  have "read_only (map_prog f (snd (g s))) = read_only (snd (g s))" for s
    using Step [of "g s" "snd (g s)"] by (auto intro: snds.intros)
  then show ?case by simp
qed simp

lemma shared_reads_last: "shared_reads (last_section m p) \<longleftrightarrow> (m = Shared \<longrightarrow> read_only p)"
  by (auto simp: last_section_def shared_reads_Locked prog.set_map)

text \<open>
  The lock's state counts the threads inside; a writer is alone; while no writer is inside, the
  shared state is that of the sections that are done, one after the other; and what a thread inside
  has left to do gives from here what its whole section gives from there.
\<close>

definition thread_ok :: "('s, 'r) job list \<times> 's \<Rightarrow> 's \<Rightarrow> nat \<Rightarrow> ('s, 'r) thread \<Rightarrow> bool" where
  "thread_ok c s i t \<longleftrightarrow>
     (case t of
        Waiting m p \<Rightarrow> fst c ! i = Locked m p
      | Inside m p \<Rightarrow> (\<exists>p0. fst c ! i = Locked m p0 \<and> run p s = run p0 (snd c)) \<and>
          (m = Shared \<longrightarrow> read_only p) \<and> (\<forall>j \<in> set_prog p. shared_reads j)
      | Finished r \<Rightarrow> fst c ! i = Answered r)"

definition lock_ok :: "('s, 'r) pool \<Rightarrow> bool" where
  "lock_ok pl \<longleftrightarrow>
     pl_writer pl = (inside Unique (pl_threads pl) \<noteq> {}) \<and>
     pl_readers pl = card (inside Shared (pl_threads pl)) \<and>
     (\<forall>i \<in> inside Unique (pl_threads pl). inside Unique (pl_threads pl) = {i} \<and> inside Shared (pl_threads pl) = {})"

definition pool_ok :: "('s, 'r) job list \<times> 's \<Rightarrow> ('s, 'r) pool \<Rightarrow> bool" where
  "pool_ok c pl \<longleftrightarrow>
     length (pl_threads pl) = length (fst c) \<and> list_all shared_reads (fst c) \<and> lock_ok pl \<and>
     (\<not> pl_writer pl \<longrightarrow> pl_shared pl = snd c) \<and>
     (\<forall>i < length (fst c). thread_ok c (pl_shared pl) i (pl_threads pl ! i))"

lemma pool_okD:
  assumes "pool_ok c pl" and "i < length (pl_threads pl)"
  shows "thread_ok c (pl_shared pl) i (pl_threads pl ! i)" and "i < length (fst c)"
  using assms by (simp_all add: pool_ok_def)

lemma lock_ok_update:
  assumes "lock_ok pl" and "i < length (pl_threads pl)" and "pl_threads pl ! i = Inside m (Done j)"
  shows "lock_ok (pl\<lparr>pl_writer := pl_writer pl \<and> m = Shared,
    pl_readers := (if m = Shared then pl_readers pl - 1 else pl_readers pl), pl_threads := (pl_threads pl)[i := start_thread j]\<rparr>)"
proof -
  have "i \<in> inside m (pl_threads pl)" using assms(2,3) by (rule inside_mem)
  moreover have "inside n ((pl_threads pl)[i := start_thread j]) = inside n (pl_threads pl) - {i}" for n
    using assms(2) by (simp add: inside_update)
  ultimately show ?thesis using assms(1) by (cases m) (auto simp: lock_ok_def)
qed

lemma lock_step_ok:
  assumes "pool_step l pl pl'" and "lock_ok pl"
  shows "lock_ok pl'"
  using assms(1)
proof (cases rule: pool_step.cases)
  case (lock i p)
  with assms(2) show ?thesis by (auto simp: lock_ok_def inside_update)
next
  case (lock_shared i p)
  then have "i \<notin> inside Shared (pl_threads pl)" by (intro not_inside) auto
  with assms(2) lock_shared show ?thesis by (auto simp: lock_ok_def inside_update)
next
  case (run i m f s' p)
  then show ?thesis using inside_again [OF run(3,4)] assms(2) by (simp add: lock_ok_def)
next
  case (unlock i j)
  with lock_ok_update [OF assms(2) unlock(3,4)] show ?thesis by (simp add: lock_ok_def)
next
  case (unlock_shared i j)
  have "i \<in> inside Shared (pl_threads pl)" using unlock_shared(3,4) by (rule inside_mem)
  then have "\<not> pl_writer pl" using assms(2) by (auto simp: lock_ok_def)
  with unlock_shared lock_ok_update [OF assms(2) unlock_shared(3,4)] show ?thesis by (simp add: lock_ok_def)
qed

text \<open>The threads other than the one that takes a step.\<close>

lemma thread_ok_outside:
  "thread_ok c s i t \<Longrightarrow> (\<And>m p. t \<noteq> Inside m p) \<Longrightarrow> thread_ok c s' i t"
  by (cases t) (auto simp: thread_ok_def)

lemma thread_ok_section:
  "thread_ok c s k t \<Longrightarrow> k \<noteq> i \<Longrightarrow> (\<forall>m p. t \<noteq> Inside m p) \<or> s' = snd c \<Longrightarrow>
     thread_ok ((fst c)[i := j], s') s k t"
  by (cases t) (auto simp: thread_ok_def)

lemma enter_ok:
  assumes "pool_ok c pl" and "i < length (pl_threads pl)" and "pl_threads pl ! i = Waiting m p"
    and "\<not> pl_writer pl" and "lock_ok pl'"
    and "pl' = pl\<lparr>pl_writer := wr, pl_readers := n, pl_threads := (pl_threads pl)[i := Inside m p]\<rparr>"
  shows "pool_ok c pl'"
proof -
  have me: "fst c ! i = Locked m p" using pool_okD(1) [OF assms(1,2)] assms(3) by (simp add: thread_ok_def)
  moreover have "shared_reads (fst c ! i)" using assms(1) pool_okD(2) [OF assms(1,2)] by (simp add: pool_ok_def list_all_length)
  ultimately have "thread_ok c (pl_shared pl) i (Inside m p)"
    using assms(1,4) by (simp add: thread_ok_def pool_ok_def shared_reads_Locked)
  then show ?thesis using assms by (auto simp: pool_ok_def nth_list_update)
qed

lemma run_step_ok:
  assumes "pool_ok c pl" and "i < length (pl_threads pl)" and "pl_threads pl ! i = Inside m (Step f)"
    and "f (pl_shared pl) = (s', p)"
  shows "pool_ok c (pl\<lparr>pl_shared := s', pl_threads := (pl_threads pl)[i := Inside m p]\<rparr>)"
proof -
  let ?pl = "pl\<lparr>pl_shared := s', pl_threads := (pl_threads pl)[i := Inside m p]\<rparr>"
  have lock: "lock_ok pl" using assms(1) by (simp add: pool_ok_def)
  have me: "thread_ok c (pl_shared pl) i (Inside m (Step f))" using pool_okD(1) [OF assms(1,2)] assms(3) by simp
  have read: "m = Shared \<Longrightarrow> s' = pl_shared pl \<and> read_only p"
    using me read_only_step [of f "pl_shared pl" s' p] assms(4) by (simp add: thread_ok_def)
  have mine: "thread_ok c s' i (Inside m p)"
    using me read set_prog_step [of f "pl_shared pl" s' p, OF assms(4)] assms(4) by (auto simp: thread_ok_def)
  have in_m: "i \<in> inside m (pl_threads pl)" using assms(2,3) by (rule inside_mem)
  have alone: "s' = pl_shared pl" if "k \<noteq> i" "k < length (pl_threads pl)" "pl_threads pl ! k = Inside n q" for k n q
  proof (cases m)
    case Unique
    then have "inside Unique (pl_threads pl) = {i}" "inside Shared (pl_threads pl) = {}"
      using lock in_m by (auto simp: lock_ok_def)
    moreover have "k \<in> inside n (pl_threads pl)" using that by (intro inside_mem) auto
    ultimately show ?thesis using that(1) by (cases n) auto
  qed (use read in simp)
  have "thread_ok c s' k ((pl_threads pl)[i := Inside m p] ! k)" if "k < length (pl_threads pl)" for k
  proof (cases "k = i")
    case False
    have "thread_ok c (pl_shared pl) k (pl_threads pl ! k)" using pool_okD(1) [OF assms(1) that] .
    with False alone [OF False that] thread_ok_outside [of c "pl_shared pl" k "pl_threads pl ! k" s'] show ?thesis
      by (cases "\<exists>n q. pl_threads pl ! k = Inside n q") auto
  qed (use mine that in simp)
  moreover have "lock_ok ?pl" using lock_step_ok [OF pool_step.run [OF assms(2-4)] lock] .
  moreover have "s' = snd c" if "\<not> pl_writer pl"
  proof -
    have "m = Shared" using that in_m lock by (cases m) (auto simp: lock_ok_def)
    with read that assms(1) show ?thesis by (simp add: pool_ok_def)
  qed
  ultimately show ?thesis using assms(1) by (simp add: pool_ok_def)
qed

lemma unlock_ok:
  assumes "pool_ok c pl" and "i < length (pl_threads pl)" and "pl_threads pl ! i = Inside m (Done j)"
    and "lock_ok pl'"
    and "pl' = pl\<lparr>pl_writer := wr, pl_readers := n, pl_threads := (pl_threads pl)[i := start_thread j]\<rparr>"
  shows "pool_ok (next_section i c) pl'"
proof -
  let ?c = "((fst c)[i := j], pl_shared pl)"
  have lock: "lock_ok pl" using assms(1) by (simp add: pool_ok_def)
  have i: "i < length (fst c)" using pool_okD(2) [OF assms(1,2)] .
  have in_m: "i \<in> inside m (pl_threads pl)" using assms(2,3) by (rule inside_mem)
  have "thread_ok c (pl_shared pl) i (Inside m (Done j))" using pool_okD(1) [OF assms(1,2)] assms(3) by simp
  then obtain p0 where p0: "fst c ! i = Locked m p0" "run p0 (snd c) = (j, pl_shared pl)" and j: "shared_reads j"
    by (auto simp: thread_ok_def)
  have sect: "next_section i c = ?c" using next_section_Locked [OF p0] .
  have "thread_ok ?c (pl_shared pl) k ((pl_threads pl)[i := start_thread j] ! k)" if k: "k < length (pl_threads pl)" for k
  proof (cases "k = i")
    case True
    then show ?thesis using i k by (cases j) (simp_all add: thread_ok_def)
  next
    case False
    have "pl_shared pl = snd c" if "pl_threads pl ! k = Inside m' q" for m' q
    proof -
      have "k \<in> inside m' (pl_threads pl)" using that k by (intro inside_mem)
      with False in_m lock have "inside Unique (pl_threads pl) = {}"
        by (cases m'; cases m) (auto simp: lock_ok_def)
      then show ?thesis using lock assms(1) by (simp add: lock_ok_def pool_ok_def)
    qed
    then have "thread_ok ?c (pl_shared pl) k (pl_threads pl ! k)"
      using thread_ok_section [OF pool_okD(1) [OF assms(1) k] False] by blast
    with False show ?thesis by simp
  qed
  moreover have "list_all shared_reads ((fst c)[i := j])"
    using assms(1) j set_update_subset_insert [of "fst c" i j] by (auto simp: pool_ok_def list_all_iff)
  ultimately show ?thesis using assms(1,4,5) i by (simp add: pool_ok_def sect)
qed

lemma pool_step_ok:
  assumes "pool_step l pl pl'" and "pool_ok c pl"
  shows "pool_ok (case l of None \<Rightarrow> c | Some i \<Rightarrow> next_section i c) pl'"
proof -
  have lock': "lock_ok pl'" using lock_step_ok [OF assms(1)] assms(2) by (simp add: pool_ok_def)
  from assms(1) show ?thesis
  proof (cases rule: pool_step.cases)
    case (lock i p)
    with enter_ok [OF assms(2) lock(3-5) lock', where n = "pl_readers pl" and wr = True] show ?thesis by simp
  next
    case (lock_shared i p)
    with enter_ok [OF assms(2) lock_shared(3-5) lock', where n = "pl_readers pl + 1" and wr = "pl_writer pl"]
    show ?thesis by simp
  next
    case (run i m f s' p)
    with run_step_ok [OF assms(2)] show ?thesis by simp
  next
    case (unlock i j)
    with unlock_ok [OF assms(2) unlock(3,4) lock', where n = "pl_readers pl" and wr = False] show ?thesis by simp
  next
    case (unlock_shared i j)
    with unlock_ok [OF assms(2) unlock_shared(3,4) lock', where n = "pl_readers pl - 1" and wr = "pl_writer pl"]
    show ?thesis by simp
  qed
qed

locale locked_jobs =
  fixes js :: "('s, 'r) job list"
  assumes reads: "j \<in> set js \<Longrightarrow> shared_reads j"
begin

lemma start_ok: "pool_ok (js, s0) (start_pool js s0)"
proof -
  have "inside m (map start_thread js) = {}" for m
    by (auto simp: inside_def)
  moreover have "thread_ok (js, s0) s0 i (start_thread (js ! i))" for i
    by (cases "js ! i") (auto simp: thread_ok_def)
  ultimately show ?thesis using reads by (simp add: pool_ok_def start_pool_def lock_ok_def list_all_iff)
qed

lemma pool_run_ok: "pool_run (start_pool js s0) hist pl \<Longrightarrow> pool_ok (serial js hist s0) pl"
proof (induction rule: pool_run.induct)
  case start
  show ?case using start_ok by simp
next
  case (step hist pl l pl')
  from pool_step_ok [OF step.hyps(2) step.IH] show ?case
    by (simp add: serial_snoc split: option.splits)
qed

lemma pool_run_length: "pool_run (start_pool js s0) hist pl \<Longrightarrow> length (pl_threads pl) = length js"
proof -
  have "length (fst (serial js hist s0)) = length js"
    by (induction hist rule: rev_induct) (simp_all add: serial_snoc)
  then show "pool_run (start_pool js s0) hist pl \<Longrightarrow> length (pl_threads pl) = length js"
    using pool_run_ok by (simp add: pool_ok_def)
qed

lemma interleaving_is_serial:
  assumes "pool_run (start_pool js s0) hist pl"
  shows "\<not> pl_writer pl \<Longrightarrow> pl_shared pl = snd (serial js hist s0)"
    and "i < length js \<Longrightarrow> pl_threads pl ! i = Finished r \<Longrightarrow> fst (serial js hist s0) ! i = Answered r"
proof -
  have ok: "pool_ok (serial js hist s0) pl" using assms by (rule pool_run_ok)
  then show "\<not> pl_writer pl \<Longrightarrow> pl_shared pl = snd (serial js hist s0)" by (simp add: pool_ok_def)
  assume "i < length js" "pl_threads pl ! i = Finished r"
  then show "fst (serial js hist s0) ! i = Answered r"
    using pool_okD(1) [OF ok, of i] pool_run_length [OF assms] by (simp add: thread_ok_def)
qed

text \<open>Every section in the order is one that its job has come to.\<close>

lemma released_section:
  assumes "pool_run (start_pool js s0) hist pl" and "pool_step (Some i) pl pl'"
  shows "i < length js \<and> (\<exists>m p. fst (serial js hist s0) ! i = Locked m p)"
proof -
  obtain m j where i: "i < length (pl_threads pl)" "pl_threads pl ! i = Inside m (Done j)"
    using assms(2) by (cases rule: pool_step.cases) auto
  have "pool_ok (serial js hist s0) pl" using assms(1) by (rule pool_run_ok)
  from pool_okD(1) [OF this i(1)] i pool_run_length [OF assms(1)] show ?thesis by (auto simp: thread_ok_def)
qed

text \<open>A writer is alone.\<close>

lemma writer_excludes:
  assumes "pool_run (start_pool js s0) hist pl" and "i < length (pl_threads pl)" and "k < length (pl_threads pl)"
    and "pl_threads pl ! i = Inside Unique p" and "pl_threads pl ! k = Inside m q"
  shows "k = i"
proof -
  have "lock_ok pl" using pool_run_ok [OF assms(1)] by (simp add: pool_ok_def)
  then have "inside Unique (pl_threads pl) = {i} \<and> inside Shared (pl_threads pl) = {}"
    using inside_mem [OF assms(2,4)] by (simp add: lock_ok_def)
  then show ?thesis using inside_mem [OF assms(3,5)] by (cases m) auto
qed

text \<open>As long as a thread has not finished, some thread can go on.\<close>

lemma some_step:
  assumes "pool_run (start_pool js s0) hist pl" and "i < length (pl_threads pl)" and "\<And>r. pl_threads pl ! i \<noteq> Finished r"
  shows "\<exists>l pl'. pool_step l pl pl'"
proof (cases "\<exists>k m p. k < length (pl_threads pl) \<and> pl_threads pl ! k = Inside m p")
  case True
  then obtain k m p where k: "k < length (pl_threads pl)" "pl_threads pl ! k = Inside m p" by blast
  show ?thesis
  proof (cases p)
    case (Step f)
    obtain s' q where "f (pl_shared pl) = (s', q)" by fastforce
    with k Step show ?thesis by (blast intro: pool_step.run)
  next
    case (Done j)
    with k show ?thesis by (cases m) (blast intro: pool_step.unlock pool_step.unlock_shared)+
  qed
next
  case False
  then have "inside m (pl_threads pl) = {}" for m by (auto simp: inside_def)
  moreover have "lock_ok pl" using pool_run_ok [OF assms(1)] by (simp add: pool_ok_def)
  ultimately have free: "\<not> pl_writer pl" "pl_readers pl = 0" by (auto simp: lock_ok_def)
  obtain m p where w: "pl_threads pl ! i = Waiting m p"
    using assms(2,3) False by (cases "pl_threads pl ! i") auto
  with assms(2) free show ?thesis by (cases m) (blast intro: pool_step.lock pool_step.lock_shared)+
qed

end

section \<open>Jobs of one section\<close>

text \<open>The jobs one after the other: their replies, and the state afterwards.\<close>

fun replies :: "('s, 'r) job list \<Rightarrow> nat list \<Rightarrow> 's \<Rightarrow> (nat \<times> 'r) list \<times> 's" where
  "replies js [] s = ([], s)"
| "replies js (i # hist) s =
     (let (r, s') = run_job (js ! i) s; (rs, t) = replies js hist s' in ((i, r) # rs, t))"

lemma replies_snoc:
  "replies js (hist @ [i]) s =
     (let (rs, t) = replies js hist s; (r, t') = run_job (js ! i) t in (rs @ [(i, r)], t'))"
  by (induction hist arbitrary: s) (auto split: prod.split)

locale single_jobs = locked_jobs js for js :: "('s, 'r) job list" +
  assumes single: "Locked m p \<in> set js \<Longrightarrow> \<exists>q. Locked m p = last_section m q"
begin

lemma serial_replies:
  assumes "distinct hist" and "set hist \<subseteq> {..<length js}" and "\<forall>i \<in> set hist. \<exists>m p. js ! i = Locked m p"
  shows "snd (serial js hist s0) = snd (replies js hist s0) \<and> length (fst (serial js hist s0)) = length js \<and>
    (\<forall>i < length js. if i \<in> set hist then \<exists>r. fst (serial js hist s0) ! i = Answered r \<and> (i, r) \<in> set (fst (replies js hist s0))
       else fst (serial js hist s0) ! i = js ! i)"
  using assms
proof (induction hist rule: rev_induct)
  case (snoc i hist)
  let ?c = "serial js hist s0"
  have i: "i < length js" "i \<notin> set hist" using snoc.prems by auto
  have IH: "snd ?c = snd (replies js hist s0)" "length (fst ?c) = length js"
    "\<forall>k < length js. if k \<in> set hist then \<exists>r. fst ?c ! k = Answered r \<and> (k, r) \<in> set (fst (replies js hist s0))
       else fst ?c ! k = js ! k"
    using snoc by auto
  obtain m p where p: "js ! i = Locked m p" using snoc.prems(3) by auto
  with i(1) obtain q where q: "js ! i = last_section m q" using single by (metis nth_mem)
  obtain r t where r: "run q (snd ?c) = (r, t)" by fastforce
  have "fst ?c ! i = Locked m (map_prog Answered q)" using IH(3) i q by (simp add: last_section_def)
  then have "serial js (hist @ [i]) s0 = ((fst ?c)[i := Answered r], t)"
    using r by (simp add: serial_snoc next_section_def run_simps)
  moreover have "replies js (hist @ [i]) s0 = (fst (replies js hist s0) @ [(i, r)], t)"
    using r q IH(1) by (simp add: replies_snoc run_simps case_prod_beta)
  ultimately show ?case using IH(2,3) i by (auto simp: nth_list_update)
qed simp

lemma single_run:
  assumes "pool_run (start_pool js s0) hist pl"
  shows "distinct hist \<and> set hist \<subseteq> {..<length js} \<and> (\<forall>i \<in> set hist. \<exists>m p. js ! i = Locked m p)"
  using assms
proof (induction rule: pool_run.induct)
  case (step hist pl l pl')
  show ?case
  proof (cases l)
    case (Some i)
    from released_section [OF step.hyps(1)] step.hyps(2) Some
    obtain m p where i: "i < length js" "fst (serial js hist s0) ! i = Locked m p" by blast
    have hist: "distinct hist" "set hist \<subseteq> {..<length js}" "\<forall>i \<in> set hist. \<exists>m p. js ! i = Locked m p"
      using step.IH by simp_all
    have "i \<notin> set hist" "js ! i = Locked m p"
      using serial_replies [OF hist, of s0] i by (auto split: if_splits)
    with hist i(1) Some show ?thesis by auto
  qed (use step.IH in simp)
qed simp

lemma single_interleaving:
  assumes "pool_run (start_pool js s0) hist pl"
  shows "\<not> pl_writer pl \<Longrightarrow> pl_shared pl = snd (replies js hist s0)"
    and "i < length js \<Longrightarrow> pl_threads pl ! i = Finished r \<Longrightarrow>
      i \<notin> set hist \<and> js ! i = Answered r \<or> (i, r) \<in> set (fst (replies js hist s0))"
    and "distinct hist" and "set hist \<subseteq> {..<length js}"
proof -
  have hist: "distinct hist" "set hist \<subseteq> {..<length js}" "\<forall>i \<in> set hist. \<exists>m p. js ! i = Locked m p"
    using single_run [OF assms] by simp_all
  note facts = serial_replies [OF hist, of s0]
  show "\<not> pl_writer pl \<Longrightarrow> pl_shared pl = snd (replies js hist s0)"
    using interleaving_is_serial(1) [OF assms] facts by simp
  show "distinct hist" "set hist \<subseteq> {..<length js}" using hist by simp_all
  assume "i < length js" "pl_threads pl ! i = Finished r"
  then show "i \<notin> set hist \<and> js ! i = Answered r \<or> (i, r) \<in> set (fst (replies js hist s0))"
    using interleaving_is_serial(2) [OF assms, of i r] facts by (auto split: if_splits)
qed

end

section \<open>Every schedule ends\<close>

text \<open>A step of a thread brings it nearer to its end; the others stay where they are.\<close>

inductive nearer :: "('s, 'r) thread \<Rightarrow> ('s, 'r) thread \<Rightarrow> bool" where
  entered: "nearer (Inside m p) (Waiting m p)"
| ran: "f s = (s', p) \<Longrightarrow> nearer (Inside m p) (Inside m (Step f))"
| left: "nearer (start_thread j) (Inside m (Done j))"

inductive_cases nearer_WaitingE: "nearer t (Waiting m p)"
inductive_cases nearer_StepE: "nearer t (Inside m (Step f))"
inductive_cases nearer_DoneE: "nearer t (Inside m (Done j))"
inductive_cases nearer_FinishedE: "nearer t (Finished r)"

lemma accp_finished: "Wellfounded.accp nearer (Finished r)"
  by (rule accp.accI) (auto elim: nearer_FinishedE)

lemma accp_waiting: "Wellfounded.accp nearer (Inside m p) \<Longrightarrow> Wellfounded.accp nearer (Waiting m p)"
  by (rule accp.accI) (auto elim: nearer_WaitingE)

lemma accp_section:
  fixes p :: "('s, ('s, 'r) job) prog"
  assumes "\<And>j. j \<in> set_prog p \<Longrightarrow> Wellfounded.accp nearer (start_thread j)"
  shows "Wellfounded.accp nearer (Inside m p)"
  using assms
proof (induction p)
  case (Done j)
  show ?case
  proof (rule accp.accI)
    fix t :: "('s, 'r) thread"
    assume "nearer t (Inside m (Done j))"
    then show "Wellfounded.accp nearer t" using Done by (auto elim: nearer_DoneE)
  qed
next
  case (Step f)
  show ?case
  proof (rule accp.accI)
    fix t :: "('s, 'r) thread"
    assume "nearer t (Inside m (Step f))"
    then show "Wellfounded.accp nearer t"
    proof (rule nearer_StepE)
      fix s s' p
      assume f: "f s = (s', p)" and t: "t = Inside m p"
      have "(s', p) \<in> range f" using f by (metis rangeI)
      moreover have "Wellfounded.accp nearer (start_thread j)" if "j \<in> set_prog p" for j
        using Step.prems set_prog_step [of f s s' p, OF f] that by blast
      ultimately show ?thesis using Step.IH [of "(s', p)" p] t by simp
    qed
  qed
qed

lemma accp_start: "Wellfounded.accp nearer (start_thread j)"
proof (induction j)
  case (Answered r)
  show ?case by (simp add: accp_finished)
next
  case (Locked m p)
  then show ?case by (simp add: accp_waiting accp_section)
qed

lemma wfp_nearer: "wfp nearer"
proof (rule accp_wfpI, rule allI)
  fix t :: "('s, 'r) thread"
  show "Wellfounded.accp nearer t"
    by (cases t) (simp_all add: accp_waiting accp_section accp_start accp_finished)
qed

definition pool_measure :: "('s, 'r) pool \<Rightarrow> ('s, 'r) thread multiset" where
  "pool_measure pl = mset (pl_threads pl)"

lemma pool_step_nearer:
  assumes "pool_step l pl pl'"
  shows "\<exists>i t. i < length (pl_threads pl) \<and> nearer t (pl_threads pl ! i) \<and> pl_threads pl' = (pl_threads pl)[i := t]"
  using assms
proof (cases rule: pool_step.cases)
  case (lock i p)
  then show ?thesis using nearer.entered by (intro exI [of _ i] exI [of _ "Inside Unique p"]) simp
next
  case (lock_shared i p)
  then show ?thesis using nearer.entered by (intro exI [of _ i] exI [of _ "Inside Shared p"]) simp
next
  case (run i m f s' p)
  then show ?thesis using nearer.ran by (intro exI [of _ i] exI [of _ "Inside m p"]) auto
next
  case (unlock i j)
  then show ?thesis using nearer.left by (intro exI [of _ i] exI [of _ "start_thread j"]) simp
next
  case (unlock_shared i j)
  then show ?thesis using nearer.left by (intro exI [of _ i] exI [of _ "start_thread j"]) simp
qed

lemma pool_step_decreases:
  assumes "pool_step l pl pl'"
  shows "(pool_measure pl', pool_measure pl) \<in> mult1 {(t', t). nearer t' t}"
proof -
  obtain i t where *: "i < length (pl_threads pl)" "nearer t (pl_threads pl ! i)"
    "pl_threads pl' = (pl_threads pl)[i := t]"
    using pool_step_nearer [OF assms] by blast
  let ?rest = "mset (pl_threads pl) - {#pl_threads pl ! i#}"
  have "pool_measure pl' = add_mset t ?rest" "pool_measure pl = add_mset (pl_threads pl ! i) ?rest"
    using * by (simp_all add: pool_measure_def mset_update)
  then show ?thesis
    using *(2) by (intro mult1I [of _ "pl_threads pl ! i" ?rest _ "{#t#}"]) auto
qed

lemma no_endless_schedule:
  fixes pls :: "nat \<Rightarrow> ('s, 'r) pool"
  shows "\<not> (\<forall>n. pool_step (ls n) (pls n) (pls (Suc n)))"
proof
  assume "\<forall>n. pool_step (ls n) (pls n) (pls (Suc n))"
  then have "\<forall>n. ((pool_measure \<circ> pls) (Suc n), (pool_measure \<circ> pls) n) \<in> mult1 {(t', t). nearer t' t}"
    using pool_step_decreases by fastforce
  moreover have "wf (mult1 {(t', t). nearer (t' :: ('s, 'r) thread) t})"
    using wfp_nearer by (intro wf_mult1) (simp add: wfp_def)
  ultimately show False unfolding wf_iff_no_infinite_down_chain by blast
qed

text \<open>So there is a schedule at whose end all threads have finished, and no one holds the lock.\<close>

context locked_jobs
begin

lemma finished_run:
  "\<exists>hist pl. pool_run (start_pool js s0) hist pl \<and> \<not> pl_writer pl \<and> (\<forall>i < length js. \<exists>r. pl_threads pl ! i = Finished r)"
proof -
  let ?R = "mult1 {(t', t). nearer (t' :: ('s, 'r) thread) t}"
  let ?M = "pool_measure ` {pl. \<exists>hist. pool_run (start_pool js s0) hist pl}"
  have wf: "wf ?R" using wfp_nearer by (intro wf_mult1) (simp add: wfp_def)
  have "pool_measure (start_pool js s0) \<in> ?M" using pool_run.start by blast
  from wfE_min [OF wf this] obtain m where m: "m \<in> ?M" "\<And>m'. (m', m) \<in> ?R \<Longrightarrow> m' \<notin> ?M" by blast
  then obtain hist pl where pl: "pool_run (start_pool js s0) hist pl" "m = pool_measure pl" by blast
  have "\<not> pool_step l pl pl'" for l pl'
  proof
    assume step: "pool_step l pl pl'"
    then have "pool_measure pl' \<in> ?M" using pool_run.step [OF pl(1)] by blast
    moreover have "pool_measure pl' \<notin> ?M" using m(2) pool_step_decreases [OF step] pl(2) by simp
    ultimately show False by blast
  qed
  then have finished: "\<forall>i < length js. \<exists>r. pl_threads pl ! i = Finished r"
    using some_step [OF pl(1)] pool_run_length [OF pl(1)] by metis
  then have "inside Unique (pl_threads pl) = {}"
    using pool_run_length [OF pl(1)] by (fastforce simp: inside_def)
  then have "\<not> pl_writer pl"
    using pool_run_ok [OF pl(1)] by (simp add: pool_ok_def lock_ok_def)
  with pl(1) finished show ?thesis by blast
qed

end

section \<open>Schedules that run\<close>

text \<open>\<open>advance i\<close> lets thread \<open>i\<close> take its step, if the lock lets it; a schedule names the threads in turn.\<close>

fun advance :: "nat \<Rightarrow> ('s, 'r) pool \<Rightarrow> (nat option \<times> ('s, 'r) pool) option" where
  "advance i pl =
     (if i < length (pl_threads pl) then
        case pl_threads pl ! i of
          Waiting Unique p \<Rightarrow>
            if pl_writer pl \<or> pl_readers pl \<noteq> 0 then None
            else Some (None, pl\<lparr>pl_writer := True, pl_threads := (pl_threads pl)[i := Inside Unique p]\<rparr>)
        | Waiting Shared p \<Rightarrow>
            if pl_writer pl then None
            else Some (None, pl\<lparr>pl_readers := pl_readers pl + 1, pl_threads := (pl_threads pl)[i := Inside Shared p]\<rparr>)
        | Inside m (Step f) \<Rightarrow>
            (case f (pl_shared pl) of
               (s', p) \<Rightarrow> Some (None, pl\<lparr>pl_shared := s', pl_threads := (pl_threads pl)[i := Inside m p]\<rparr>))
        | Inside Unique (Done j) \<Rightarrow>
            Some (Some i, pl\<lparr>pl_writer := False, pl_threads := (pl_threads pl)[i := start_thread j]\<rparr>)
        | Inside Shared (Done j) \<Rightarrow>
            Some (Some i, pl\<lparr>pl_readers := pl_readers pl - 1, pl_threads := (pl_threads pl)[i := start_thread j]\<rparr>)
        | Finished r \<Rightarrow> None
      else None)"

lemma advance_step: "advance i pl = Some (l, pl') \<Longrightarrow> pool_step l pl pl'"
  using pool_step.lock_shared [of i pl, unfolded One_nat_def add_Suc_right add_0_right]
    pool_step.unlock_shared [of i pl, unfolded One_nat_def]
  by (auto split: if_splits thread.splits mode.splits prog.splits prod.splits intro: pool_step.intros)

fun schedule :: "nat list \<Rightarrow> nat list \<Rightarrow> ('s, 'r) pool \<Rightarrow> nat list \<times> ('s, 'r) pool" where
  "schedule [] hist pl = (hist, pl)"
| "schedule (i # turns) hist pl =
     (case advance i pl of
        None \<Rightarrow> schedule turns hist pl
      | Some (l, pl') \<Rightarrow> schedule turns (case l of None \<Rightarrow> hist | Some j \<Rightarrow> hist @ [j]) pl')"

lemma schedule_from: "pool_run pl0 hist pl \<Longrightarrow> schedule turns hist pl = (hist', pl') \<Longrightarrow> pool_run pl0 hist' pl'"
proof (induction turns arbitrary: hist pl)
  case (Cons i turns)
  show ?case
  proof (cases "advance i pl")
    case None
    with Cons show ?thesis by simp
  next
    case (Some x)
    obtain l pl1 where x: "x = (l, pl1)" by fastforce
    with Some have "pool_step l pl pl1" using advance_step by blast
    with Cons.prems(1) have "pool_run pl0 (case l of None \<Rightarrow> hist | Some j \<Rightarrow> hist @ [j]) pl1" by (rule pool_run.step)
    with Cons.IH Cons.prems(2) Some x show ?thesis by simp
  qed
qed simp

lemma schedule_run: "schedule turns [] pl = (hist, pl') \<Longrightarrow> pool_run pl hist pl'"
  using schedule_from [OF pool_run.start] .

end
