(* ===== verification/Lock_Discipline.thy ===== *)
theory Lock_Discipline
  imports Shared_Lock
begin

text \<open>
  Code that locks and unlocks a \<open>std::shared_mutex\<close>, as single instructions.

  \<open>Shared_Lock\<close> takes critical sections as wholes; here the locking and the unlocking are
  instructions of the code, and nothing keeps the code from leaving one out, from locking twice or
  from looping for ever: code is a codatatype.  \<open>lock_step\<close> is one instruction of one thread, and a
  thread can wait for another, for itself, or for ever.  \<open>closes\<close> is the discipline code has to
  follow, and the locale \<open>disciplined\<close> draws what follows from it for any number of threads: no
  deadlock, no endless schedule, and a free lock at the end.  \<open>code_of_job\<close> is the code of a job of
  \<open>Shared_Lock\<close>.
\<close>

section \<open>Code and threads\<close>

codatatype ('s, 'r) code =
    Return 'r
  | Perform "'s \<Rightarrow> 's \<times> ('s, 'r) code"
  | Lock mode "('s, 'r) code"
  | Unlock "('s, 'r) code"

text \<open>A thread is the mode in which it holds the lock, if it does, and the code it has left.\<close>

type_synonym ('s, 'r) runner = "mode option \<times> ('s, 'r) code"

record ('s, 'r) crew =
  cw_shared :: 's
  cw_runners :: "('s, 'r) runner list"

definition start_crew :: "('s, 'r) code list \<Rightarrow> 's \<Rightarrow> ('s, 'r) crew" where
  "start_crew cs s = \<lparr>cw_shared = s, cw_runners = map (Pair None) cs\<rparr>"

text \<open>
  Who holds the lock keeps others out, and itself: a thread that locks a mutex it holds already
  waits.  Unlocking without holding it is an instruction that cannot be executed.
\<close>

definition grants :: "mode \<Rightarrow> ('s, 'r) runner list \<Rightarrow> bool" where
  "grants m ts = (case m of
     Unique \<Rightarrow> list_all (\<lambda>t. fst t = None) ts
   | Shared \<Rightarrow> list_all (\<lambda>t. fst t \<noteq> Some Unique) ts)"

fun runner_step :: "('s, 'r) runner list \<Rightarrow> 's \<Rightarrow> ('s, 'r) runner \<Rightarrow> ('s \<times> ('s, 'r) runner) option" where
  "runner_step ts s (held, Return r) = None"
| "runner_step ts s (held, Perform f) = (case f s of (s', c) \<Rightarrow> Some (s', (held, c)))"
| "runner_step ts s (None, Lock m c) = (if grants m ts then Some (s, (Some m, c)) else None)"
| "runner_step ts s (Some n, Lock m c) = None"
| "runner_step ts s (Some n, Unlock c) = Some (s, (None, c))"
| "runner_step ts s (None, Unlock c) = None"

inductive lock_step :: "nat \<Rightarrow> ('s, 'r) crew \<Rightarrow> ('s, 'r) crew \<Rightarrow> bool" where
  step: "i < length (cw_runners cw) \<Longrightarrow>
    runner_step (cw_runners cw) (cw_shared cw) (cw_runners cw ! i) = Some (s', t) \<Longrightarrow>
    lock_step i cw \<lparr>cw_shared = s', cw_runners = (cw_runners cw)[i := t]\<rparr>"

inductive_cases lock_stepE: "lock_step i cw cw'"

inductive lock_run :: "('s, 'r) crew \<Rightarrow> ('s, 'r) crew \<Rightarrow> bool" for cw0 where
  start: "lock_run cw0 cw0"
| step: "lock_run cw0 cw \<Longrightarrow> lock_step i cw cw' \<Longrightarrow> lock_run cw0 cw'"

text \<open>The threads take the instructions that are asked of them, and nothing happens where they cannot.\<close>

fun run_schedule :: "nat list \<Rightarrow> ('s, 'r) crew \<Rightarrow> ('s, 'r) crew" where
  "run_schedule [] cw = cw"
| "run_schedule (i # is) cw =
     run_schedule is
       (if i < length (cw_runners cw)
        then case runner_step (cw_runners cw) (cw_shared cw) (cw_runners cw ! i) of
               None \<Rightarrow> cw
             | Some (s', t) \<Rightarrow> \<lparr>cw_shared = s', cw_runners = (cw_runners cw)[i := t]\<rparr>
        else cw)"

lemma lock_run_schedule: "lock_run cw0 cw \<Longrightarrow> lock_run cw0 (run_schedule is cw)"
  by (induction "is" arbitrary: cw) (auto split: option.split intro: lock_run.step lock_step.step)

section \<open>The discipline\<close>

text \<open>
  Code locks only what it does not hold, unlocks what it holds, does not hold the lock at its end,
  and comes to its end whatever the shared state is when it looks at it.
\<close>

inductive closes :: "mode option \<Rightarrow> ('s, 'r) code \<Rightarrow> bool" where
  return: "closes None (Return r)"
| perform: "(\<And>s. closes held (snd (f s))) \<Longrightarrow> closes held (Perform f)"
| lock: "closes (Some m) c \<Longrightarrow> closes None (Lock m c)"
| unlock: "closes None c \<Longrightarrow> closes (Some m) (Unlock c)"

inductive_simps closes_simps [simp]:
  "closes held (Return r)"
  "closes held (Perform f)"
  "closes held (Lock m c)"
  "closes held (Unlock c)"

text \<open>An instruction brings a thread nearer to its end.\<close>

definition advance :: "(('s, 'r) runner \<times> ('s, 'r) runner) set" where
  "advance = {(t', t). \<exists>ts s s'. runner_step ts s t = Some (s', t')}"

lemma advanceE:
  assumes "(t, (held, c)) \<in> advance"
  obtains (perform) f s where "c = Perform f" and "t = (held, snd (f s))"
  | (lock) m c' where "c = Lock m c'" and "held = None" and "t = (Some m, c')"
  | (unlock) m c' where "c = Unlock c'" and "held = Some m" and "t = (None, c')"
proof -
  obtain ts s s' where step: "runner_step ts s (held, c) = Some (s', t)"
    using assms by (auto simp: advance_def)
  show thesis
  proof (cases c)
    case (Perform f)
    then show ?thesis using step perform [of f s] by (auto split: prod.splits)
  next
    case (Lock m c')
    then show ?thesis using step lock by (cases held) (auto split: if_splits)
  next
    case (Unlock c')
    then show ?thesis using step unlock by (cases held) auto
  qed (use step in simp)
qed

lemma closes_advance: "closes held c \<Longrightarrow> (t, (held, c)) \<in> advance \<Longrightarrow> closes (fst t) (snd t)"
  by (erule advanceE) simp_all

lemma closes_acc: "closes held c \<Longrightarrow> (held, c) \<in> Wellfounded.acc advance"
proof (induction rule: closes.induct)
  case (return r)
  show ?case
  proof (rule acc.accI)
    fix t assume "(t, (None, Return r)) \<in> advance"
    then show "t \<in> Wellfounded.acc advance" by (rule advanceE) simp_all
  qed
next
  case (perform held f)
  show ?case
  proof (rule acc.accI)
    fix t assume "(t, (held, Perform f)) \<in> advance"
    then show "t \<in> Wellfounded.acc advance" by (rule advanceE) (use perform.IH in simp_all)
  qed
next
  case (lock m c)
  show ?case
  proof (rule acc.accI)
    fix t assume "(t, (None, Lock m c)) \<in> advance"
    then show "t \<in> Wellfounded.acc advance" by (rule advanceE) (use lock.IH in simp_all)
  qed
next
  case (unlock c m)
  show ?case
  proof (rule acc.accI)
    fix t assume "(t, (Some m, Unlock c)) \<in> advance"
    then show "t \<in> Wellfounded.acc advance" by (rule advanceE) (use unlock.IH in simp_all)
  qed
qed

lemma lock_step_advance:
  assumes "lock_step i cw cw'"
  shows "(cw_runners cw', cw_runners cw) \<in> listrel1 advance"
  using assms
proof (cases rule: lock_step.cases)
  case (step s' t)
  then have "(t, cw_runners cw ! i) \<in> advance" by (auto simp: advance_def)
  moreover have "cw_runners cw = take i (cw_runners cw) @ cw_runners cw ! i # drop (Suc i) (cw_runners cw)"
    using step(2) by (rule id_take_nth_drop)
  moreover have "cw_runners cw' = take i (cw_runners cw) @ t # drop (Suc i) (cw_runners cw)"
    using step(1,2) by (simp add: upd_conv_take_nth_drop)
  ultimately show ?thesis by (metis listrel1I)
qed

text \<open>From the accessible part of a relation no descent is endless.\<close>

lemma acc_no_descent: "x \<in> Wellfounded.acc r \<Longrightarrow> f 0 = x \<Longrightarrow> \<exists>n. (f (Suc n), f n) \<notin> r"
proof (induction x arbitrary: f rule: acc.induct)
  case (accI x)
  show ?case
  proof (rule ccontr)
    assume descent: "\<not> ?case"
    then have "(f (Suc 0), x) \<in> r" using accI.prems by blast
    from accI.IH [OF this, of "\<lambda>n. f (Suc n)"] descent show False by blast
  qed
qed

locale disciplined =
  fixes cs :: "('s, 'r) code list"
  assumes closed: "c \<in> set cs \<Longrightarrow> closes None c"
begin

lemma crew_closes:
  assumes "lock_run (start_crew cs s) cw"
  shows "length (cw_runners cw) = length cs" and "\<forall>t \<in> set (cw_runners cw). closes (fst t) (snd t)"
proof -
  have "length (cw_runners cw) = length cs \<and> (\<forall>t \<in> set (cw_runners cw). closes (fst t) (snd t))"
    using assms
  proof (induction rule: lock_run.induct)
    case start
    show ?case using closed by (auto simp: start_crew_def)
  next
    case (step cw i cw')
    from step.hyps(2) show ?case
    proof (cases rule: lock_step.cases)
      case (step s' t)
      have old: "cw_runners cw ! i \<in> set (cw_runners cw)" using step(2) by simp
      have "(t, cw_runners cw ! i) \<in> advance" using step(3) by (auto simp: advance_def)
      then have "closes (fst t) (snd t)"
        using closes_advance [of "fst (cw_runners cw ! i)" "snd (cw_runners cw ! i)" t]
          \<open>length (cw_runners cw) = length cs \<and> (\<forall>t \<in> set (cw_runners cw). closes (fst t) (snd t))\<close> old
        by simp
      then show ?thesis
        using step(1) \<open>length (cw_runners cw) = length cs \<and> (\<forall>t \<in> set (cw_runners cw). closes (fst t) (snd t))\<close>
        by (auto dest!: set_update_subset_insert [THEN subsetD])
    qed
  qed
  then show "length (cw_runners cw) = length cs" "\<forall>t \<in> set (cw_runners cw). closes (fst t) (snd t)" by simp_all
qed

text \<open>Whoever holds the lock can go on; and when nobody holds it, whoever asks for it gets it.\<close>

lemma holder_steps:
  assumes "closes (Some m) c"
  shows "\<exists>x. runner_step ts s (Some m, c) = Some x"
  using assms by (cases c) (auto split: prod.split)

lemma free_steps:
  assumes "closes None c" and "\<forall>t \<in> set ts. fst t = None" and "\<And>r. c \<noteq> Return r"
  shows "\<exists>x. runner_step ts s (None, c) = Some x"
proof -
  have "grants m ts" for m using assms(2) by (cases m) (auto simp: grants_def list_all_iff)
  then show ?thesis using assms by (cases c) (auto split: prod.split)
qed

lemma no_deadlock:
  assumes "lock_run (start_crew cs s) cw" and "\<nexists>i cw'. lock_step i cw cw'" and "i < length cs"
  shows "\<exists>r. cw_runners cw ! i = (None, Return r)"
proof -
  let ?ts = "cw_runners cw"
  have len: "length ?ts = length cs" and ok: "\<forall>t \<in> set ?ts. closes (fst t) (snd t)"
    using crew_closes [OF assms(1)] by simp_all
  have stuck: "runner_step ?ts (cw_shared cw) t = None" if "t \<in> set ?ts" for t
  proof (rule ccontr)
    assume "runner_step ?ts (cw_shared cw) t \<noteq> None"
    with that show False using assms(2) by (fastforce simp: in_set_conv_nth dest: lock_step.step)
  qed
  have free: "\<forall>t \<in> set ?ts. fst t = None"
  proof
    fix t
    assume t: "t \<in> set ?ts"
    show "fst t = None"
    proof (cases "fst t")
      case (Some m)
      then have "\<exists>x. runner_step ?ts (cw_shared cw) (Some m, snd t) = Some x"
        using ok t by (intro holder_steps) metis
      then show ?thesis using stuck [OF t] Some by (metis option.distinct(1) prod.collapse)
    qed
  qed
  have mem: "?ts ! i \<in> set ?ts" using assms(3) len by simp
  then have "?ts ! i = (None, snd (?ts ! i))" using free by (metis prod.collapse)
  moreover have "\<exists>r. snd (?ts ! i) = Return r"
    using free_steps [of "snd (?ts ! i)" ?ts] free stuck [OF mem] ok mem calculation
    by (metis option.distinct(1))
  ultimately show ?thesis by metis
qed

lemma no_endless_run:
  assumes "lock_run (start_crew cs s) (cws 0)"
  shows "\<exists>n. \<not> lock_step (ls n) (cws n) (cws (Suc n))"
proof -
  have "\<forall>t \<in> set (cw_runners (cws 0)). t \<in> Wellfounded.acc advance"
    using crew_closes(2) [OF assms] closes_acc by (metis prod.collapse)
  then have "cw_runners (cws 0) \<in> Wellfounded.acc (listrel1 advance)"
    by (intro lists_accD) (simp add: in_lists_conv_set)
  from acc_no_descent [OF this, of "\<lambda>n. cw_runners (cws n)"] show ?thesis
    using lock_step_advance by blast
qed

end

section \<open>The code of a job\<close>

primrec code_of_prog :: "('s, ('s, 'r) code) prog \<Rightarrow> ('s, 'r) code" where
  "code_of_prog (Done c) = c"
| "code_of_prog (Step f) = Perform (\<lambda>s. (map_prod id code_of_prog \<circ> f) s)"

primrec code_of_job :: "('s, 'r) job \<Rightarrow> ('s, 'r) code" where
  "code_of_job (Answered r) = Return r"
| "code_of_job (Locked m p) = Lock m (code_of_prog (map_prog Unlock (map_prog code_of_job p)))"

named_theorems code_simps \<open>the code of a job\<close>

lemma map_bind_prog [code_simps]: "map_prog g (bind_prog p k) = bind_prog p (\<lambda>r. map_prog g (k r))"
proof (induction p)
  case (Step f)
  have "map_prog g (bind_prog (snd (f s)) k) = bind_prog (snd (f s)) (\<lambda>r. map_prog g (k r))" for s
    using Step [of "f s" "snd (f s)"] by (auto intro: snds.intros)
  then show ?case by (simp add: fun_eq_iff map_prod_def case_prod_beta)
qed simp

lemma map_ebind_prog [code_simps]:
  "map_prog g (ebind_prog p k) =
     bind_prog p (\<lambda>r. case r of Inl e \<Rightarrow> Done (g (Inl e)) | Inr x \<Rightarrow> map_prog g (k x))"
  by (auto simp: ebind_prog_def map_bind_prog intro!: arg_cong2 [where f = bind_prog] split: sum.split)

lemma code_atomically [code_simps]:
  "code_of_prog (bind_prog (atomically f) k) = Perform (\<lambda>s. case f s of (r, s') \<Rightarrow> (s', code_of_prog (k r)))"
  by (auto simp: atomically_def fun_eq_iff split: prod.split)

lemma code_observe [code_simps]:
  "code_of_prog (bind_prog (observe f) k) = Perform (\<lambda>s. (s, code_of_prog (k (f s))))"
  by (simp add: observe_def code_atomically)

lemma code_change [code_simps]:
  "code_of_prog (bind_prog (change f) k) = Perform (\<lambda>s. (f s, code_of_prog (k ())))"
  by (simp add: change_def code_atomically)

lemma bind_assoc [code_simps]: "bind_prog (bind_prog p k) g = bind_prog p (\<lambda>r. bind_prog (k r) g)"
proof (induction p)
  case (Step f)
  have "bind_prog (bind_prog (snd (f s)) k) g = bind_prog (snd (f s)) (\<lambda>r. bind_prog (k r) g)" for s
    using Step [of "f s" "snd (f s)"] by (auto intro: snds.intros)
  then show ?case by (simp add: fun_eq_iff map_prod_def case_prod_beta)
qed simp

lemma code_last_section [code_simps]:
  "code_of_job (last_section m p) = Lock m (code_of_prog (map_prog (\<lambda>r. Unlock (Return r)) p))"
  by (simp add: last_section_def prog.map_comp comp_def)

end
