(* ===== verification/Api_Props.thy ===== *)
theory Api_Props
  imports Api_Handler "HOL-Library.Multiset"
begin

text \<open>
  What the API handler does: which ids are numbers, what each successful request does to the
  files and to the table, that the table stays well formed, and that the handler refines an
  abstract store of entities keyed by name and id.
\<close>

section \<open>Ids and names in a target\<close>

lemma is_num_to_string: "in_int i \<Longrightarrow> is_num (to_string i)"
  by (simp add: is_num_def stoi_to_string)

lemma is_num_iff: "is_num s \<longleftrightarrow> (\<exists>i. in_int i \<and> s = to_string i)"
proof
  assume "is_num s"
  then obtain i where "stoi s = Inr i" "to_string i = s" by (auto simp: is_num_def split: sum.splits)
  then show "\<exists>i. in_int i \<and> s = to_string i" using stoi_in_int by auto
qed (auto simp: is_num_to_string)

lemma nat_to_string_no_slash: "SLASH \<notin> set (nat_to_string n)"
  using nat_to_string_digits [of n] by (auto simp: list_all_iff is_digit_def)

lemma to_string_no_slash [simp]: "SLASH \<notin> set (to_string i)"
  by (simp add: to_string_def nat_to_string_no_slash)

lemma after_last_slash_append [simp]: "SLASH \<notin> set b \<Longrightarrow> after_last_slash (a @ SLASH # b) = length a + 1"
  by (simp add: after_last_slash_def)

lemma before_last_slash_append [simp]: "SLASH \<notin> set b \<Longrightarrow> before_last_slash (a @ SLASH # b) = a"
  by (simp add: before_last_slash_def)

lemma after_last_slash_le: "after_last_slash uri \<le> length uri"
  by (auto simp: after_last_slash_def split: option.split intro: Suc_leI find_last_of_less)

lemma get_json_id_cases:
  "(\<exists>i. get_json_id uri = Inr i \<and> in_int i \<and> drop (after_last_slash uri) uri = to_string i) \<or>
   get_json_id uri = Inr (- 1)"
  using after_last_slash_le [of uri] is_num_iff [of "drop (after_last_slash uri) uri"]
  by (auto simp: get_json_id_def substr_from_def stoi_to_string)

lemma get_json_id_in_int: "get_json_id uri = Inr i \<Longrightarrow> in_int i"
  using get_json_id_cases [of uri] by (auto simp: in_int_def INT_MIN_def INT_MAX_def)

lemma get_json_id_total: "\<exists>i. get_json_id uri = Inr i"
  using get_json_id_cases [of uri] by auto

lemma get_json_id_entity [simp]:
  "in_int i \<Longrightarrow> get_json_id (a @ SLASH # to_string i) = Inr i"
  by (simp add: get_json_id_def substr_from_def is_num_to_string stoi_to_string)

lemma get_json_name_entity:
  "in_int i \<Longrightarrow> get_json_name h (ah_location h @ name @ SLASH # to_string i) = Inr name"
proof -
  assume "in_int i"
  then have "get_json_id ((ah_location h @ name) @ SLASH # to_string i) = Inr i"
    by (rule get_json_id_entity)
  moreover have "before_last_slash ((ah_location h @ name) @ SLASH # to_string i) = ah_location h @ name"
    by (rule before_last_slash_append) simp
  ultimately show ?thesis
    by (simp add: get_json_name_def get_json_name_no_id_def)
qed

lemma file_path_of_append [simp]: "file_path_of h (ah_location h @ suffix) = Inr (ah_root h @ suffix)"
  by (simp add: file_path_of_def)

lemma file_path_of_Inr:
  "file_path_of h uri = Inr p \<longleftrightarrow> length (ah_location h) \<le> length uri \<and> p = ah_root h @ drop (length (ah_location h)) uri"
  by (auto simp: file_path_of_def substr_from_def)

lemma on_files_Inr:
  "on_files f w = (Inr x, w') \<longleftrightarrow> (\<exists>s. f (aw_files w) = (Inr x, s) \<and> w' = w\<lparr>aw_files := s\<rparr>)"
  by (auto simp: on_files_def split: prod.splits)

lemma on_files_storage [simp]: "aw_storage (snd (on_files f w)) = aw_storage w"
  by (simp add: on_files_def split: prod.split)

lemma on_files_storageD: "on_files f w = (r, w') \<Longrightarrow> aw_storage w' = aw_storage w"
  using on_files_storage [of f w] by simp

lemma storage_put_after_index:
  "storage_index n st = (m, st') \<Longrightarrow> storage_put n i e st' = storage_put n i e st"
  using storage_index_put [of n i e st] by simp

lemma lookup_after_index:
  "storage_index n st = (m, st') \<Longrightarrow> storage_lookup st' = storage_lookup st"
  using storage_index_lookup [of n st] by (auto simp: fun_eq_iff)

lemma storage_ok_after_index: "storage_index n st = (m, st') \<Longrightarrow> storage_ok st \<Longrightarrow> storage_ok st'"
  using storage_ok_index [of st n] by simp

section \<open>What a successful request did\<close>

lemma status_neq [simp]:
  "HTTP_STATUS_CREATED \<noteq> HTTP_STATUS_BAD_REQUEST" "HTTP_STATUS_BAD_REQUEST \<noteq> HTTP_STATUS_CREATED"
  "HTTP_STATUS_CREATED \<noteq> HTTP_STATUS_INTERNAL_SERVER_ERROR"
  "HTTP_STATUS_INTERNAL_SERVER_ERROR \<noteq> HTTP_STATUS_CREATED"
  "HTTP_STATUS_OK \<noteq> HTTP_STATUS_BAD_REQUEST" "HTTP_STATUS_BAD_REQUEST \<noteq> HTTP_STATUS_OK"
  "HTTP_STATUS_OK \<noteq> HTTP_STATUS_NOT_FOUND" "HTTP_STATUS_NOT_FOUND \<noteq> HTTP_STATUS_OK"
  "HTTP_STATUS_OK \<noteq> HTTP_STATUS_INTERNAL_SERVER_ERROR"
  "HTTP_STATUS_INTERNAL_SERVER_ERROR \<noteq> HTTP_STATUS_OK"
  "HTTP_STATUS_CREATED \<noteq> HTTP_STATUS_OK" "HTTP_STATUS_OK \<noteq> HTTP_STATUS_CREATED"
  "HTTP_STATUS_CREATED \<noteq> HTTP_STATUS_NOT_FOUND" "HTTP_STATUS_NOT_FOUND \<noteq> HTTP_STATUS_CREATED"
  by (simp_all add: status_defs)

lemma fst_ok_plain [simp]: "fst (ok_plain res) = HTTP_STATUS_OK"
  by (simp add: ok_plain_def)

lemma next_id_fresh:
  assumes "next_id m = Inr i"
  shows "map_of m i = None" and "in_int i" and "\<And>k. k \<in> fst ` set m \<Longrightarrow> k < i"
proof -
  show "map_of m i = None" "in_int i"
    using assms max_element_fresh [of m] by (auto simp: next_id_def Let_def add.commute split: if_splits)
  show "k < i" if "k \<in> fst ` set m" for k
    using assms that max_element_Some(2) [of m _ k]
    by (cases "max_element m") (force simp: next_id_def Let_def split: if_splits)+
qed

lemma handle_create_created:
  assumes "handle_create B F h req res w = (Inr r, w')" and "fst r = HTTP_STATUS_CREATED"
  obtains name i s1 s2 where "rq_target req = ah_location h @ name" and "rq_body req \<noteq> []"
    and "next_id (fst (storage_index name (aw_storage w))) = Inr i"
    and "ensure_directory F (ah_root h @ name) (aw_files w) = (Inr (), s1)"
    and "fo_open_trunc F s1 (ah_root h @ name @ SLASH # to_string i) = Some s2"
    and "snd r = snd (ok_length_type B HTTP_STATUS_CREATED ''application/json'' (id_body i) res)"
    and "aw_files w' = fo_write F s2 (ah_root h @ name @ SLASH # to_string i) (rq_body req)"
    and "aw_storage w' = storage_put name i
      \<lparr>js_name = name, js_json_data = rq_body req, js_id = i\<rparr> (aw_storage w)"
proof -
  let ?uri = "rq_target req" and ?loc = "ah_location h"
  define name where "name = drop (length ?loc) ?uri"
  from assms have pre: "take (length ?loc) ?uri = ?loc" "rq_body req \<noteq> []"
    by (auto simp: handle_create_def result_iff Let_def split: if_splits)
  then have uri: "?uri = ?loc @ name"
    unfolding name_def by (metis append_take_drop_id)
  obtain m st where st: "storage_index name (aw_storage w) = (m, st)" by (cases "storage_index name (aw_storage w)")
  from assms pre(2) uri st obtain i s1 s2 where
    "next_id m = Inr i"
    "ensure_directory F (ah_root h @ name) (aw_files w) = (Inr (), s1)"
    "fo_open_trunc F s1 (ah_root h @ name @ SLASH # to_string i) = Some s2"
    "snd r = snd (ok_length_type B HTTP_STATUS_CREATED ''application/json'' (id_body i) res)"
    "aw_files w' = fo_write F s2 (ah_root h @ name @ SLASH # to_string i) (rq_body req)"
    "aw_storage w' = storage_put name i \<lparr>js_name = name, js_json_data = rq_body req, js_id = i\<rparr> st"
    by (auto simp: handle_create_def result_iff Let_def get_json_name_no_id_def on_files_Inr
        split: option.splits)
  with that uri pre(2) st show ?thesis by (simp add: storage_put_after_index)
qed

lemma handle_update_ok:
  assumes "handle_update B F h req res w = (Inr r, w')" and "fst r = HTTP_STATUS_OK"
  obtains suffix name i s1 s2 where "rq_target req = ah_location h @ suffix"
    and "get_json_id (rq_target req) = Inr i" and "i \<noteq> - 1" and "get_json_name h (rq_target req) = Inr name"
    and "fo_open_trunc F s1 (ah_root h @ suffix) = Some s2"
    and "aw_files w' = fo_write F s2 (ah_root h @ suffix) (rq_body req)"
    and "aw_storage w' = storage_put name i
      \<lparr>js_name = name, js_json_data = rq_body req, js_id = i\<rparr> (aw_storage w)"
proof -
  let ?uri = "rq_target req" and ?loc = "ah_location h"
  define suffix where "suffix = drop (length ?loc) ?uri"
  from assms have pre: "take (length ?loc) ?uri = ?loc"
    by (auto simp: handle_update_def result_iff Let_def split: if_splits)
  then have uri: "?uri = ?loc @ suffix"
    unfolding suffix_def by (metis append_take_drop_id)
  from assms pre obtain i name s1 s2 where
    "get_json_id ?uri = Inr i" "i \<noteq> - 1" "get_json_name h ?uri = Inr name"
    "fo_open_trunc F s1 (ah_root h @ suffix) = Some s2"
    "aw_files w' = fo_write F s2 (ah_root h @ suffix) (rq_body req)"
    "aw_storage w' = storage_put name i
      \<lparr>js_name = name, js_json_data = rq_body req, js_id = i\<rparr> (aw_storage w)"
    unfolding suffix_def
    by (auto simp: handle_update_def result_iff Let_def on_files_Inr file_path_of_Inr
        split: option.splits if_splits)
  with that uri show ?thesis by blast
qed

lemma handle_delete_ok:
  assumes "handle_delete B F h req res w = (Inr r, w')" and "fst r = HTTP_STATUS_OK"
  obtains p s name i where "file_path_of h (rq_target req) = Inr p"
    and "fo_remove F (aw_files w) p = Some s" and "aw_files w' = s"
    and "get_json_name h (rq_target req) = Inr name" and "get_json_id (rq_target req) = Inr i"
    and "aw_storage w' = storage_erase name i (aw_storage w)"
  using assms
  by (auto simp: handle_delete_def result_iff Let_def split: option.splits)

section \<open>The abstract store\<close>

text \<open>
  What one request may do to the entities, as a relation between the store before, the request,
  the status (or fault), and the store after.  It mentions neither the file system nor the shape
  of the table.
\<close>

type_synonym entities = "string \<times> int \<Rightarrow> JSONStruct option"

inductive crud_step :: "api_handler \<Rightarrow> entities \<Rightarrow> 'f request \<Rightarrow> int result \<Rightarrow> entities \<Rightarrow> bool"
  for h :: api_handler
where
  created: "\<lbrakk>rq_method req = Verb_post; rq_target req = ah_location h @ n; rq_body req \<noteq> [];
      in_int i; E (n, i) = None; \<And>j. E (n, j) \<noteq> None \<Longrightarrow> j < i\<rbrakk>
    \<Longrightarrow> crud_step h E req (Inr HTTP_STATUS_CREATED)
          (E((n, i) \<mapsto> \<lparr>js_name = n, js_json_data = rq_body req, js_id = i\<rparr>))"
| updated: "\<lbrakk>rq_method req = Verb_put; get_json_id (rq_target req) = Inr i; i \<noteq> - 1;
      get_json_name h (rq_target req) = Inr n\<rbrakk>
    \<Longrightarrow> crud_step h E req (Inr HTTP_STATUS_OK)
          (E((n, i) \<mapsto> \<lparr>js_name = n, js_json_data = rq_body req, js_id = i\<rparr>))"
| deleted: "\<lbrakk>rq_method req = Verb_delete; get_json_id (rq_target req) = Inr i;
      get_json_name h (rq_target req) = Inr n\<rbrakk>
    \<Longrightarrow> crud_step h E req (Inr HTTP_STATUS_OK) (E((n, i) := None))"
| fetched: "rq_method req = Verb_get \<Longrightarrow> crud_step h E req (Inr HTTP_STATUS_OK) E"
| refused: "r \<noteq> Inr HTTP_STATUS_OK \<Longrightarrow> r \<noteq> Inr HTTP_STATUS_CREATED \<Longrightarrow> crud_step h E req r E"

inductive_cases crud_createdE: "crud_step h E req (Inr HTTP_STATUS_CREATED) E'"
inductive_cases crud_faultE [elim]: "crud_step h E req (Inl e) E'"
inductive_simps crud_fault_iff [simp]: "crud_step h E req (Inl e) E'"

text \<open>The status alone of a result.\<close>

definition status_of :: "(int \<times> 'f response) result \<Rightarrow> int result" where
  "status_of r = (case r of Inl e \<Rightarrow> Inl e | Inr x \<Rightarrow> Inr (fst x))"

lemma status_of_simps [simp]: "status_of (Inl e) = Inl e" "status_of (Inr x) = Inr (fst x)"
  by (simp_all add: status_of_def)

lemma status_of_Inr: "status_of r = Inr st \<longleftrightarrow> (\<exists>res. r = Inr (st, res))"
  by (cases r) auto

definition entities_of :: "json_storage \<Rightarrow> entities" where
  "entities_of st = (\<lambda>(n, i). storage_lookup st n i)"

lemma entities_of_as_map: "entities_of st = json.as_map st"
  by (simp add: entities_of_def json.as_map_def)

lemma entities_of_apply [simp]: "entities_of st (n, i) = storage_lookup st n i"
  by (simp add: entities_of_def)

lemma entities_of_put [simp]: "entities_of (storage_put n i e st) = (entities_of st)((n, i) \<mapsto> e)"
  by (simp add: entities_of_as_map json.as_map_put)

lemma entities_of_erase [simp]: "entities_of (storage_erase n i st) = (entities_of st)((n, i) := None)"
  by (simp add: entities_of_as_map json.as_map_erase)

lemma entities_of_index: "storage_index n st = (m, st') \<Longrightarrow> entities_of st' = entities_of st"
  by (simp add: entities_of_def lookup_after_index)

section \<open>The handler refines it\<close>

lemma fst_index_lookup: "map_of (fst (storage_index n st)) i = storage_lookup st n i"
  by (auto simp: storage_index_def storage_lookup_def split: option.split)

lemma fst_index_keys: "storage_lookup st n j \<noteq> None \<Longrightarrow> j \<in> fst ` set (fst (storage_index n st))"
  by (simp add: fst_index_lookup [symmetric] map_of_eq_None_iff)

lemma handle_create_refines:
  assumes "handle_create B F h req res w = (r, w')" and "rq_method req = Verb_post"
  shows "crud_step h (entities_of (aw_storage w)) req (status_of r) (entities_of (aw_storage w'))"
proof (cases "status_of r = Inr HTTP_STATUS_CREATED")
  case True
  with assms(1) obtain x where x: "r = Inr x" "fst x = HTTP_STATUS_CREATED"
    "handle_create B F h req res w = (Inr x, w')"
    by (auto simp: status_of_Inr)
  show ?thesis
    using x(3,2)
  proof (rule handle_create_created)
    fix n i
    assume *: "rq_target req = ah_location h @ n" "rq_body req \<noteq> []"
      "next_id (fst (storage_index n (aw_storage w))) = Inr i"
      "aw_storage w' = storage_put n i \<lparr>js_name = n, js_json_data = rq_body req, js_id = i\<rparr> (aw_storage w)"
    note fresh = next_id_fresh [OF *(3)]
    have "j < i" if "entities_of (aw_storage w) (n, j) \<noteq> None" for j
      using that fresh(3) fst_index_keys [of "aw_storage w" n j] by simp
    with assms(2) * fresh x show ?thesis
      by (auto intro!: created simp: fst_index_lookup)
  qed
next
  case False
  with assms have "status_of r \<noteq> Inr HTTP_STATUS_OK \<and> entities_of (aw_storage w') = entities_of (aw_storage w)"
    by (auto simp: handle_create_def pure_result_def Let_def entities_of_index
        split: ebind_split_asm prod.splits option.splits if_splits dest!: on_files_storageD)
  with False show ?thesis by (simp add: refused)
qed

lemma handle_update_refines:
  assumes "handle_update B F h req res w = (r, w')" and "rq_method req = Verb_put"
  shows "crud_step h (entities_of (aw_storage w)) req (status_of r) (entities_of (aw_storage w'))"
proof (cases "status_of r = Inr HTTP_STATUS_OK")
  case True
  with assms(1) obtain x where x: "r = Inr x" "fst x = HTTP_STATUS_OK"
    "handle_update B F h req res w = (Inr x, w')"
    by (auto simp: status_of_Inr)
  show ?thesis
    using x(3,2) by (rule handle_update_ok) (use assms(2) x in \<open>auto intro: updated\<close>)
next
  case False
  with assms have "status_of r \<noteq> Inr HTTP_STATUS_CREATED \<and> aw_storage w' = aw_storage w"
    by (auto simp: handle_update_def pure_result_def Let_def
        split: ebind_split_asm option.splits if_splits dest!: on_files_storageD)
  with False show ?thesis by (simp add: refused)
qed

lemma handle_delete_refines:
  assumes "handle_delete B F h req res w = (r, w')" and "rq_method req = Verb_delete"
  shows "crud_step h (entities_of (aw_storage w)) req (status_of r) (entities_of (aw_storage w'))"
proof (cases "status_of r = Inr HTTP_STATUS_OK")
  case True
  with assms(1) obtain x where x: "r = Inr x" "fst x = HTTP_STATUS_OK"
    "handle_delete B F h req res w = (Inr x, w')"
    by (auto simp: status_of_Inr)
  show ?thesis
    using x(3,2) by (rule handle_delete_ok) (use assms(2) x in \<open>auto intro: deleted\<close>)
next
  case False
  with assms have "status_of r \<noteq> Inr HTTP_STATUS_CREATED \<and> aw_storage w' = aw_storage w"
    by (auto simp: handle_delete_def pure_result_def Let_def
        split: ebind_split_asm option.splits if_splits)
  with False show ?thesis by (simp add: refused)
qed

lemma read_only:
  assumes "api_handle_retrieve B F h req res w = (r, w') \<or> api_handle_list B iter h req res w = (r, w')"
  shows "w' = w" and "status_of r \<noteq> Inr HTTP_STATUS_CREATED"
  using assms
  by (auto simp: api_handle_retrieve_def api_handle_list_def pure_result_def Let_def
      split: ebind_split_asm option.splits)

lemma fetched_or_refused:
  "rq_method req = Verb_get \<Longrightarrow> r \<noteq> Inr HTTP_STATUS_CREATED \<Longrightarrow> crud_step h E req r E"
  by (cases "r = Inr HTTP_STATUS_OK") (auto intro: fetched refused)

lemma crud_step_req_set:
  "crud_step h E (req_set B n v req) r E' \<Longrightarrow> crud_step h E req r E'"
  by (cases rule: crud_step.cases, assumption) (auto intro: crud_step.intros)

text \<open>
  C6: every request to the API handler, whatever the file system does, is a step of
  the abstract store \<open>crud_step\<close>: a 201 has stored the body under the target's name with a new
  id above all others, a 200 for PUT or DELETE has changed exactly the named entity, a GET has
  changed nothing, and any other status or exception has left every entity as it was.
\<close>

theorem api_refines:
  "crud_step h (entities_of (aw_storage w)) req
     (status_of (fst (api_handle_request B F iter h w req res)))
     (entities_of (aw_storage (snd (api_handle_request B F iter h w req res))))"
proof -
  obtain r w' where run: "api_handle_request B F iter h w req res = (r, w')"
    by (cases "api_handle_request B F iter h w req res")
  let ?req = "req_set B Field_content_type ''application/json'' req"
  let ?res = "res\<lparr>rs_version := rq_version req\<rparr>"
  consider (refused) "w' = w" "status_of r \<noteq> Inr HTTP_STATUS_OK" "status_of r \<noteq> Inr HTTP_STATUS_CREATED"
    | (read) "rq_method req = Verb_get" "api_handle_retrieve B F h ?req ?res w = (r, w') \<or>
        api_handle_list B iter h ?req ?res w = (r, w')"
    | (create) "rq_method req = Verb_post" "handle_create B F h ?req ?res w = (r, w')"
    | (update) "rq_method req = Verb_put" "handle_update B F h ?req ?res w = (r, w')"
    | (del) "rq_method req = Verb_delete" "handle_delete B F h ?req ?res w = (r, w')"
    using run by (auto simp: api_handle_request_def pure_result_def Let_def
        split: ebind_split_asm verb.splits if_splits)
  then have "crud_step h (entities_of (aw_storage w)) req (status_of r) (entities_of (aw_storage w'))"
  proof cases
    case read
    then show ?thesis
      using read_only [OF read(2)] by (simp add: fetched_or_refused)
  qed (auto intro: crud_step.refused
      dest: handle_create_refines [THEN crud_step_req_set]
        handle_update_refines [THEN crud_step_req_set] handle_delete_refines [THEN crud_step_req_set])
  with run show ?thesis by simp
qed

section \<open>The table stays well formed\<close>

lemma entry_okI [intro]: "in_int i \<Longrightarrow> entry_ok n (i, \<lparr>js_name = n, js_json_data = d, js_id = i\<rparr>)"
  by (simp add: entry_ok_def)

lemma handle_create_storage_ok:
  assumes "storage_ok (aw_storage w)"
  shows "storage_ok (aw_storage (snd (handle_create B F h req res w)))"
proof (cases "handle_create B F h req res w")
  case (Pair r w')
  have step: "storage_ok (aw_storage w')" if "status_of r = Inr HTTP_STATUS_CREATED"
  proof -
    from that Pair obtain x where "handle_create B F h req res w = (Inr x, w')" "fst x = HTTP_STATUS_CREATED"
      by (auto simp: status_of_Inr)
    then show ?thesis
      by (rule handle_create_created) (use assms in \<open>auto intro!: storage_ok_put dest: next_id_fresh(2)\<close>)
  qed
  moreover have "storage_ok (aw_storage w')" if "status_of r \<noteq> Inr HTTP_STATUS_CREATED"
    using that Pair assms
    by (auto simp: handle_create_def pure_result_def Let_def storage_ok_after_index
        split: ebind_split_asm prod.splits option.splits if_splits dest!: on_files_storageD)
  ultimately show ?thesis using Pair by auto
qed

lemma handle_update_storage_ok:
  "storage_ok (aw_storage w) \<Longrightarrow> storage_ok (aw_storage (snd (handle_update B F h req res w)))"
  by (auto simp: handle_update_def pure_result_def Let_def
      split: ebind_split option.split if_split intro!: storage_ok_put
      dest!: on_files_storageD get_json_id_in_int)

lemma handle_delete_storage_ok:
  "storage_ok (aw_storage w) \<Longrightarrow> storage_ok (aw_storage (snd (handle_delete B F h req res w)))"
  by (auto simp: handle_delete_def pure_result_def Let_def
      split: ebind_split option.split if_split intro!: storage_ok_erase)

lemma read_only_snd [simp]:
  "snd (api_handle_retrieve B F h req res w) = w" "snd (api_handle_list B iter h req res w) = w"
  using read_only(1) by (metis prod.collapse)+

lemma api_storage_ok:
  "storage_ok (aw_storage w) \<Longrightarrow> storage_ok (aw_storage (snd (api_handle_request B F iter h w req res)))"
  by (auto simp: api_handle_request_def pure_result_def Let_def handle_create_storage_ok
      handle_update_storage_ok handle_delete_storage_ok split: ebind_split verb.split)

lemma load_entry_storage_ok:
  "storage_ok (aw_storage w) \<Longrightarrow> storage_ok (aw_storage (snd (load_entry F root entry w)))"
  by (auto simp: load_entry_def pure_result_def Let_def
      split: ebind_split option.split if_split intro!: storage_ok_put dest: stoi_in_int)

lemma load_entries_storage_ok:
  "storage_ok (aw_storage w) \<Longrightarrow> storage_ok (aw_storage (snd (load_entries F root entries w)))"
proof (induction entries arbitrary: w)
  case (Cons e es)
  then show ?case
    using load_entry_storage_ok [OF Cons.prems, of F root e]
    by (auto split: ebind_split)
qed simp

lemma constructor_storage_ok:
  "storage_ok (aw_storage w) \<Longrightarrow> storage_ok (aw_storage (snd (ApiRequestHandler F path config w)))"
proof (auto simp: ApiRequestHandler_def pure_result_def split: ebind_split option.split
      dest!: on_files_storageD, goal_cases)
  case (1 root w1 entries e w2)
  then show ?case using load_entries_storage_ok [of w1 F root entries] by simp
next
  case (2 root w1 entries w2)
  then show ?case using load_entries_storage_ok [of w1 F root entries] by simp
qed

text \<open>
  The tables the server can reach: it starts empty, a factory's constructor or a request changes
  it, and between two of them the file system can become anything.
\<close>

inductive api_reachable :: "'f beast \<Rightarrow> 's file_ops \<Rightarrow> json_storage \<Rightarrow> bool"
  for B :: "'f beast" and F :: "'s file_ops"
where
  start: "api_reachable B F storage_empty"
| construct: "api_reachable B F st \<Longrightarrow>
    api_reachable B F (aw_storage (snd (ApiRequestHandler F path config \<lparr>aw_files = s, aw_storage = st\<rparr>)))"
| request: "api_reachable B F st \<Longrightarrow>
    api_reachable B F (aw_storage (snd (api_handle_request B F iter h \<lparr>aw_files = s, aw_storage = st\<rparr> req res)))"

text \<open>
  C18: in every table the server can reach, each inner map has distinct ids, and
  every entry carries the name and the id it is stored under, an id that fits an \<open>int\<close>.
\<close>

theorem api_reachable_ok:
  assumes "api_reachable B F st"
  shows "storage_ok st"
  using assms
proof induction
  case start
  show ?case by (rule storage_ok_empty)
next
  case construct
  then show ?case by (simp add: constructor_storage_ok)
next
  case request
  then show ?case by (simp add: api_storage_ok)
qed

section \<open>Round trips\<close>

text \<open>What a request with a usable method and configuration is dispatched to.\<close>

definition api_live :: "'f beast \<Rightarrow> api_handler \<Rightarrow> 'f request \<Rightarrow> bool" where
  "api_live B h req \<longleftrightarrow> \<not> ah_bad h \<and>
     bs_method_string B (req_set B Field_content_type ''application/json'' req) \<noteq> []"

lemma not_created:
  "handle_update B F h req res w = (Inr r, w') \<Longrightarrow> fst r \<noteq> HTTP_STATUS_CREATED"
  "handle_delete B F h req res w = (Inr r, w') \<Longrightarrow> fst r \<noteq> HTTP_STATUS_CREATED"
  by (auto simp: handle_update_def handle_delete_def pure_result_def Let_def
      split: ebind_split_asm option.splits if_splits)

lemma api_post:
  assumes "api_handle_request B F iter h w req res = (Inr r, w')" and "fst r = HTTP_STATUS_CREATED"
  shows "api_live B h req" and "handle_create B F h (req_set B Field_content_type ''application/json'' req)
    (res\<lparr>rs_version := rq_version req\<rparr>) w = (Inr r, w')"
proof -
  let ?req = "req_set B Field_content_type ''application/json'' req"
  let ?res = "res\<lparr>rs_version := rq_version req\<rparr>"
  have "api_live B h req \<and> (handle_create B F h ?req ?res w = (Inr r, w') \<or>
      handle_update B F h ?req ?res w = (Inr r, w') \<or> handle_delete B F h ?req ?res w = (Inr r, w') \<or>
      api_handle_retrieve B F h ?req ?res w = (Inr r, w') \<or> api_handle_list B iter h ?req ?res w = (Inr r, w'))"
    using assms unfolding api_handle_request_def api_live_def Let_def
    by (cases "rq_method req") (auto simp: result_iff split: if_splits)
  moreover have "api_handle_retrieve B F h ?req ?res w \<noteq> (Inr r, w')" "api_handle_list B iter h ?req ?res w \<noteq> (Inr r, w')"
    using read_only(2) [of B F h ?req ?res w "Inr r" w' iter] assms(2) by auto
  moreover have "handle_update B F h ?req ?res w \<noteq> (Inr r, w')" "handle_delete B F h ?req ?res w \<noteq> (Inr r, w')"
    using not_created [of B F h ?req ?res w r w'] assms(2) by blast+
  ultimately show "api_live B h req" and "handle_create B F h ?req ?res w = (Inr r, w')"
    by blast+
qed

lemma api_put:
  assumes "api_handle_request B F iter h w req res = (Inr r, w')" and "fst r = HTTP_STATUS_OK"
    and "rq_method req = Verb_put"
  shows "api_live B h req" and "handle_update B F h (req_set B Field_content_type ''application/json'' req)
    (res\<lparr>rs_version := rq_version req\<rparr>) w = (Inr r, w')"
  using assms by (auto simp: api_handle_request_def api_live_def Let_def result_iff split: if_splits)

lemma api_delete:
  assumes "api_handle_request B F iter h w req res = (Inr r, w')" and "fst r = HTTP_STATUS_OK"
    and "rq_method req = Verb_delete"
  shows "api_live B h req" and "handle_delete B F h (req_set B Field_content_type ''application/json'' req)
    (res\<lparr>rs_version := rq_version req\<rparr>) w = (Inr r, w')"
  using assms by (auto simp: api_handle_request_def api_live_def Let_def result_iff split: if_splits)

lemma api_get_file:
  assumes "api_live B h req" and "rq_method req = Verb_get" and "rq_target req = ah_location h @ suffix"
    and "\<not> fo_is_directory_ec F (aw_files w) (ah_root h @ suffix)"
    and "fo_is_regular_file_ec F (aw_files w) (ah_root h @ suffix)"
    and "fo_read F (aw_files w) (ah_root h @ suffix) = Some d"
  shows "api_handle_request B F iter h w req res =
    (Inr (ok_length_type B HTTP_STATUS_OK ''application/json'' d (res\<lparr>rs_version := rq_version req\<rparr>)), w)"
  using assms by (simp add: api_handle_request_def api_live_def Let_def api_handle_retrieve_def pure_result_def)

lemma api_get_missing:
  assumes "api_live B h req" and "rq_method req = Verb_get" and "rq_target req = ah_location h @ suffix"
    and "\<not> fo_is_directory_ec F (aw_files w) (ah_root h @ suffix)"
    and "\<not> fo_is_regular_file_ec F (aw_files w) (ah_root h @ suffix)"
  shows "api_handle_request B F iter h w req res =
    (Inr (handle_not_found B (res\<lparr>rs_version := rq_version req\<rparr>)), w)"
  using assms by (simp add: api_handle_request_def api_live_def Let_def pure_result_def)

text \<open>
  C14: after a POST to \<open>location + name\<close> was answered with 201, the answer's body is
  \<open>{"id": i}\<close> for an id \<open>i\<close> the name did not have, and a GET of \<open>location + name + "/" + i\<close> is
  answered with 200 and the very body that was posted.
\<close>

theorem create_then_get:
  assumes "file_laws F"
    and "api_handle_request B F iter h w req res = (Inr r, w')" and "fst r = HTTP_STATUS_CREATED"
    and "rq_target req = ah_location h @ name"
    and "rq_method get = Verb_get" and "api_live B h get"
  shows "\<exists>i. rs_body (snd r) = id_body i \<and> storage_lookup (aw_storage w) name i = None \<and>
    (rq_target get = ah_location h @ name @ SLASH # to_string i \<longrightarrow>
      (\<exists>r2. api_handle_request B F iter h w' get res2 = (Inr r2, w') \<and>
        fst r2 = HTTP_STATUS_OK \<and> rs_body (snd r2) = rq_body req))"
  using api_post(2) [OF assms(2,3)] assms(3)
proof (rule handle_create_created)
  fix n i s1 s2
  assume *: "rq_target (req_set B Field_content_type ''application/json'' req) = ah_location h @ n"
    "next_id (fst (storage_index n (aw_storage w))) = Inr i"
    "fo_open_trunc F s1 (ah_root h @ n @ SLASH # to_string i) = Some s2"
    "snd r = snd (ok_length_type B HTTP_STATUS_CREATED ''application/json'' (id_body i)
      (res\<lparr>rs_version := rq_version req\<rparr>))"
    "aw_files w' = fo_write F s2 (ah_root h @ n @ SLASH # to_string i)
      (rq_body (req_set B Field_content_type ''application/json'' req))"
  from *(1) assms(4) have n: "n = name" by simp
  have "storage_lookup (aw_storage w) name i = None"
    using next_id_fresh(1) [OF *(2)] by (simp add: fst_index_lookup n)
  moreover have "\<exists>r2. api_handle_request B F iter h w' get res2 = (Inr r2, w') \<and>
        fst r2 = HTTP_STATUS_OK \<and> rs_body (snd r2) = rq_body req"
    if "rq_target get = ah_location h @ name @ SLASH # to_string i"
    using api_get_file [OF assms(6,5) that, of F w' "rq_body req"] file_laws_read [OF assms(1) *(3)] *(5)
    by (simp add: n)
  ultimately show ?thesis
    using *(4) by auto
qed

text \<open>A concrete handler, requests for it, and the empty world.\<close>

definition demo_api :: api_handler where
  "demo_api = \<lparr>ah_location = ''/api'', ah_root = ''/data'', ah_bad = False\<rparr>"

definition demo_request :: "verb \<Rightarrow> string \<Rightarrow> string \<Rightarrow> field_list request" where
  "demo_request v t b = (bs_request list_beast)\<lparr>rq_method := v, rq_target := t, rq_body := b\<rparr>"

definition demo_world :: "flat_fs api_world" where
  "demo_world = \<lparr>aw_files = (\<lambda>p. None), aw_storage = storage_empty\<rparr>"

abbreviation demo_run ::
  "field_list request \<Rightarrow> flat_fs api_world \<Rightarrow> (int \<times> field_list response) result \<times> flat_fs api_world" where
  "demo_run req w \<equiv> api_handle_request list_beast flat_ops id demo_api w req (bs_response list_beast)"

lemmas demo_defs = demo_api_def demo_request_def demo_world_def list_beast_def flat_simps
  api_live_def api_handle_request_def handle_create_def handle_update_def handle_delete_def
  api_handle_list_def api_handle_retrieve_def Let_def file_path_of_def get_json_name_no_id_def
  get_json_name_def get_json_id_def before_last_slash_def after_last_slash_def is_num_def
  storage_index_def storage_empty_def storage_put_def storage_erase_def next_id_def max_element_def
  on_files_def ensure_directory_def pure_result_def substr_from_def req_set_def res_set_def
  ok_length_type_def ok_plain_def in_int_def INT_MIN_def INT_MAX_def

lemma demo_posted:
  "\<exists>r w. demo_run (demo_request Verb_post ''/api/shoes'' ''{}'') demo_world = (Inr r, w) \<and>
    fst r = HTTP_STATUS_CREATED"
  by (simp add: demo_defs to_string_eval)

lemma api_reachable_ok_witness:
  "\<exists>st. api_reachable list_beast flat_ops st \<and> (\<exists>e. st ''/shoes'' = Some [(1, e)] \<and> entry_ok ''/shoes'' (1, e))"
proof -
  let ?st = "aw_storage (snd (demo_run (demo_request Verb_post ''/api/shoes'' ''{}'') demo_world))"
  have reachable: "api_reachable list_beast flat_ops ?st"
    using api_reachable.request [OF api_reachable.start, where s = "\<lambda>p. None" and iter = id and h = demo_api]
    by (simp add: demo_world_def)
  have "\<exists>e. ?st ''/shoes'' = Some [(1, e)]" by (simp add: demo_defs to_string_eval)
  then obtain e where "?st ''/shoes'' = Some [(1, e)]" ..
  moreover from this have "entry_ok ''/shoes'' (1, e)"
    using api_reachable_ok [OF reachable] unfolding storage_ok_def by fastforce
  ultimately show ?thesis using reachable by blast
qed

lemma create_then_get_witness:
  "\<exists>r w. demo_run (demo_request Verb_post ''/api/shoes'' ''{}'') demo_world = (Inr r, w) \<and>
    (\<exists>i. rs_body (snd r) = id_body i)"
proof -
  obtain r w where post: "demo_run (demo_request Verb_post ''/api/shoes'' ''{}'') demo_world = (Inr r, w)"
      "fst r = HTTP_STATUS_CREATED"
    using demo_posted by blast
  have "rq_target (demo_request Verb_post ''/api/shoes'' ''{}'') = ah_location demo_api @ ''/shoes''"
      "rq_method (demo_request Verb_get ''/api/shoes/1'' []) = Verb_get"
      "api_live list_beast demo_api (demo_request Verb_get ''/api/shoes/1'' [])"
    by (simp_all add: demo_defs)
  from create_then_get [OF flat_laws post this] post show ?thesis by blast
qed

text \<open>
  C15: after a PUT to a target was answered with 200, a GET of the same target is
  answered with 200 and the body that was put, and the table holds that body.
\<close>

theorem update_then_get:
  assumes "file_laws F"
    and "api_handle_request B F iter h w req res = (Inr r, w')" and "fst r = HTTP_STATUS_OK"
    and "rq_method req = Verb_put"
    and "rq_method get = Verb_get" and "rq_target get = rq_target req" and "api_live B h get"
  shows "(\<exists>r2. api_handle_request B F iter h w' get res2 = (Inr r2, w') \<and>
        fst r2 = HTTP_STATUS_OK \<and> rs_body (snd r2) = rq_body req) \<and>
    (\<exists>name i e. get_json_name h (rq_target req) = Inr name \<and> get_json_id (rq_target req) = Inr i \<and>
      storage_lookup (aw_storage w') name i = Some e \<and> js_json_data e = rq_body req)"
  using api_put(2) [OF assms(2-4)] assms(3)
proof (rule handle_update_ok)
  fix suffix name i s1 s2
  let ?req = "req_set B Field_content_type ''application/json'' req"
  assume *: "rq_target ?req = ah_location h @ suffix"
    "get_json_id (rq_target ?req) = Inr i" "get_json_name h (rq_target ?req) = Inr name"
    "fo_open_trunc F s1 (ah_root h @ suffix) = Some s2"
    "aw_files w' = fo_write F s2 (ah_root h @ suffix) (rq_body ?req)"
    "aw_storage w' = storage_put name i
      \<lparr>js_name = name, js_json_data = rq_body ?req, js_id = i\<rparr> (aw_storage w)"
  have "rq_target get = ah_location h @ suffix" using *(1) assms(6) by simp
  then have "\<exists>r2. api_handle_request B F iter h w' get res2 = (Inr r2, w') \<and>
        fst r2 = HTTP_STATUS_OK \<and> rs_body (snd r2) = rq_body req"
    using api_get_file [OF assms(7,5), of suffix F w' "rq_body req"] file_laws_read [OF assms(1) *(4)] *(5)
    by simp
  moreover have "storage_lookup (aw_storage w') name i = Some \<lparr>js_name = name, js_json_data = rq_body req, js_id = i\<rparr>"
    using *(6) by (simp add: storage_lookup_put)
  ultimately show ?thesis using *(2,3) by auto
qed

lemma update_then_get_witness:
  "\<exists>r w. demo_run (demo_request Verb_put ''/api/shoes/7'' ''{}'') demo_world = (Inr r, w) \<and>
    (\<exists>e. storage_lookup (aw_storage w) ''/shoes'' 7 = Some e \<and> js_json_data e = ''{}'')"
proof -
  let ?put = "demo_request Verb_put ''/api/shoes/7'' ''{}''"
  have "\<exists>r w. demo_run ?put demo_world = (Inr r, w) \<and> fst r = HTTP_STATUS_OK"
    by (simp add: demo_defs to_string_eval stoi_eval)
  then obtain r w where put: "demo_run ?put demo_world = (Inr r, w)" "fst r = HTTP_STATUS_OK" by blast
  have req: "rq_method ?put = Verb_put" "rq_method (demo_request Verb_get ''/api/shoes/7'' []) = Verb_get"
      "rq_target (demo_request Verb_get ''/api/shoes/7'' []) = rq_target ?put"
      "api_live list_beast demo_api (demo_request Verb_get ''/api/shoes/7'' [])"
    by (simp_all add: demo_defs)
  have "get_json_name demo_api (rq_target ?put) = Inr ''/shoes''" "get_json_id (rq_target ?put) = Inr 7"
    "rq_body ?put = ''{}''"
    by (simp_all add: demo_defs to_string_eval stoi_eval)
  with update_then_get [OF flat_laws put req] put show ?thesis by auto
qed

text \<open>
  C16: after a DELETE of a target was answered with 200, a GET of it is answered with
  404, and the entity it names is gone from the table while every other entity is still there.
\<close>

theorem delete_then_get:
  assumes "file_laws F"
    and "api_handle_request B F iter h w req res = (Inr r, w')" and "fst r = HTTP_STATUS_OK"
    and "rq_method req = Verb_delete" and "rq_target req = ah_location h @ suffix"
    and "rq_method get = Verb_get" and "rq_target get = rq_target req" and "api_live B h get"
  shows "api_handle_request B F iter h w' get res2 =
      (Inr (handle_not_found B (res2\<lparr>rs_version := rq_version get\<rparr>)), w') \<and>
    (\<exists>name i. get_json_name h (rq_target req) = Inr name \<and> get_json_id (rq_target req) = Inr i \<and>
      entities_of (aw_storage w') = (entities_of (aw_storage w))((name, i) := None))"
proof -
  let ?req = "req_set B Field_content_type ''application/json'' req"
  obtain p s name i where *: "file_path_of h (rq_target ?req) = Inr p"
    "fo_remove F (aw_files w) p = Some s" "aw_files w' = s"
    "get_json_name h (rq_target ?req) = Inr name" "get_json_id (rq_target ?req) = Inr i"
    "aw_storage w' = storage_erase name i (aw_storage w)"
    using api_delete(2) [OF assms(2-4)] assms(3) by (rule handle_delete_ok)
  then have "p = ah_root h @ suffix" using assms(5) by simp
  with * assms(5-7) have gone: "api_handle_request B F iter h w' get res2 =
      (Inr (handle_not_found B (res2\<lparr>rs_version := rq_version get\<rparr>)), w')"
    using file_laws_remove(2,3) [OF assms(1) *(2)] by (intro api_get_missing [OF assms(8)]) auto
  moreover have "\<exists>name i. get_json_name h (rq_target req) = Inr name \<and> get_json_id (rq_target req) = Inr i \<and>
      entities_of (aw_storage w') = (entities_of (aw_storage w))((name, i) := None)"
    using * by auto
  ultimately show ?thesis by simp
qed

text \<open>One entity, \<open>/shoes/1\<close>, in the files and in the table.\<close>

definition demo_world1 :: "flat_fs api_world" where
  "demo_world1 = \<lparr>aw_files = (\<lambda>p. None)(''/data/shoes'' := Some None, ''/data/shoes/1'' := Some (Some ''{}'')),
     aw_storage = storage_empty(''/shoes'' :=
       Some [(1, \<lparr>js_name = ''/shoes'', js_json_data = ''{}'', js_id = 1\<rparr>)])\<rparr>"

lemma delete_then_get_witness:
  "\<exists>r w. demo_run (demo_request Verb_delete ''/api/shoes/1'' []) demo_world1 = (Inr r, w) \<and>
    (\<exists>x. demo_run (demo_request Verb_get ''/api/shoes/1'' []) w = (Inr x, w) \<and> fst x = HTTP_STATUS_NOT_FOUND)"
proof -
  let ?del = "demo_request Verb_delete ''/api/shoes/1'' []" and ?get = "demo_request Verb_get ''/api/shoes/1'' []"
  have "\<exists>r w. demo_run ?del demo_world1 = (Inr r, w) \<and> fst r = HTTP_STATUS_OK"
    by (simp add: demo_defs demo_world1_def to_string_eval stoi_eval)
  then obtain r w where del: "demo_run ?del demo_world1 = (Inr r, w)" "fst r = HTTP_STATUS_OK" by blast
  have req: "rq_method ?del = Verb_delete" "rq_target ?del = ah_location demo_api @ ''/shoes/1''"
      "rq_method ?get = Verb_get" "rq_target ?get = rq_target ?del" "api_live list_beast demo_api ?get"
    by (simp_all add: demo_defs)
  show ?thesis
    using delete_then_get [OF flat_laws del req, of "bs_response list_beast"] del fst_handlers(2) by blast
qed

section \<open>List\<close>

text \<open>\<open>commas xs\<close> is the list separated by comma and space.\<close>

fun commas :: "string list \<Rightarrow> string" where
  "commas [] = []"
| "commas [x] = x"
| "commas (x # y # xs) = x @ '', '' @ commas (y # xs)"

lemma concat_commas: "xs \<noteq> [] \<Longrightarrow> concat (map (\<lambda>x. x @ '', '') xs) = commas xs @ '', ''"
  by (induction xs rule: commas.induct) auto

lemma id_items_commas: "m \<noteq> [] \<Longrightarrow> id_items m = commas (map (to_string \<circ> fst) m) @ '', ''"
  using concat_commas [of "map (to_string \<circ> fst) m"] by (simp add: id_items_def comp_def split_def)

lemma drop_last_two_append [simp]: "length b = 2 \<Longrightarrow> drop_last_two (a @ b) = Inr a"
  by (simp add: drop_last_two_def)

text \<open>
  C17: a GET of a name that has entities, and whose path is a directory, is answered by
  a handler with a root with 200 and \<open>[i1, i2, ...]\<close>, where the \<open>i\<close> are exactly the ids of that name,
  each once, in the order in which the map is iterated.
\<close>

theorem list_ids:
  assumes "storage_ok (aw_storage w)" and "mset (iter m) = mset m"
    and "api_live B h req" and "rq_method req = Verb_get" and "rq_target req = ah_location h @ name"
    and "fo_is_directory_ec F (aw_files w) (ah_root h @ name)"
    and "aw_storage w name = Some m" and "m \<noteq> []"
  shows "\<exists>r ids. api_handle_request B F iter h w req res = (Inr r, w) \<and> fst r = HTTP_STATUS_OK \<and>
    rs_body (snd r) = ''['' @ commas (map to_string ids) @ '']'' \<and>
    distinct ids \<and> set ids = {i. storage_lookup (aw_storage w) name i \<noteq> None}"
proof -
  let ?ids = "map fst (iter m)"
  have "iter m \<noteq> []" using assms(2,8) by auto
  then have body: "drop_last_two (''['' @ id_items (iter m)) = Inr (''['' @ commas (map to_string ?ids))"
    using drop_last_two_append [of "'', ''" "''['' @ commas (map to_string ?ids)"]
    by (simp add: id_items_commas)
  have "set ?ids = fst ` set m"
    using mset_eq_setD [OF assms(2)] by simp
  then have ids: "set ?ids = {i. storage_lookup (aw_storage w) name i \<noteq> None}"
    using assms(7) by (auto simp: storage_lookup_def map_of_eq_None_iff)
  have distinct: "distinct ?ids"
  proof -
    have "distinct (map fst m)" using assms(1,7) by (auto simp: storage_ok_def)
    moreover have "mset (map fst (iter m)) = mset (map fst m)" using assms(2) by simp
    ultimately show ?thesis by (metis mset_eq_imp_distinct_iff)
  qed
  have run: "api_handle_request B F iter h w req res =
      (Inr (ok_length_type B HTTP_STATUS_OK ''application/json'' (''['' @ commas (map to_string ?ids) @ '']'')
        (res\<lparr>rs_version := rq_version req\<rparr>)), w)"
    using assms(3-7) body
    by (simp add: api_handle_request_def api_live_def Let_def api_handle_list_def pure_result_def
        get_json_name_no_id_def)
  show ?thesis
    by (rule exI, rule exI [of _ ?ids], intro conjI) (rule run, simp, simp, rule distinct, rule ids)
qed

lemma list_ids_witness:
  "\<exists>r. demo_run (demo_request Verb_get ''/api/shoes'' []) demo_world1 = (Inr r, demo_world1) \<and>
    fst r = HTTP_STATUS_OK"
proof -
  let ?get = "demo_request Verb_get ''/api/shoes'' []"
  let ?m = "[(1 :: int, \<lparr>js_name = ''/shoes'', js_json_data = ''{}'', js_id = 1\<rparr>)]"
  have "storage_ok (aw_storage demo_world1)" "mset (id ?m) = mset ?m" by (simp_all add: demo_world1_def storage_empty_def storage_ok_def entry_ok_def in_int_def INT_MIN_def INT_MAX_def)
  moreover have
    "api_live list_beast demo_api ?get" "rq_method ?get = Verb_get" "rq_target ?get = ah_location demo_api @ ''/shoes''"
    "fo_is_directory_ec flat_ops (aw_files demo_world1) (ah_root demo_api @ ''/shoes'')"
    "aw_storage demo_world1 ''/shoes'' = Some ?m" "?m \<noteq> []"
    by (simp_all add: demo_defs demo_world1_def)
  ultimately show ?thesis
    using list_ids [of demo_world1 id ?m list_beast demo_api ?get "''/shoes''" flat_ops "bs_response list_beast"]
    by blast
qed

text \<open>
  C37: a GET of a name whose last entity was deleted, while its directory still exists,
  is a \<open>std::length_error\<close>: \<open>resize(1 - 2)\<close> wraps around.
\<close>

theorem list_emptied:
  assumes "api_live B h req" and "rq_method req = Verb_get" and "rq_target req = ah_location h @ name"
    and "fo_is_directory_ec F (aw_files w) (ah_root h @ name)"
    and "aw_storage w name = Some []" and "iter [] = []"
  shows "api_handle_request B F iter h w req res = (Inl Length_error, w)"
  using assms
  by (simp add: api_handle_request_def api_live_def Let_def api_handle_list_def pure_result_def
      get_json_name_no_id_def id_items_def drop_last_two_def)

lemma list_emptied_witness:
  "\<exists>r w. demo_run (demo_request Verb_delete ''/api/shoes/1'' []) demo_world1 = (Inr r, w) \<and>
    demo_run (demo_request Verb_get ''/api/shoes'' []) w = (Inl Length_error, w)"
proof -
  let ?get = "demo_request Verb_get ''/api/shoes'' []"
  have "\<exists>r w. demo_run (demo_request Verb_delete ''/api/shoes/1'' []) demo_world1 = (Inr r, w) \<and>
      fo_is_directory_ec flat_ops (aw_files w) (ah_root demo_api @ ''/shoes'') \<and>
      aw_storage w ''/shoes'' = Some []"
    by (simp add: demo_defs demo_world1_def to_string_eval stoi_eval)
  moreover have "api_live list_beast demo_api ?get" "rq_method ?get = Verb_get"
    "rq_target ?get = ah_location demo_api @ ''/shoes''"
    by (simp_all add: demo_defs)
  ultimately show ?thesis
    using list_emptied [of list_beast demo_api ?get "''/shoes''" flat_ops _ id] by fastforce
qed

text \<open>
  C38: when a name has an entity with the largest \<open>int\<close> as id, a POST for it adds
  one to that id, which overflows; no entity is written.
\<close>

theorem create_id_overflow:
  assumes "storage_ok (aw_storage w)" and "storage_lookup (aw_storage w) name INT_MAX \<noteq> None"
    and "api_live B h req" and "rq_method req = Verb_post" and "rq_target req = ah_location h @ name"
    and "rq_body req \<noteq> []"
  shows "api_handle_request B F iter h w req res = (Inl Int_overflow, w)"
proof -
  from assms(2) obtain m where m: "aw_storage w name = Some m" "map_of m INT_MAX \<noteq> None"
    by (auto simp: storage_lookup_def split: option.splits)
  from m assms(1) have m_ok: "list_all (entry_ok name) m" by (simp add: storage_ok_def)
  from m(2) have mem: "INT_MAX \<in> fst ` set m" by (simp add: map_of_eq_None_iff)
  then have "m \<noteq> []" by auto
  then obtain k where k: "max_element m = Some k" by (cases "max_element m") auto
  have "INT_MAX \<le> k" using max_element_Some(2) [OF k mem] .
  moreover have "in_int k"
    using max_element_Some(1) [OF k] m_ok by (auto simp: list_all_iff entry_ok_def)
  ultimately have "next_id m = Inl Int_overflow"
    using k by (auto simp: next_id_def in_int_def)
  with assms m show ?thesis
    by (simp add: api_handle_request_def api_live_def Let_def handle_create_def pure_result_def
        get_json_name_no_id_def storage_index_def)
qed

lemma create_id_overflow_witness:
  "\<exists>r w. demo_run (demo_request Verb_put ''/api/shoes/2147483647'' ''{}'') demo_world = (Inr r, w) \<and>
    demo_run (demo_request Verb_post ''/api/shoes'' ''{}'') w = (Inl Int_overflow, w)"
proof -
  let ?post = "demo_request Verb_post ''/api/shoes'' ''{}''"
  have "\<exists>r w. demo_run (demo_request Verb_put ''/api/shoes/2147483647'' ''{}'') demo_world = (Inr r, w) \<and>
      storage_lookup (aw_storage w) ''/shoes'' INT_MAX \<noteq> None"
    by (simp add: demo_defs to_string_eval stoi_eval storage_lookup_def)
  then obtain r w where put: "demo_run (demo_request Verb_put ''/api/shoes/2147483647'' ''{}'') demo_world = (Inr r, w)"
      "storage_lookup (aw_storage w) ''/shoes'' INT_MAX \<noteq> None"
    by blast
  have ok: "storage_ok (aw_storage w)"
    using api_storage_ok [of demo_world list_beast flat_ops id demo_api
        "demo_request Verb_put ''/api/shoes/2147483647'' ''{}''" "bs_response list_beast"] put(1)
    by (simp add: demo_world_def storage_ok_empty)
  have "api_live list_beast demo_api ?post" "rq_method ?post = Verb_post"
    "rq_target ?post = ah_location demo_api @ ''/shoes''" "rq_body ?post \<noteq> []"
    by (simp_all add: demo_defs)
  from create_id_overflow [OF ok put(2) this] put(1) show ?thesis by blast
qed

end
