(* ===== verification/Api_Locks.thy ===== *)
theory Api_Locks
  imports Shared_Lock Api_Props
begin

text \<open>
  The API handler on several threads: the server runs its completion handlers on 128 threads, and
  \<open>api_lock\<close> (\<open>src/api_request_handler.cc\<close>) guards the entity table and the files.

  An operation is a job: what it does before it takes the lock depends on the request alone, and
  what it does while it holds the lock is a program whose steps are the calls to the file system
  and the accesses to the table.  Create, update, delete and the constructor hold the lock alone;
  retrieve and list share it.  What the GET dispatch asks the file system before any lock is not
  part of the jobs: it only decides which of the operations is called.
\<close>

section \<open>The operations as jobs\<close>

datatype 'f api_reply = Made api_handler | Replied "int \<times> 'f response"

datatype 'f api_call =
    Call_constructor string "NginxConfig option"
  | Call_create api_handler "'f request" "'f response"
  | Call_retrieve api_handler "'f request" "'f response"
  | Call_update api_handler "'f request" "'f response"
  | Call_delete api_handler "'f request" "'f response"
  | Call_list api_handler "'f request" "'f response"

type_synonym ('s, 'f) api_prog = "('s api_world, 'f api_reply result) prog"
type_synonym ('s, 'f) api_job = "('s api_world, 'f api_reply result) job"

definition reply :: "int \<times> 'f response \<Rightarrow> ('s, 'f) api_prog" where
  "reply x = Done (Inr (Replied x))"

definition answered :: "int \<times> 'f response \<Rightarrow> ('s, 'f) api_job" where
  "answered x = Answered (Inr (Replied x))"

definition ensure_prog :: "'s file_ops \<Rightarrow> string \<Rightarrow> ('s api_world, unit result) prog" where
  "ensure_prog F path =
     ebind_prog (observe (\<lambda>w. fo_exists F (aw_files w) path)) (\<lambda>there.
       if there then Done (Inr ()) else atomically (on_files (\<lambda>s. fo_create_directories F s path)))"

definition create_section ::
  "'f beast \<Rightarrow> 's file_ops \<Rightarrow> string \<Rightarrow> string \<Rightarrow> 'f request \<Rightarrow> 'f response \<Rightarrow> ('s, 'f) api_prog" where
  "create_section B F file_path name req res =
     ebind_prog (atomically (\<lambda>w. let (json_map, st) = storage_index name (aw_storage w)
                                in (next_id json_map, w\<lparr>aw_storage := st\<rparr>))) (\<lambda>i.
     ebind_prog (ensure_prog F file_path) (\<lambda>_.
     let file_name = file_path @ SLASH # to_string i;
         json = \<lparr>js_name = name, js_json_data = rq_body req, js_id = i\<rparr>
     in bind_prog (atomically (\<lambda>w. case fo_open_trunc F (aw_files w) file_name of
                                    None \<Rightarrow> (False, w) | Some s \<Rightarrow> (True, w\<lparr>aw_files := s\<rparr>))) (\<lambda>is_open.
        if \<not> is_open then reply (handle_internal_server_error res)
        else
          bind_prog (change (\<lambda>w. w\<lparr>aw_files := fo_write F (aw_files w) file_name (rq_body req)\<rparr>)) (\<lambda>_.
          bind_prog (change (\<lambda>w. w\<lparr>aw_storage := storage_put name i json (aw_storage w)\<rparr>)) (\<lambda>_.
            reply (ok_length_type B HTTP_STATUS_CREATED ''application/json'' (id_body i) res))))))"

definition create_job ::
  "'f beast \<Rightarrow> 's file_ops \<Rightarrow> api_handler \<Rightarrow> 'f request \<Rightarrow> 'f response \<Rightarrow> ('s, 'f) api_job" where
  "create_job B F h req res =
     (let request_uri = rq_target req in
      case file_path_of h request_uri of
        Inl e \<Rightarrow> Answered (Inl e)
      | Inr file_path \<Rightarrow>
          if take (length (ah_location h)) request_uri \<noteq> ah_location h
          then answered (handle_bad_request res)
          else if rq_body req = [] then answered (handle_bad_request res)
          else
            case get_json_name_no_id h request_uri of
              Inl e \<Rightarrow> Answered (Inl e)
            | Inr name \<Rightarrow> last_section Unique (create_section B F file_path name req res))"

definition retrieve_job ::
  "'f beast \<Rightarrow> 's file_ops \<Rightarrow> api_handler \<Rightarrow> 'f request \<Rightarrow> 'f response \<Rightarrow> ('s, 'f) api_job" where
  "retrieve_job B F h req res =
     (case file_path_of h (rq_target req) of
        Inl e \<Rightarrow> Answered (Inl e)
      | Inr file_path \<Rightarrow>
          last_section Shared
            (bind_prog (observe (\<lambda>w. fo_read F (aw_files w) file_path)) (\<lambda>d.
               case d of
                 None \<Rightarrow> reply (handle_not_found B res)
               | Some body \<Rightarrow> reply (ok_length_type B HTTP_STATUS_OK ''application/json'' body res))))"

definition update_job ::
  "'f beast \<Rightarrow> 's file_ops \<Rightarrow> api_handler \<Rightarrow> 'f request \<Rightarrow> 'f response \<Rightarrow> ('s, 'f) api_job" where
  "update_job B F h req res =
     (let request_uri = rq_target req in
      case file_path_of h request_uri of
        Inl e \<Rightarrow> Answered (Inl e)
      | Inr file_path \<Rightarrow>
          if take (length (ah_location h)) request_uri \<noteq> ah_location h
          then answered (handle_bad_request res)
          else
            case get_json_id request_uri of
              Inl e \<Rightarrow> Answered (Inl e)
            | Inr i \<Rightarrow>
                if i = - 1 then answered (handle_bad_request res)
                else
                  last_section Unique
                    (ebind_prog (Done (get_json_name h request_uri)) (\<lambda>name.
                     ebind_prog (ensure_prog F (ah_root h @ name)) (\<lambda>_.
                     bind_prog (atomically (\<lambda>w. case fo_open_trunc F (aw_files w) file_path of
                                                 None \<Rightarrow> (False, w) | Some s \<Rightarrow> (True, w\<lparr>aw_files := s\<rparr>))) (\<lambda>is_open.
                     if \<not> is_open then reply (handle_internal_server_error res)
                     else
                       let json = \<lparr>js_name = name, js_json_data = rq_body req, js_id = i\<rparr> in
                       bind_prog (change (\<lambda>w. w\<lparr>aw_files := fo_write F (aw_files w) file_path (rq_body req)\<rparr>)) (\<lambda>_.
                       bind_prog (change (\<lambda>w. w\<lparr>aw_storage := storage_put name i json (aw_storage w)\<rparr>)) (\<lambda>_.
                         reply (ok_plain res))))))))"

definition delete_job ::
  "'f beast \<Rightarrow> 's file_ops \<Rightarrow> api_handler \<Rightarrow> 'f request \<Rightarrow> 'f response \<Rightarrow> ('s, 'f) api_job" where
  "delete_job B F h req res =
     (let request_uri = rq_target req in
      case file_path_of h request_uri of
        Inl e \<Rightarrow> Answered (Inl e)
      | Inr file_path \<Rightarrow>
          last_section Unique
            (bind_prog (observe (\<lambda>w. fo_read F (aw_files w) file_path)) (\<lambda>d.
             if d = None then reply (handle_not_found B res)
             else
               bind_prog (atomically (\<lambda>w. case fo_remove F (aw_files w) file_path of
                                           None \<Rightarrow> (False, w) | Some s \<Rightarrow> (True, w\<lparr>aw_files := s\<rparr>))) (\<lambda>removed.
               if \<not> removed then reply (handle_internal_server_error res)
               else
                 ebind_prog (Done (get_json_name h request_uri)) (\<lambda>json_name.
                 ebind_prog (Done (get_json_id request_uri)) (\<lambda>json_id.
                 bind_prog (change (\<lambda>w. w\<lparr>aw_storage := storage_erase json_name json_id (aw_storage w)\<rparr>)) (\<lambda>_.
                   reply (ok_plain res))))))))"

definition list_job ::
  "'f beast \<Rightarrow> (json_map \<Rightarrow> json_map) \<Rightarrow> api_handler \<Rightarrow> 'f request \<Rightarrow> 'f response \<Rightarrow> ('s, 'f) api_job" where
  "list_job B iter h req res =
     (case get_json_name_no_id h (rq_target req) of
        Inl e \<Rightarrow> Answered (Inl e)
      | Inr json_name \<Rightarrow>
          last_section Shared
            (bind_prog (observe (\<lambda>w. aw_storage w json_name)) (\<lambda>m.
               case m of
                 None \<Rightarrow> reply (handle_not_found B res)
               | Some json_map \<Rightarrow>
                   ebind_prog (Done (drop_last_two (''['' @ id_items (iter json_map)))) (\<lambda>id_list.
                     reply (ok_length_type B HTTP_STATUS_OK ''application/json'' (id_list @ '']'') res)))))"

fun load_prog :: "'s file_ops \<Rightarrow> string \<Rightarrow> string list \<Rightarrow> ('s api_world, unit result) prog" where
  "load_prog F root [] = Done (Inr ())"
| "load_prog F root (entry # entries) =
     ebind_prog (atomically (load_entry F root entry)) (\<lambda>_. load_prog F root entries)"

definition constructor_job :: "'s file_ops \<Rightarrow> string \<Rightarrow> NginxConfig option \<Rightarrow> ('s, 'f) api_job" where
  "constructor_job F path config =
     (case root_of config of
        Inl e \<Rightarrow> Answered (Inl e)
      | Inr None \<Rightarrow> Answered (Inr (Made \<lparr>ah_location = path, ah_root = [], ah_bad = True\<rparr>))
      | Inr (Some root) \<Rightarrow>
          last_section Unique
            (ebind_prog (ensure_prog F root) (\<lambda>_.
             ebind_prog (observe (\<lambda>w. fo_recursive F (aw_files w) root)) (\<lambda>entries.
             ebind_prog (load_prog F root entries) (\<lambda>_.
               Done (Inr (Made \<lparr>ah_location = path, ah_root = root, ah_bad = False\<rparr>)))))))"

fun api_job ::
  "'f beast \<Rightarrow> 's file_ops \<Rightarrow> (json_map \<Rightarrow> json_map) \<Rightarrow> 'f api_call \<Rightarrow> ('s, 'f) api_job" where
  "api_job B F iter (Call_constructor path config) = constructor_job F path config"
| "api_job B F iter (Call_create h req res) = create_job B F h req res"
| "api_job B F iter (Call_retrieve h req res) = retrieve_job B F h req res"
| "api_job B F iter (Call_update h req res) = update_job B F h req res"
| "api_job B F iter (Call_delete h req res) = delete_job B F h req res"
| "api_job B F iter (Call_list h req res) = list_job B iter h req res"

section \<open>Run alone, they are the operations\<close>

definition as_reply :: "('a \<Rightarrow> 'f api_reply) \<Rightarrow> 'a result \<times> 'w \<Rightarrow> 'f api_reply result \<times> 'w" where
  "as_reply c x = ebind x (\<lambda>a w. (Inr (c a), w))"

fun api_operation ::
  "'f beast \<Rightarrow> 's file_ops \<Rightarrow> (json_map \<Rightarrow> json_map) \<Rightarrow> 'f api_call \<Rightarrow> 's api_world \<Rightarrow>
     'f api_reply result \<times> 's api_world" where
  "api_operation B F iter (Call_constructor path config) w = as_reply Made (ApiRequestHandler F path config w)"
| "api_operation B F iter (Call_create h req res) w = as_reply Replied (handle_create B F h req res w)"
| "api_operation B F iter (Call_retrieve h req res) w = as_reply Replied (api_handle_retrieve B F h req res w)"
| "api_operation B F iter (Call_update h req res) w = as_reply Replied (handle_update B F h req res w)"
| "api_operation B F iter (Call_delete h req res) w = as_reply Replied (handle_delete B F h req res w)"
| "api_operation B F iter (Call_list h req res) w = as_reply Replied (api_handle_list B iter h req res w)"

lemma run_ensure [run_simps]: "run (ensure_prog F path) w = on_files (ensure_directory F path) w"
  by (auto simp: ensure_prog_def run_simps on_files_def ensure_directory_def ebind_def split: sum.split bool.split)

lemma run_reply [run_simps]: "run (reply x) w = (Inr (Replied x), w)"
  by (simp add: reply_def)

lemma run_load [run_simps]: "run (load_prog F root entries) w = load_entries F root entries w"
  by (induction F root entries arbitrary: w rule: load_prog.induct) (simp_all add: run_simps)

lemma as_reply_simps [simp]:
  "as_reply c (Inl e, w) = (Inl e, w)" "as_reply c (Inr a, w) = (Inr (c a), w)"
  "as_reply c (ebind x k) = ebind x (\<lambda>a w. as_reply c (k a w))"
  by (auto simp: as_reply_def ebind_def split: prod.split sum.split)

lemma ebind_pair: "ebind (r, w) k = (case r of Inl e \<Rightarrow> (Inl e, w) | Inr x \<Rightarrow> k x w)"
  by (simp split: sum.split)

lemmas job_simps = run_simps ebind_pair pure_result_def answered_def Let_def

lemma run_create: "run_job (create_job B F h req res) w = as_reply Replied (handle_create B F h req res w)"
proof -
  have "run (create_section B F file_path name req res) w =
      as_reply Replied
        (let (json_map, st) = storage_index name (aw_storage w);
             w = w\<lparr>aw_storage := st\<rparr>
         in ebind (pure_result (next_id json_map) w) (\<lambda>i w.
            ebind (on_files (ensure_directory F file_path) w) (\<lambda>_ w.
            let file_name = file_path @ SLASH # to_string i in
            case fo_open_trunc F (aw_files w) file_name of
              None \<Rightarrow> (Inr (handle_internal_server_error res), w)
            | Some s \<Rightarrow>
                let json = \<lparr>js_name = name, js_json_data = rq_body req, js_id = i\<rparr>
                in (Inr (ok_length_type B HTTP_STATUS_CREATED ''application/json'' (id_body i) res),
                    w\<lparr>aw_files := fo_write F s file_name (rq_body req),
                      aw_storage := storage_put name i json (aw_storage w)\<rparr>))))" for file_path name
    by (auto simp: create_section_def job_simps split: prod.split sum.split option.split
        intro!: arg_cong2 [where f = ebind] ext)
  then show ?thesis
    by (auto simp: create_job_def handle_create_def job_simps split: sum.split)
qed

lemma run_retrieve:
  "run_job (retrieve_job B F h req res) w = as_reply Replied (api_handle_retrieve B F h req res w)"
  by (auto simp: retrieve_job_def api_handle_retrieve_def job_simps split: sum.split option.split)

lemma run_list:
  "run_job (list_job B iter h req res) w = as_reply Replied (api_handle_list B iter h req res w)"
  by (auto simp: list_job_def api_handle_list_def job_simps split: sum.split option.split)

lemma run_update:
  "run_job (update_job B F h req res) w = as_reply Replied (handle_update B F h req res w)"
  by (auto simp: update_job_def handle_update_def job_simps
      split: sum.split option.split intro!: arg_cong2 [where f = ebind] ext)

lemma run_delete:
  "run_job (delete_job B F h req res) w = as_reply Replied (handle_delete B F h req res w)"
  by (auto simp: delete_job_def handle_delete_def job_simps split: sum.split option.split)

lemma run_constructor:
  "run_job (constructor_job F path config) w = as_reply Made (ApiRequestHandler F path config w)"
  by (auto simp: constructor_job_def ApiRequestHandler_def job_simps split: sum.split option.split
      intro!: arg_cong2 [where f = ebind] ext)

lemma api_job_runs: "run_job (api_job B F iter call) w = api_operation B F iter call w"
  by (cases call) (simp_all add: run_create run_retrieve run_update run_delete run_list run_constructor)

section \<open>On many threads\<close>

lemma api_job_reads: "shared_reads (api_job B F iter call)"
  by (cases call)
    (auto simp: shared_reads_last constructor_job_def create_job_def retrieve_job_def update_job_def delete_job_def list_job_def
      answered_def reply_def Let_def intro!: read_only_bind read_only_ebind read_only_observe
      split: sum.splits option.splits if_splits)

lemma api_job_single: "Locked m p = api_job B F iter call \<Longrightarrow> \<exists>q. api_job B F iter call = last_section m q"
  by (cases call)
    (auto simp: last_section_def constructor_job_def create_job_def retrieve_job_def update_job_def delete_job_def
      list_job_def answered_def Let_def split: sum.splits option.splits if_splits)

interpretation api_lock: single_jobs "map (api_job B F iter) calls"
  by unfold_locales (auto intro: api_job_reads dest: api_job_single)

text \<open>The operations one after the other, in a given order: the replies and the world afterwards.\<close>

fun api_serial ::
  "'f beast \<Rightarrow> 's file_ops \<Rightarrow> (json_map \<Rightarrow> json_map) \<Rightarrow> 'f api_call list \<Rightarrow> nat list \<Rightarrow> 's api_world \<Rightarrow>
     (nat \<times> 'f api_reply result) list \<times> 's api_world" where
  "api_serial B F iter calls [] w = ([], w)"
| "api_serial B F iter calls (i # order) w =
     (let (r, w') = api_operation B F iter (calls ! i) w;
          (rs, w'') = api_serial B F iter calls order w'
      in ((i, r) # rs, w''))"

lemma serial_api:
  "set order \<subseteq> {..<length calls} \<Longrightarrow>
     replies (map (api_job B F iter) calls) order w = api_serial B F iter calls order w"
  by (induction order arbitrary: w) (auto simp: api_job_runs split: prod.split)

abbreviation api_pool ::
  "'f beast \<Rightarrow> 's file_ops \<Rightarrow> (json_map \<Rightarrow> json_map) \<Rightarrow> 'f api_call list \<Rightarrow> 's api_world \<Rightarrow>
     ('s api_world, 'f api_reply result) pool" where
  "api_pool B F iter calls w \<equiv> start_pool (map (api_job B F iter) calls) w"

text \<open>The interleavings of the operations are the serial orders.\<close>

lemma api_interleaving:
  assumes "pool_run (api_pool B F iter calls w) order pl"
  shows "distinct order \<and> set order \<subseteq> {..<length calls} \<and>
    (\<not> pl_writer pl \<longrightarrow> pl_shared pl = snd (api_serial B F iter calls order w)) \<and>
    (\<forall>i r. i < length calls \<longrightarrow> pl_threads pl ! i = Finished r \<longrightarrow>
       (i, r) \<in> set (fst (api_serial B F iter calls order w)) \<or>
       i \<notin> set order \<and> (\<forall>v. api_operation B F iter (calls ! i) v = (r, v)))"
proof -
  note facts = api_lock.single_interleaving [OF assms]
  have order: "distinct order" "set order \<subseteq> {..<length calls}" using facts(3,4) by simp_all
  have "(i, r) \<in> set (fst (api_serial B F iter calls order w)) \<or>
      i \<notin> set order \<and> (\<forall>v. api_operation B F iter (calls ! i) v = (r, v))"
    if i: "i < length calls" "pl_threads pl ! i = Finished r" for i r
  proof -
    have "api_operation B F iter (calls ! i) v = (r, v)" if "api_job B F iter (calls ! i) = Answered r" for v
      using that api_job_runs [of B F iter "calls ! i" v] by simp
    then show ?thesis using facts(2) [of i r] i order(2) by (auto simp: serial_api)
  qed
  with facts(1) order show ?thesis by (simp add: serial_api)
qed

text \<open>
  C7: however the threads' steps interleave, the operations on the entity table take
  effect one after the other, in the order in which they release the lock: a thread that has
  finished has the reply its operation gives in that order (or one it gave without the lock, from
  its request alone), and whenever no thread holds the lock alone, the table and the files are
  those the operations leave behind in that order.
\<close>

theorem api_linearizable:
  assumes "pool_run (api_pool B F iter calls w) order pl"
  shows "distinct order \<and> set order \<subseteq> {..<length calls} \<and>
    (\<not> pl_writer pl \<longrightarrow> pl_shared pl = snd (api_serial B F iter calls order w)) \<and>
    (\<forall>i r. i < length calls \<longrightarrow> pl_threads pl ! i = Finished r \<longrightarrow>
       (i, r) \<in> set (fst (api_serial B F iter calls order w)) \<or>
       i \<notin> set order \<and> (\<forall>v. api_operation B F iter (calls ! i) v = (r, v)))"
  using assms by (rule api_interleaving)

text \<open>
  While an operation that writes holds the lock, no other thread is in a critical section.
\<close>

theorem api_writer_alone:
  assumes "pool_run (api_pool B F iter calls w) order pl"
    and "i < length calls" and "pl_threads pl ! i = Inside Unique p"
    and "j < length calls" and "pl_threads pl ! j = Inside m q"
  shows "j = i"
proof -
  have "length (pl_threads pl) = length calls"
    using api_lock.pool_run_length [OF assms(1)] by simp
  then show ?thesis using api_lock.writer_excludes [OF assms(1)] assms(2-5) by metis
qed

section \<open>New ids\<close>

text \<open>What is not a delete loses no entity of the table.\<close>

fun is_delete :: "'f api_call \<Rightarrow> bool" where
  "is_delete (Call_delete h req res) = True"
| "is_delete _ = False"

definition kept :: "json_storage \<Rightarrow> json_storage \<Rightarrow> bool" where
  "kept st st' \<longleftrightarrow> (\<forall>n i. storage_lookup st n i \<noteq> None \<longrightarrow> storage_lookup st' n i \<noteq> None)"

lemma kept_refl [simp]: "kept st st"
  by (simp add: kept_def)

lemma kept_trans: "kept st st' \<Longrightarrow> kept st' st'' \<Longrightarrow> kept st st''"
  by (simp add: kept_def)

lemma kept_put: "kept st st' \<Longrightarrow> kept st (storage_put n i e st')"
  by (simp add: kept_def storage_lookup_put)

lemma kept_index: "storage_index n st = (m, st') \<Longrightarrow> kept st st'"
  by (simp add: kept_def lookup_after_index)

lemma kept_create: "kept (aw_storage w) (aw_storage (snd (handle_create B F h req res w)))"
  by (auto simp: handle_create_def pure_result_def Let_def
      split: ebind_split prod.split option.split if_split intro!: kept_put dest!: on_files_storageD
      intro: kept_index)

lemma kept_update: "kept (aw_storage w) (aw_storage (snd (handle_update B F h req res w)))"
  by (auto simp: handle_update_def pure_result_def Let_def
      split: ebind_split option.split if_split intro!: kept_put dest!: on_files_storageD)

lemma kept_load: "kept (aw_storage w) (aw_storage (snd (load_entries F root entries w)))"
proof (induction entries arbitrary: w)
  case (Cons e es)
  have "kept (aw_storage w) (aw_storage (snd (load_entry F root e w)))"
    by (auto simp: load_entry_def pure_result_def Let_def
        split: ebind_split option.split if_split intro!: kept_put)
  with Cons show ?case by (auto split: ebind_split intro: kept_trans)
qed simp

lemma kept_constructor: "kept (aw_storage w) (aw_storage (snd (ApiRequestHandler F path config w)))"
  using kept_load [of _ F]
  by (auto simp: ApiRequestHandler_def pure_result_def split: ebind_split option.split
      dest!: on_files_storageD) (metis snd_conv)+

lemma snd_as_reply [simp]: "snd (as_reply c x) = snd x"
  by (auto simp: as_reply_def ebind_def split: prod.split sum.split)

lemma kept_operation:
  "\<not> is_delete call \<Longrightarrow> kept (aw_storage w) (aw_storage (snd (api_operation B F iter call w)))"
  by (cases call) (simp_all add: kept_create kept_update kept_constructor)

text \<open>A create that was answered with 201: its id is new in the table it found, and in it afterwards.\<close>

definition created :: "'f api_call \<Rightarrow> 'f api_reply result \<Rightarrow> string \<Rightarrow> int \<Rightarrow> bool" where
  "created call r name i \<longleftrightarrow>
     (\<exists>h req res x. call = Call_create h req res \<and> rq_target req = ah_location h @ name \<and>
        r = Inr (Replied x) \<and> fst x = HTTP_STATUS_CREATED \<and> rs_body (snd x) = id_body i \<and> in_int i)"

lemma created_new:
  assumes "api_operation B F iter (Call_create h req res) w = (Inr (Replied x), w')" and "fst x = HTTP_STATUS_CREATED"
  obtains name i where "created (Call_create h req res) (Inr (Replied x)) name i"
    and "storage_lookup (aw_storage w) name i = None" and "storage_lookup (aw_storage w') name i \<noteq> None"
proof -
  have "handle_create B F h req res w = (Inr x, w')"
    using assms(1) by (auto simp: as_reply_def result_iff)
  then show ?thesis
    using assms(2)
  proof (rule handle_create_created)
    fix name i s1 s2
    assume *: "rq_target req = ah_location h @ name" "next_id (fst (storage_index name (aw_storage w))) = Inr i"
      "snd x = snd (ok_length_type B HTTP_STATUS_CREATED ''application/json'' (id_body i) res)"
      "aw_storage w' = storage_put name i \<lparr>js_name = name, js_json_data = rq_body req, js_id = i\<rparr> (aw_storage w)"
    show thesis
    proof
      show "created (Call_create h req res) (Inr (Replied x)) name i"
        using * assms(2) next_id_fresh(2) [OF *(2)] by (simp add: created_def)
      show "storage_lookup (aw_storage w) name i = None"
        using next_id_fresh(1) [OF *(2)] by (simp add: fst_index_lookup)
      show "storage_lookup (aw_storage w') name i \<noteq> None" by (simp add: *(4) storage_lookup_put)
    qed
  qed
qed

lemma id_body_inj: "in_int i \<Longrightarrow> in_int j \<Longrightarrow> id_body i = id_body j \<Longrightarrow> i = j"
  using stoi_to_string [of i] stoi_to_string [of j] by (auto simp: id_body_def)

lemma created_unique: "created call r name i \<Longrightarrow> created call r name' j \<Longrightarrow> name' = name \<and> j = i"
  by (auto simp: created_def dest: id_body_inj)

lemma serial_operation:
  "(i, r) \<in> set (fst (api_serial B F iter calls order w)) \<Longrightarrow>
     \<exists>v v'. api_operation B F iter (calls ! i) v = (r, v')"
  by (induction order arbitrary: w) (auto split: prod.splits, (metis fst_conv)+)

lemma serial_created:
  assumes "list_all (\<lambda>c. \<not> is_delete c) calls" and "set order \<subseteq> {..<length calls}"
    and "(i, r) \<in> set (fst (api_serial B F iter calls order w))" and "created (calls ! i) r name a"
  shows "storage_lookup (aw_storage w) name a = None"
  using assms(2,3)
proof (induction order arbitrary: w)
  case (Cons j order)
  obtain r' w' where op: "api_operation B F iter (calls ! j) w = (r', w')" by fastforce
  have j: "j < length calls" "set order \<subseteq> {..<length calls}" using Cons.prems(1) by auto
  from Cons.prems(2) op have "i = j \<and> r = r' \<or> (i, r) \<in> set (fst (api_serial B F iter calls order w'))"
    by (auto split: prod.splits)
  then show ?case
  proof
    assume ij: "i = j \<and> r = r'"
    obtain h req res x where c: "calls ! j = Call_create h req res" "r' = Inr (Replied x)" "fst x = HTTP_STATUS_CREATED"
      using assms(4) ij unfolding created_def by blast
    show ?thesis
      using op c(3) unfolding c(1,2)
    proof (rule created_new)
      fix n b
      assume "created (Call_create h req res) (Inr (Replied x)) n b" "storage_lookup (aw_storage w) n b = None"
      with created_unique assms(4) ij c show ?thesis by metis
    qed
  next
    assume "(i, r) \<in> set (fst (api_serial B F iter calls order w'))"
    then have "storage_lookup (aw_storage w') name a = None" using Cons.IH j(2) by blast
    moreover have "kept (aw_storage w) (aw_storage w')"
      using kept_operation [of "calls ! j" w B F iter] assms(1) j(1) op by (simp add: list_all_length)
    ultimately show ?thesis unfolding kept_def by blast
  qed
qed simp

lemma serial_ids_differ:
  assumes "list_all (\<lambda>c. \<not> is_delete c) calls" and "set order \<subseteq> {..<length calls}" and "distinct order" and "i \<noteq> j"
    and "(i, r) \<in> set (fst (api_serial B F iter calls order w))" and "created (calls ! i) r name a"
    and "(j, r') \<in> set (fst (api_serial B F iter calls order w))" and "created (calls ! j) r' name b"
  shows "a \<noteq> b"
  using assms(2,3,5,7)
proof (induction order arbitrary: w)
  case (Cons k order)
  obtain r0 w' where op: "api_operation B F iter (calls ! k) w = (r0, w')" by fastforce
  have order: "set order \<subseteq> {..<length calls}" "distinct order" "k \<notin> set order" using Cons.prems(1,2) by auto
  let ?rest = "set (fst (api_serial B F iter calls order w'))"
  have cases: "i = k \<and> r = r0 \<or> (i, r) \<in> ?rest" "j = k \<and> r' = r0 \<or> (j, r') \<in> ?rest"
    using Cons.prems(3,4) op by (auto split: prod.splits)
  have first: "b' \<noteq> a'" if mine: "created (calls ! k) r0 name a'" and theirs: "(l, q) \<in> ?rest" "created (calls ! l) q name b'" for a' b' l q
  proof -
    obtain h req res x where c: "calls ! k = Call_create h req res" "r0 = Inr (Replied x)" "fst x = HTTP_STATUS_CREATED"
      using mine unfolding created_def by blast
    have "storage_lookup (aw_storage w') name a' \<noteq> None"
      using op c(3) unfolding c(1,2)
    proof (rule created_new)
      fix n d
      assume "created (Call_create h req res) (Inr (Replied x)) n d" "storage_lookup (aw_storage w') n d \<noteq> None"
      with created_unique mine c show ?thesis by metis
    qed
    moreover have "storage_lookup (aw_storage w') name b' = None"
      using serial_created [OF assms(1) order(1) theirs] .
    ultimately show ?thesis by auto
  qed
  consider "i = k" "r = r0" "(j, r') \<in> ?rest" | "j = k" "r' = r0" "(i, r) \<in> ?rest" | "(i, r) \<in> ?rest" "(j, r') \<in> ?rest"
    using cases assms(4) by blast
  then show ?case
  proof cases
    case 1
    then show ?thesis using first [of a j r' b] assms(6,8) by simp
  next
    case 2
    then show ?thesis using first [of b i r a] assms(6,8) by simp
  next
    case 3
    then show ?thesis using Cons.IH order by blast
  qed
qed simp

text \<open>
  C9: however the threads interleave, two POSTs for the same name that are both
  answered with 201 get different ids, as long as none of the operations that run with them is a
  DELETE.
\<close>

theorem api_ids_unique:
  assumes "pool_run (api_pool B F iter calls w) order pl" and "list_all (\<lambda>c. \<not> is_delete c) calls"
    and "i < length calls" and "j < length calls" and "i \<noteq> j"
    and "calls ! i = Call_create h req res" and "rq_target req = ah_location h @ name"
    and "calls ! j = Call_create h' req' res'" and "rq_target req' = ah_location h' @ name"
    and "pl_threads pl ! i = Finished (Inr (Replied x))" and "fst x = HTTP_STATUS_CREATED"
    and "pl_threads pl ! j = Finished (Inr (Replied y))" and "fst y = HTTP_STATUS_CREATED"
  shows "rs_body (snd x) \<noteq> rs_body (snd y)"
proof -
  have run: "distinct order" "set order \<subseteq> {..<length calls}" using api_interleaving [OF assms(1)] by simp_all
  have serial: "\<exists>a. (k, Inr (Replied z)) \<in> set (fst (api_serial B F iter calls order w)) \<and>
      created (calls ! k) (Inr (Replied z)) name a"
    if k: "k < length calls" "calls ! k = Call_create g rq rs" "rq_target rq = ah_location g @ name"
      "pl_threads pl ! k = Finished (Inr (Replied z))" "fst z = HTTP_STATUS_CREATED" for k g rq rs z
  proof -
    have in_serial: "(k, Inr (Replied z)) \<in> set (fst (api_serial B F iter calls order w))"
    proof (rule ccontr)
      assume "\<not> ?thesis"
      then have "api_operation B F iter (Call_create g rq rs) w = (Inr (Replied z), w)"
        using api_interleaving [OF assms(1)] k by metis
      then show False using k(5) by (rule created_new) simp
    qed
    then obtain v v' where "api_operation B F iter (calls ! k) v = (Inr (Replied z), v')"
      using serial_operation by blast
    then have "api_operation B F iter (Call_create g rq rs) v = (Inr (Replied z), v')" by (simp add: k(2))
    then obtain n a where "created (Call_create g rq rs) (Inr (Replied z)) n a" using k(5) by (rule created_new)
    moreover from this have "n = name" using k(3) by (auto simp: created_def)
    ultimately show ?thesis using in_serial k(2) by auto
  qed
  obtain a b where ab: "(i, Inr (Replied x)) \<in> set (fst (api_serial B F iter calls order w))"
    "created (calls ! i) (Inr (Replied x)) name a"
    "(j, Inr (Replied y)) \<in> set (fst (api_serial B F iter calls order w))"
    "created (calls ! j) (Inr (Replied y)) name b"
    using serial assms(3,4,6-13) by meson
  have "a \<noteq> b" using serial_ids_differ [OF assms(2) run(2,1) assms(5) ab] .
  moreover have "rs_body (snd x) = id_body a" "in_int a" "rs_body (snd y) = id_body b" "in_int b"
    using ab(2,4) by (auto simp: created_def)
  ultimately show ?thesis using id_body_inj by metis
qed

section \<open>Two POSTs at once\<close>

definition demo_calls :: "field_list api_call list" where
  "demo_calls =
     (let call = Call_create demo_api (demo_request Verb_post ''/api/shoes'' ''{}'') (bs_response list_beast)
      in [call, call])"

definition demo_pool :: "(flat_fs api_world, field_list api_reply result) pool" where
  "demo_pool = api_pool list_beast flat_ops id demo_calls demo_world"

text \<open>The second thread gets the lock first; the first one asks for it in between.\<close>

lemma demo_schedule:
  "\<exists>pl x y. schedule ([1, 1, 0, 1, 0] @ replicate 5 1 @ [0] @ replicate 7 0) [] demo_pool = ([1, 0], pl) \<and>
     pl_threads pl ! 0 = Finished (Inr (Replied x)) \<and> fst x = HTTP_STATUS_CREATED \<and>
     pl_threads pl ! 1 = Finished (Inr (Replied y)) \<and> fst y = HTTP_STATUS_CREATED \<and> \<not> pl_writer pl"
  by (simp add: demo_pool_def demo_calls_def Let_def eval_nat_numeral demo_defs to_string_eval start_pool_def last_section_def create_job_def create_section_def ensure_prog_def
      ebind_prog_def atomically_def observe_def change_def reply_def)

lemma demo_interleaved:
  obtains pl x y where "pool_run demo_pool [1, 0] pl" and "pl_threads pl ! 0 = Finished (Inr (Replied x))"
    and "fst x = HTTP_STATUS_CREATED" and "pl_threads pl ! 1 = Finished (Inr (Replied y))"
    and "fst y = HTTP_STATUS_CREATED" and "\<not> pl_writer pl"
  using demo_schedule schedule_run by metis

lemma api_linearizable_witness:
  "\<exists>pl r. pool_run demo_pool [1, 0] pl \<and> pl_threads pl ! 0 = Finished r \<and>
     pl_shared pl = snd (api_serial list_beast flat_ops id demo_calls [1, 0] demo_world) \<and>
     (0, r) \<in> set (fst (api_serial list_beast flat_ops id demo_calls [1, 0] demo_world))"
proof (rule demo_interleaved)
  fix pl x y
  assume *: "pool_run demo_pool [1, 0] pl" "pl_threads pl ! 0 = Finished (Inr (Replied x))" "\<not> pl_writer pl"
  have "0 < length demo_calls" "0 \<in> set [1, 0 :: nat]" by (simp_all add: demo_calls_def Let_def)
  then show ?thesis using api_linearizable [OF *(1) [unfolded demo_pool_def]] * by blast
qed

lemma api_ids_unique_witness:
  "\<exists>pl x y. pool_run demo_pool [1, 0] pl \<and> pl_threads pl ! 0 = Finished (Inr (Replied x)) \<and>
     pl_threads pl ! 1 = Finished (Inr (Replied y)) \<and> rs_body (snd x) \<noteq> rs_body (snd y)"
proof (rule demo_interleaved)
  fix pl x y
  assume *: "pool_run demo_pool [1, 0] pl" "pl_threads pl ! 0 = Finished (Inr (Replied x))" "fst x = HTTP_STATUS_CREATED"
    "pl_threads pl ! 1 = Finished (Inr (Replied y))" "fst y = HTTP_STATUS_CREATED"
  let ?call = "Call_create demo_api (demo_request Verb_post ''/api/shoes'' ''{}'') (bs_response list_beast)"
  have calls: "demo_calls = [?call, ?call]" by (simp add: demo_calls_def Let_def)
  have "rq_target (demo_request Verb_post ''/api/shoes'' ''{}'') = ah_location demo_api @ ''/shoes''"
    by (simp add: demo_defs)
  then have "rs_body (snd x) \<noteq> rs_body (snd y)"
    using api_ids_unique [OF *(1) [unfolded demo_pool_def], of 0 1] * by (simp add: calls)
  with * show ?thesis by blast
qed

end
