(* ===== verification/Api_Code.thy ===== *)
theory Api_Code
  imports Lock_Discipline Api_Locks
begin

text \<open>
  The operations of the API handler with every locking and unlocking of \<open>api_lock\<close>
  (\<open>src/api_request_handler.cc\<close>) as an instruction: the constructor of a \<open>std::unique_lock\<close> or a
  \<open>std::shared_lock\<close> is a \<open>Lock\<close>; its \<open>unlock\<close>, and its destructor on each early return and on each
  exception that leaves the operation while it holds the lock, is an \<open>Unlock\<close> of that path.

  \<open>api_code_job\<close> says that this is the code of the jobs of \<open>Api_Locks\<close>, instruction by instruction,
  and \<open>api_code_closes\<close> that it follows the discipline of \<open>Lock_Discipline\<close>.
\<close>

section \<open>The operations as code\<close>

type_synonym ('s, 'f) api_instrs = "('s api_world, 'f api_reply result) code"

definition respond :: "int \<times> 'f response \<Rightarrow> ('s, 'f) api_instrs" where
  "respond x = Return (Inr (Replied x))"

definition ensure_code ::
  "'s file_ops \<Rightarrow> string \<Rightarrow> (fault \<Rightarrow> ('s, 'f) api_instrs) \<Rightarrow> ('s, 'f) api_instrs \<Rightarrow> ('s, 'f) api_instrs" where
  "ensure_code F path throw next_code =
     Perform (\<lambda>w. (w,
       case fo_exists F (aw_files w) path of
         Inl e \<Rightarrow> throw e
       | Inr there \<Rightarrow>
           if there then next_code
           else Perform (\<lambda>w. case on_files (\<lambda>s. fo_create_directories F s path) w of
                               (Inl e, w') \<Rightarrow> (w', throw e)
                             | (Inr _, w') \<Rightarrow> (w', next_code))))"

text \<open>Opening a file for writing: the rest of the code depends on whether that succeeded.\<close>

definition open_code ::
  "'s file_ops \<Rightarrow> string \<Rightarrow> ('s, 'f) api_instrs \<Rightarrow> ('s, 'f) api_instrs \<Rightarrow> ('s, 'f) api_instrs" where
  "open_code F path closed_code opened_code =
     Perform (\<lambda>w. case fo_open_trunc F (aw_files w) path of
                    None \<Rightarrow> (w, closed_code)
                  | Some s \<Rightarrow> (w\<lparr>aw_files := s\<rparr>, opened_code))"

definition create_code ::
  "'f beast \<Rightarrow> 's file_ops \<Rightarrow> api_handler \<Rightarrow> 'f request \<Rightarrow> 'f response \<Rightarrow> ('s, 'f) api_instrs" where
  "create_code B F h req res =
     (let request_uri = rq_target req in
      case file_path_of h request_uri of
        Inl e \<Rightarrow> Return (Inl e)
      | Inr file_path \<Rightarrow>
          if take (length (ah_location h)) request_uri \<noteq> ah_location h
          then respond (handle_bad_request res)
          else if rq_body req = [] then respond (handle_bad_request res)
          else
            case get_json_name_no_id h request_uri of
              Inl e \<Rightarrow> Return (Inl e)
            | Inr name \<Rightarrow>
                Lock Unique
                  (Perform (\<lambda>w. let (json_map, st) = storage_index name (aw_storage w)
                     in (w\<lparr>aw_storage := st\<rparr>,
                         case next_id json_map of
                           Inl e \<Rightarrow> Unlock (Return (Inl e))
                         | Inr i \<Rightarrow>
                             ensure_code F file_path (\<lambda>e. Unlock (Return (Inl e)))
                               (let file_name = file_path @ SLASH # to_string i;
                                    json = \<lparr>js_name = name, js_json_data = rq_body req, js_id = i\<rparr>
                                in open_code F file_name
                                     (Unlock (respond (handle_internal_server_error res)))
                                     (Perform (\<lambda>w. (w\<lparr>aw_files := fo_write F (aw_files w) file_name (rq_body req)\<rparr>,
                                      Perform (\<lambda>w. (w\<lparr>aw_storage := storage_put name i json (aw_storage w)\<rparr>,
                                      Unlock (respond (ok_length_type B HTTP_STATUS_CREATED ''application/json''
                                        (id_body i) res))))))))))))"

definition retrieve_code ::
  "'f beast \<Rightarrow> 's file_ops \<Rightarrow> api_handler \<Rightarrow> 'f request \<Rightarrow> 'f response \<Rightarrow> ('s, 'f) api_instrs" where
  "retrieve_code B F h req res =
     (case file_path_of h (rq_target req) of
        Inl e \<Rightarrow> Return (Inl e)
      | Inr file_path \<Rightarrow>
          Lock Shared
            (Perform (\<lambda>w. (w,
               case fo_read F (aw_files w) file_path of
                 None \<Rightarrow> Unlock (respond (handle_not_found B res))
               | Some body \<Rightarrow>
                   Unlock (respond (ok_length_type B HTTP_STATUS_OK ''application/json'' body res))))))"

definition update_code ::
  "'f beast \<Rightarrow> 's file_ops \<Rightarrow> api_handler \<Rightarrow> 'f request \<Rightarrow> 'f response \<Rightarrow> ('s, 'f) api_instrs" where
  "update_code B F h req res =
     (let request_uri = rq_target req in
      case file_path_of h request_uri of
        Inl e \<Rightarrow> Return (Inl e)
      | Inr file_path \<Rightarrow>
          if take (length (ah_location h)) request_uri \<noteq> ah_location h
          then respond (handle_bad_request res)
          else
            case get_json_id request_uri of
              Inl e \<Rightarrow> Return (Inl e)
            | Inr i \<Rightarrow>
                if i = - 1 then respond (handle_bad_request res)
                else
                  Lock Unique
                    (case get_json_name h request_uri of
                       Inl e \<Rightarrow> Unlock (Return (Inl e))
                     | Inr name \<Rightarrow>
                         ensure_code F (ah_root h @ name) (\<lambda>e. Unlock (Return (Inl e)))
                           (open_code F file_path
                             (Unlock (respond (handle_internal_server_error res)))
                             (let json = \<lparr>js_name = name, js_json_data = rq_body req, js_id = i\<rparr> in
                              Perform (\<lambda>w. (w\<lparr>aw_files := fo_write F (aw_files w) file_path (rq_body req)\<rparr>,
                              Perform (\<lambda>w. (w\<lparr>aw_storage := storage_put name i json (aw_storage w)\<rparr>,
                              Unlock (respond (ok_plain res))))))))))"

definition delete_code ::
  "'f beast \<Rightarrow> 's file_ops \<Rightarrow> api_handler \<Rightarrow> 'f request \<Rightarrow> 'f response \<Rightarrow> ('s, 'f) api_instrs" where
  "delete_code B F h req res =
     (let request_uri = rq_target req in
      case file_path_of h request_uri of
        Inl e \<Rightarrow> Return (Inl e)
      | Inr file_path \<Rightarrow>
          Lock Unique
            (Perform (\<lambda>w. (w,
               if fo_read F (aw_files w) file_path = None then Unlock (respond (handle_not_found B res))
               else
                 Perform (\<lambda>w. case fo_remove F (aw_files w) file_path of
                   None \<Rightarrow> (w, Unlock (respond (handle_internal_server_error res)))
                 | Some s \<Rightarrow> (w\<lparr>aw_files := s\<rparr>,
                     case get_json_name h request_uri of
                       Inl e \<Rightarrow> Unlock (Return (Inl e))
                     | Inr json_name \<Rightarrow>
                         case get_json_id request_uri of
                           Inl e \<Rightarrow> Unlock (Return (Inl e))
                         | Inr json_id \<Rightarrow>
                             Perform (\<lambda>w. (w\<lparr>aw_storage := storage_erase json_name json_id (aw_storage w)\<rparr>,
                             Unlock (respond (ok_plain res))))))))))"

text \<open>The trailing comma of the list is dropped after the lock is released.\<close>

definition list_code ::
  "'f beast \<Rightarrow> (json_map \<Rightarrow> json_map) \<Rightarrow> api_handler \<Rightarrow> 'f request \<Rightarrow> 'f response \<Rightarrow> ('s, 'f) api_instrs" where
  "list_code B iter h req res =
     (case get_json_name_no_id h (rq_target req) of
        Inl e \<Rightarrow> Return (Inl e)
      | Inr json_name \<Rightarrow>
          Lock Shared
            (Perform (\<lambda>w. (w,
               case aw_storage w json_name of
                 None \<Rightarrow> Unlock (respond (handle_not_found B res))
               | Some json_map \<Rightarrow>
                   Unlock
                     (case drop_last_two (''['' @ id_items (iter json_map)) of
                        Inl e \<Rightarrow> Return (Inl e)
                      | Inr id_list \<Rightarrow>
                          respond (ok_length_type B HTTP_STATUS_OK ''application/json'' (id_list @ '']'') res))))))"

fun load_code ::
  "'s file_ops \<Rightarrow> string \<Rightarrow> (fault \<Rightarrow> ('s, 'f) api_instrs) \<Rightarrow> ('s, 'f) api_instrs \<Rightarrow> string list \<Rightarrow>
     ('s, 'f) api_instrs" where
  "load_code F root throw next_code [] = next_code"
| "load_code F root throw next_code (entry # entries) =
     Perform (\<lambda>w. case load_entry F root entry w of
                    (Inl e, w') \<Rightarrow> (w', throw e)
                  | (Inr _, w') \<Rightarrow> (w', load_code F root throw next_code entries))"

definition constructor_code :: "'s file_ops \<Rightarrow> string \<Rightarrow> NginxConfig option \<Rightarrow> ('s, 'f) api_instrs" where
  "constructor_code F path config =
     (case root_of config of
        Inl e \<Rightarrow> Return (Inl e)
      | Inr None \<Rightarrow> Return (Inr (Made \<lparr>ah_location = path, ah_root = [], ah_bad = True\<rparr>))
      | Inr (Some root) \<Rightarrow>
          Lock Unique
            (ensure_code F root (\<lambda>e. Unlock (Return (Inl e)))
              (Perform (\<lambda>w. (w,
                 case fo_recursive F (aw_files w) root of
                   Inl e \<Rightarrow> Unlock (Return (Inl e))
                 | Inr entries \<Rightarrow>
                     load_code F root (\<lambda>e. Unlock (Return (Inl e)))
                       (Unlock (Return (Inr (Made \<lparr>ah_location = path, ah_root = root, ah_bad = False\<rparr>))))
                       entries)))))"

fun api_code ::
  "'f beast \<Rightarrow> 's file_ops \<Rightarrow> (json_map \<Rightarrow> json_map) \<Rightarrow> 'f api_call \<Rightarrow> ('s, 'f) api_instrs" where
  "api_code B F iter (Call_constructor path config) = constructor_code F path config"
| "api_code B F iter (Call_create h req res) = create_code B F h req res"
| "api_code B F iter (Call_retrieve h req res) = retrieve_code B F h req res"
| "api_code B F iter (Call_update h req res) = update_code B F h req res"
| "api_code B F iter (Call_delete h req res) = delete_code B F h req res"
| "api_code B F iter (Call_list h req res) = list_code B iter h req res"

section \<open>The same instructions as the jobs\<close>

lemma code_ensure [code_simps]:
  "code_of_prog (bind_prog (ensure_prog F path) k) =
     ensure_code F path (\<lambda>e. code_of_prog (k (Inl e))) (code_of_prog (k (Inr ())))"
  by (auto simp: ensure_prog_def ensure_code_def ebind_prog_def on_files_def code_simps fun_eq_iff
      split: prod.split sum.split)

lemma code_load [code_simps]:
  "code_of_prog (bind_prog (load_prog F root entries) k) =
     load_code F root (\<lambda>e. code_of_prog (k (Inl e))) (code_of_prog (k (Inr ()))) entries"
  by (induction entries) (auto simp: ebind_prog_def code_simps fun_eq_iff split: prod.split sum.split)

lemma open_code_eq:
  "c = k False \<Longrightarrow> c' = k True \<Longrightarrow>
     open_code F path c c' =
       Perform (\<lambda>w. case case fo_open_trunc F (aw_files w) path of
                              None \<Rightarrow> (False, w) | Some s \<Rightarrow> (True, w\<lparr>aw_files := s\<rparr>) of
                       (r, w') \<Rightarrow> (w', k r))"
  by (auto simp: open_code_def fun_eq_iff split: option.split)

lemmas open_cong = arg_cong [of _ _ "ensure_code F p t" for F p t]

lemma code_reply [code_simps]: "map_prog (\<lambda>r. Unlock (Return r)) (reply x) = Done (Unlock (respond x))"
  by (simp add: reply_def respond_def)

lemmas code_defs = code_simps answered_def respond_def Let_def

lemma create_code_job: "create_code B F h req res = code_of_job (create_job B F h req res)"
  by (auto simp: create_code_def create_job_def create_section_def code_defs fun_eq_iff
      intro!: open_cong open_code_eq split: sum.split prod.split)

lemma retrieve_code_job: "retrieve_code B F h req res = code_of_job (retrieve_job B F h req res)"
  by (auto simp: retrieve_code_def retrieve_job_def code_defs fun_eq_iff split: sum.split option.split)

lemma update_code_job: "update_code B F h req res = code_of_job (update_job B F h req res)"
  by (auto simp: update_code_def update_job_def code_defs fun_eq_iff
      intro!: open_cong open_code_eq split: sum.split)

lemma delete_code_job: "delete_code B F h req res = code_of_job (delete_job B F h req res)"
  by (auto simp: delete_code_def delete_job_def code_defs fun_eq_iff split: sum.split option.split)

lemma list_code_job: "list_code B iter h req res = code_of_job (list_job B iter h req res)"
  by (auto simp: list_code_def list_job_def code_defs fun_eq_iff split: sum.split option.split)

lemma constructor_code_job: "constructor_code F path config = code_of_job (constructor_job F path config)"
  by (auto simp: constructor_code_def constructor_job_def code_defs fun_eq_iff
      intro!: open_cong split: sum.split option.split)

text \<open>Every call's instructions are those of its job, of which \<open>api_job_runs\<close> says what they do alone.\<close>

lemma api_code_job: "api_code B F iter call = code_of_job (api_job B F iter call)"
  by (cases call)
    (simp_all add: create_code_job retrieve_code_job update_code_job delete_code_job list_code_job constructor_code_job)

section \<open>The discipline\<close>

lemma closes_respond [simp]: "closes held (respond x) \<longleftrightarrow> held = None"
  by (auto simp: respond_def)

lemma closes_ensure:
  "(\<And>e. closes held (throw e)) \<Longrightarrow> closes held c \<Longrightarrow> closes held (ensure_code F path throw c)"
  by (auto simp: ensure_code_def split: prod.split sum.split)

lemma closes_open: "closes held c \<Longrightarrow> closes held c' \<Longrightarrow> closes held (open_code F path c c')"
  by (auto simp: open_code_def split: option.split)

lemma closes_load:
  "(\<And>e. closes held (throw e)) \<Longrightarrow> closes held c \<Longrightarrow> closes held (load_code F root throw c entries)"
  by (induction entries) (auto split: prod.split sum.split)

lemmas closes_parts = closes_ensure closes_open closes_load

lemma create_closes: "closes None (create_code B F h req res)"
  by (auto simp: create_code_def Let_def intro!: closes_parts split: sum.split prod.split)

lemma retrieve_closes: "closes None (retrieve_code B F h req res)"
  by (auto simp: retrieve_code_def split: sum.split option.split)

lemma update_closes: "closes None (update_code B F h req res)"
  by (auto simp: update_code_def Let_def intro!: closes_parts split: sum.split)

lemma delete_closes: "closes None (delete_code B F h req res)"
  by (auto simp: delete_code_def Let_def split: sum.split option.split)

lemma list_closes: "closes None (list_code B iter h req res)"
  by (auto simp: list_code_def split: sum.split option.split)

lemma constructor_closes: "closes None (constructor_code F path config)"
  by (auto simp: constructor_code_def intro!: closes_parts split: sum.split option.split)

lemma api_code_closes: "closes None (api_code B F iter call)"
  by (cases call)
    (simp_all add: create_closes retrieve_closes update_closes delete_closes list_closes constructor_closes)

interpretation api_crew: disciplined "map (api_code B F iter) calls"
  by unfold_locales (auto intro: api_code_closes)

text \<open>
  C8: any number of threads run operations of the handler, every locking and
  unlocking of the lock an instruction of its own.  In every state they can get to, if no thread can
  take a step, then each has returned and has released the lock; and from there no schedule is
  endless.
\<close>

theorem api_no_deadlock:
  assumes "lock_run (start_crew (map (api_code B F iter) calls) w) cw"
  shows "((\<nexists>i cw'. lock_step i cw cw') \<longrightarrow>
      (\<forall>i < length calls. \<exists>r. cw_runners cw ! i = (None, Return r))) \<and>
    \<not> (\<exists>cws ls. cws 0 = cw \<and> (\<forall>n. lock_step (ls n) (cws n) (cws (Suc n))))"
proof (intro conjI impI allI notI)
  fix i
  assume "\<nexists>i cw'. lock_step i cw cw'" and "i < length calls"
  then show "\<exists>r. cw_runners cw ! i = (None, Return r)"
    using api_crew.no_deadlock [OF assms, of i] by simp
next
  assume "\<exists>cws ls. cws 0 = cw \<and> (\<forall>n. lock_step (ls n) (cws n) (cws (Suc n)))"
  then show False using api_crew.no_endless_run assms by metis
qed

text \<open>Two creates at once: the first asks for the lock while the second holds it.\<close>

definition demo_crew :: "(flat_fs api_world, field_list api_reply result) crew" where
  "demo_crew = start_crew (map (api_code list_beast flat_ops id) demo_calls) demo_world"

lemma demo_blocked:
  "\<exists>c c' s. run_schedule [1, 0, 1, 0] demo_crew = \<lparr>cw_shared = s, cw_runners = [(None, Lock Unique c), (Some Unique, c')]\<rparr>"
  by (simp add: demo_crew_def start_crew_def demo_calls_def Let_def demo_defs create_code_def grants_def)

lemma api_no_deadlock_witness:
  "\<exists>cw c c' i cw'. lock_run demo_crew cw \<and> cw_runners cw = [(None, Lock Unique c), (Some Unique, c')] \<and>
     lock_step i cw cw'"
proof -
  obtain c c' s where *: "run_schedule [1, 0, 1, 0] demo_crew =
      \<lparr>cw_shared = s, cw_runners = [(None, Lock Unique c), (Some Unique, c')]\<rparr>" (is "_ = ?cw")
    using demo_blocked by blast
  have run: "lock_run demo_crew ?cw"
    using * lock_run_schedule [OF lock_run.start] by metis
  have "0 < length demo_calls" by (simp add: demo_calls_def Let_def)
  moreover have "cw_runners ?cw ! 0 \<noteq> (None, Return r)" for r by simp
  ultimately have "\<exists>i cw'. lock_step i ?cw cw'"
    using api_no_deadlock [OF run [unfolded demo_crew_def]] by blast
  with run show ?thesis by (metis crew.select_convs(2))
qed

end
