(* ===== verification/Meme_Store.thy ===== *)
theory Meme_Store
  imports Meme_Props "HOL-Library.Multiset"
begin

text \<open>
  The meme application as a store: what a form body creates, a view shows.

  What the handler relies on of SQLite is stated for the queries it sends: \<open>meme_sql D name rows\<close>
  says that the database \<open>name\<close> behaves as the table \<open>rows\<close> of memes with their ids.  The ids are
  unique and otherwise arbitrary: SQLite documents that an insertion which fails on the uniqueness
  constraint can leave a gap in the sequence of the ids.  A column is read as a 32-bit integer, so
  nothing is said of what is read for a larger id.
\<close>

section \<open>The table\<close>

text \<open>
  A meme whose fields mean the same in SQL as in the program: no \<open>NUL\<close>, none of the suspicious
  characters, and an image that is written as a number.  The queries quote the texts as SQL
  identifiers, so a text may not be the name of a column either: SQLite takes a quoted word for
  text only when it is no identifier.
\<close>

definition column_names :: "string set" where
  "column_names = {''id'', ''image'', ''top'', ''bottom'', ''rowid'', ''oid'', ''_rowid_'', ''meme_table''}"

definition lower :: "char \<Rightarrow> char" where
  "lower c = (if 65 \<le> (of_char c :: nat) \<and> (of_char c :: nat) \<le> 90 then char_of (of_char c + 32 :: nat) else c)"

definition plain_text :: "string \<Rightarrow> bool" where
  "plain_text s \<longleftrightarrow> set s \<inter> insert NUL sus = {} \<and> map lower s \<notin> column_names"

definition plain_meme :: "Meme \<Rightarrow> bool" where
  "plain_meme m \<longleftrightarrow> plain_text (me_top_text m) \<and> plain_text (me_bottom_text m) \<and>
     (\<exists>i. in_int i \<and> 0 \<le> i \<and> me_image m = to_string i)"

type_synonym meme_rows = "(int \<times> Meme) list"

text \<open>
  The first row of a query: the code of the step, the statement and the new state; a query that
  reads leaves the table as it is, and its statement can be finalized.
\<close>

definition first_result :: "('d, 'q) sqlite \<Rightarrow> string \<Rightarrow> string \<Rightarrow> 'd \<Rightarrow> int \<times> 'q \<times> 'd" where
  "first_result D name query d = sq_step D (snd (sq_prepare D name query d)) d"

definition reads ::
  "('d, 'q) sqlite \<Rightarrow> string \<Rightarrow> ('d \<Rightarrow> meme_rows) \<Rightarrow> string \<Rightarrow> 'd \<Rightarrow> (int \<Rightarrow> 'q \<Rightarrow> bool) \<Rightarrow> bool" where
  "reads D name rows query d P \<longleftrightarrow>
     (let (rc, q, d') = first_result D name query d
      in rows d' = rows d \<and> sq_finalize D q = SQLITE_OK \<and> P rc q)"

definition opens :: "('d, 'q) sqlite \<Rightarrow> string \<Rightarrow> ('d \<Rightarrow> meme_rows) \<Rightarrow> bool" where
  "opens D name rows \<longleftrightarrow> (\<forall>d. fst (sq_open D name d) = SQLITE_OK \<and> rows (snd (sq_open D name d)) = rows d)"

definition inserts :: "('d, 'q) sqlite \<Rightarrow> string \<Rightarrow> ('d \<Rightarrow> meme_rows) \<Rightarrow> bool" where
  "inserts D name rows \<longleftrightarrow>
     (\<forall>d m. plain_meme m \<longrightarrow>
        (let (rc, d') = sq_exec D name (insert_query m) d
         in if m \<in> snd ` set (rows d) then rc = SQLITE_CONSTRAINT \<and> rows d' = rows d
            else rc = SQLITE_OK \<and> (\<exists>i. i \<notin> fst ` set (rows d) \<and> rows d' = rows d @ [(i, m)])))"

definition finds :: "('d, 'q) sqlite \<Rightarrow> string \<Rightarrow> ('d \<Rightarrow> meme_rows) \<Rightarrow> bool" where
  "finds D name rows \<longleftrightarrow>
     (\<forall>d m. plain_meme m \<longrightarrow>
        reads D name rows (get_query m) d (\<lambda>rc q.
          if m \<in> snd ` set (rows d)
          then rc = SQLITE_ROW \<and> (\<exists>i. (i, m) \<in> set (rows d) \<and> (in_int i \<longrightarrow> sq_column_int D q 0 = i))
          else rc = SQLITE_DONE))"

definition counts :: "('d, 'q) sqlite \<Rightarrow> string \<Rightarrow> ('d \<Rightarrow> meme_rows) \<Rightarrow> bool" where
  "counts D name rows \<longleftrightarrow>
     (\<forall>d. reads D name rows count_query d (\<lambda>rc q.
        rc = SQLITE_ROW \<and> (in_int (int (length (rows d))) \<longrightarrow> sq_column_int D q 0 = int (length (rows d)))))"

definition retrieves :: "('d, 'q) sqlite \<Rightarrow> string \<Rightarrow> ('d \<Rightarrow> meme_rows) \<Rightarrow> bool" where
  "retrieves D name rows \<longleftrightarrow>
     (\<forall>d i m. in_int i \<longrightarrow> plain_meme m \<longrightarrow> map_of (rows d) i = Some m \<longrightarrow>
        reads D name rows (retrieve_query i) d (\<lambda>rc q.
          rc = SQLITE_ROW \<and> stoi (me_image m) = Inr (sq_column_int D q 0) \<and>
          sq_column_text D q 1 = Some (me_top_text m) \<and> sq_column_text D q 2 = Some (me_bottom_text m)))"

definition lists :: "('d, 'q) sqlite \<Rightarrow> string \<Rightarrow> ('d \<Rightarrow> meme_rows) \<Rightarrow> bool" where
  "lists D name rows \<longleftrightarrow>
     (\<forall>d. list_all (\<lambda>(i, m). in_int i) (rows d) \<longrightarrow>
        fst (sq_prepare D name list_query d) = SQLITE_OK \<and>
        (\<exists>ids q' d'. yields D (snd (sq_prepare D name list_query d)) d ids q' d' \<and>
           mset ids = mset (map fst (rows d)) \<and> rows d' = rows d \<and> sq_finalize D q' = SQLITE_OK))"

definition meme_sql :: "('d, 'q) sqlite \<Rightarrow> string \<Rightarrow> ('d \<Rightarrow> meme_rows) \<Rightarrow> bool" where
  "meme_sql D name rows \<longleftrightarrow>
     opens D name rows \<and> inserts D name rows \<and> finds D name rows \<and> counts D name rows \<and> retrieves D name rows \<and>
     lists D name rows"

section \<open>What the handler's steps do to it\<close>

lemma to_string_chars: "c \<in> set (to_string i) \<Longrightarrow> c = CHR ''-'' \<or> is_digit c"
  using nat_to_string_digits [of "nat i"] nat_to_string_digits [of "nat (- i)"]
  by (auto simp: to_string_def list_all_iff split: if_splits)

lemma to_string_fresh: "c \<noteq> CHR ''-'' \<Longrightarrow> \<not> is_digit c \<Longrightarrow> c \<notin> set (to_string i)"
  using to_string_chars by blast

lemma to_string_clean:
  "NUL \<notin> set (to_string i)" "DQ \<notin> set (to_string i)" "CHR '','' \<notin> set (to_string i)"
  by (auto simp: is_digit_def dest!: to_string_chars)

lemma plain_meme_clean:
  assumes "plain_meme m"
  shows "NUL \<notin> set (me_image m)" "NUL \<notin> set (me_top_text m)" "NUL \<notin> set (me_bottom_text m)"
    and "DQ \<notin> set (me_image m)" "DQ \<notin> set (me_top_text m)" "DQ \<notin> set (me_bottom_text m)"
  using assms to_string_clean by (auto simp: plain_meme_def plain_text_def sus_def)

lemma plain_meme_queries:
  assumes "plain_meme m"
  shows "c_str (insert_query m) = insert_query m" and "c_str (get_query m) = get_query m"
  using plain_meme_clean [OF assms]
  by (auto simp: insert_query_def get_query_def intro!: c_str_id)

lemma fixed_queries:
  "c_str count_query = count_query" "c_str (retrieve_query i) = retrieve_query i"
  using to_string_clean [of i] by (auto simp: count_query_def retrieve_query_def intro!: c_str_id)

lemma opened:
  assumes "meme_sql D (c_str database) rows"
  obtains d where "open_db D database w = (SQLITE_OK, w\<lparr>ms_db := d\<rparr>)" and "rows d = rows (ms_db w)"
proof
  let ?d = "snd (sq_open D (c_str database) (ms_db w))"
  show "open_db D database w = (SQLITE_OK, w\<lparr>ms_db := ?d\<rparr>)" and "rows ?d = rows (ms_db w)"
    using assms by (auto simp: meme_sql_def opens_def open_db_def split: prod.split) (metis fst_conv)
qed

lemma read_row:
  assumes "reads D (c_str database) rows (c_str query) (ms_db w) P"
  obtains rc q d where "first_row D database query w = (rc, q, w\<lparr>ms_db := d\<rparr>)"
    and "rows d = rows (ms_db w)" and "sq_finalize D q = SQLITE_OK" and "P rc q"
  using assms
  by (cases "sq_prepare D (c_str database) (c_str query) (ms_db w)")
    (auto simp: reads_def first_result_def first_row_def split: prod.splits)

lemma counted:
  assumes "meme_sql D (c_str (mh_database h)) rows" and "in_int (int (length (rows (ms_db w))))"
  obtains d where "get_meme_count D h res w = ((int (length (rows (ms_db w))), res), w\<lparr>ms_db := d\<rparr>)"
    and "rows d = rows (ms_db w)"
proof -
  obtain d1 where d1: "open_db D (mh_database h) w = (SQLITE_OK, w\<lparr>ms_db := d1\<rparr>)" "rows d1 = rows (ms_db w)"
    using opened [OF assms(1)] by blast
  have "reads D (c_str (mh_database h)) rows (c_str count_query) (ms_db (w\<lparr>ms_db := d1\<rparr>)) (\<lambda>rc q.
      rc = SQLITE_ROW \<and> sq_column_int D q 0 = int (length (rows d1)))"
    using assms d1(2) by (auto simp: meme_sql_def counts_def reads_def fixed_queries Let_def split: prod.splits)
  then obtain rc q d where "first_row D (mh_database h) count_query (w\<lparr>ms_db := d1\<rparr>) = (rc, q, w\<lparr>ms_db := d\<rparr>)"
      "rows d = rows d1" "sq_finalize D q = SQLITE_OK"
      "rc = SQLITE_ROW \<and> sq_column_int D q 0 = int (length (rows d1))"
    by (rule read_row) simp
  with d1 that show ?thesis by (simp add: get_meme_count_def sqlite_defs)
qed

text \<open>An HTML file with its marker.\<close>

definition marked_page :: "'s file_ops \<Rightarrow> 's \<Rightarrow> string \<Rightarrow> string \<Rightarrow> string \<Rightarrow> string \<Rightarrow> bool" where
  "marked_page F s p a marker b \<longleftrightarrow>
     fo_is_regular_file F s p = Inr True \<and> fo_read F s p = Some (a @ marker @ b) \<and>
     find_at marker (a @ marker @ b) = Some (length a) \<and> length (a @ marker @ b) < 2 ^ 64"

lemma edit_marked:
  assumes "marked_page F (ms_files w) p a marker b"
  obtains res' where "edit_page B F p marker text res w = (Inr (HTTP_STATUS_OK, res'), w)"
    and "rs_body res' = a @ marker @ text @ b"
proof
  let ?r = "ok_length_type B HTTP_STATUS_OK ''text/html'' (a @ marker @ text @ b) res"
  have "position_after (a @ marker @ b) marker = length (a @ marker)"
    using assms position_after_found by (simp add: marked_page_def)
  then show "edit_page B F p marker text res w = (Inr (HTTP_STATUS_OK, snd ?r), w)"
    using assms by (simp add: marked_page_def edit_page_def read_page_Inr pure_result_def insert_at_def prod_eq_iff)
  show "rs_body (snd ?r) = a @ marker @ text @ b" by simp
qed

text \<open>The insertion: afterwards the meme is in the table, once, and no row is lost.\<close>

lemma inserted:
  assumes "meme_sql D (c_str database) rows" and "plain_meme m" and "distinct (map fst (rows (ms_db w)))"
  obtains rc d where "exec_db D database (insert_query m) w = (rc, w\<lparr>ms_db := d\<rparr>)"
    and "rc = SQLITE_OK \<or> rc = SQLITE_CONSTRAINT" and "m \<in> snd ` set (rows d)"
    and "distinct (map fst (rows d))" and "set (rows (ms_db w)) \<subseteq> set (rows d)"
proof -
  have inserts: "inserts D (c_str database) rows" using assms(1) by (simp add: meme_sql_def)
  obtain rc d where rc: "sq_exec D (c_str database) (insert_query m) (ms_db w) = (rc, d)" by fastforce
  have "if m \<in> snd ` set (rows (ms_db w)) then rc = SQLITE_CONSTRAINT \<and> rows d = rows (ms_db w)
      else rc = SQLITE_OK \<and> (\<exists>i. i \<notin> fst ` set (rows (ms_db w)) \<and> rows d = rows (ms_db w) @ [(i, m)])"
    using inserts [unfolded inserts_def, THEN spec, of "ms_db w", THEN spec, of m] assms(2) rc by simp
  then have "rc = SQLITE_OK \<or> rc = SQLITE_CONSTRAINT" "m \<in> snd ` set (rows d)" "distinct (map fst (rows d))"
      "set (rows (ms_db w)) \<subseteq> set (rows d)"
    using assms(3) by (auto split: if_splits)
  moreover have "exec_db D database (insert_query m) w = (rc, w\<lparr>ms_db := d\<rparr>)"
    using rc plain_meme_queries(1) [OF assms(2)] by (simp add: exec_db_def)
  ultimately show ?thesis using that by blast
qed

lemma found:
  assumes "meme_sql D (c_str database) rows" and "plain_meme m" and "m \<in> snd ` set (rows (ms_db w))"
  obtains q d i where "first_row D database (get_query m) w = (SQLITE_ROW, q, w\<lparr>ms_db := d\<rparr>)"
    and "rows d = rows (ms_db w)" and "sq_finalize D q = SQLITE_OK"
    and "(i, m) \<in> set (rows d)" and "in_int i \<longrightarrow> sq_column_int D q 0 = i"
proof -
  have "reads D (c_str database) rows (c_str (get_query m)) (ms_db w) (\<lambda>rc q. rc = SQLITE_ROW \<and>
      (\<exists>i. (i, m) \<in> set (rows (ms_db w)) \<and> (in_int i \<longrightarrow> sq_column_int D q 0 = i)))"
    using assms plain_meme_queries(2) [OF assms(2)]
    by (auto simp: meme_sql_def finds_def reads_def Let_def split: prod.splits)
  then show ?thesis by (rule read_row) (use that in auto)
qed

lemma created:
  assumes "meme_sql D (c_str (mh_database h)) rows" and "distinct (map fst (rows (ms_db w)))"
    and "rq_body req \<noteq> []" and "parse_meme_request (rq_body req) = Inr m" and "plain_meme m"
    and "marked_page F (ms_files w) (mh_html_root h @ ''/create.html'') a create_target b"
  obtains i d res' shown where
    "meme_handle_create B F D h req res w = (Inr (HTTP_STATUS_OK, res'), w\<lparr>ms_db := d\<rparr>)"
    and "rs_body res' = a @ create_target @ created_line shown @ b" and "in_int i \<longrightarrow> shown = i"
    and "(i, m) \<in> set (rows d)" and "distinct (map fst (rows d))" and "set (rows (ms_db w)) \<subseteq> set (rows d)"
proof -
  obtain d1 where d1: "open_db D (mh_database h) w = (SQLITE_OK, w\<lparr>ms_db := d1\<rparr>)" "rows d1 = rows (ms_db w)"
    using opened [OF assms(1)] by blast
  obtain rc d2 where d2: "exec_db D (mh_database h) (insert_query m) (w\<lparr>ms_db := d1\<rparr>) = (rc, w\<lparr>ms_db := d2\<rparr>)"
      "rc = SQLITE_OK \<or> rc = SQLITE_CONSTRAINT" "m \<in> snd ` set (rows d2)" "distinct (map fst (rows d2))"
      "set (rows (ms_db w)) \<subseteq> set (rows d2)"
    using inserted [OF assms(1,5), of "w\<lparr>ms_db := d1\<rparr>"] assms(2) d1(2) by auto
  obtain d3 where d3: "open_db D (mh_database h) (w\<lparr>ms_db := d2\<rparr>) = (SQLITE_OK, w\<lparr>ms_db := d3\<rparr>)" "rows d3 = rows d2"
    using opened [OF assms(1), of "w\<lparr>ms_db := d2\<rparr>"] by auto
  obtain q d i where q: "first_row D (mh_database h) (get_query m) (w\<lparr>ms_db := d3\<rparr>) = (SQLITE_ROW, q, w\<lparr>ms_db := d\<rparr>)"
      "rows d = rows d3" "sq_finalize D q = SQLITE_OK" "(i, m) \<in> set (rows d)" "in_int i \<longrightarrow> sq_column_int D q 0 = i"
    using found [OF assms(1,5), of "w\<lparr>ms_db := d3\<rparr>"] d2(3) d3(2) by auto
  have "marked_page F (ms_files (w\<lparr>ms_db := d\<rparr>)) (mh_html_root h @ ''/create.html'') a create_target b"
    using assms(6) by simp
  then obtain res' where res': "edit_page B F (mh_html_root h @ ''/create.html'') create_target
      (created_line (sq_column_int D q 0)) res (w\<lparr>ms_db := d\<rparr>) = (Inr (HTTP_STATUS_OK, res'), w\<lparr>ms_db := d\<rparr>)"
      "rs_body res' = a @ create_target @ created_line (sq_column_int D q 0) @ b"
    by (rule edit_marked)
  have "meme_handle_create B F D h req res w = (Inr (HTTP_STATUS_OK, res'), w\<lparr>ms_db := d\<rparr>)"
    using assms(3,4) d1(1) d2(1,2) d3(1) q(1,3) res'(1) by (auto simp: meme_handle_create_def sqlite_defs)
  with that res'(2) q(2,4,5) d2(4,5) d3(2) show ?thesis by simp
qed

text \<open>A view of a meme whose id is not above the number of memes.\<close>

lemma viewed:
  assumes "meme_sql D (c_str (mh_database h)) rows" and "map_of (rows (ms_db w)) i = Some m"
    and "in_int i" and "plain_meme m" and "stoi (me_image m) = Inr n" and "smap_find (ms_images w) n = Some name"
    and "marked_page F (ms_files w) (mh_html_root h @ ''/view.html'') a body_target b"
  obtains d res' where "view_meme B F D h i res w = (Inr (HTTP_STATUS_OK, res'), w\<lparr>ms_db := d\<rparr>)"
    and "rows d = rows (ms_db w)"
    and "rs_body res' = a @ body_target @ view_text (MEME_IMAGE_URL @ name) (me_top_text m) (me_bottom_text m) @ b"
proof -
  obtain d1 where d1: "open_db D (mh_database h) w = (SQLITE_OK, w\<lparr>ms_db := d1\<rparr>)" "rows d1 = rows (ms_db w)"
    using opened [OF assms(1)] by blast
  have "reads D (c_str (mh_database h)) rows (c_str (retrieve_query i)) (ms_db (w\<lparr>ms_db := d1\<rparr>)) (\<lambda>rc q.
      rc = SQLITE_ROW \<and> stoi (me_image m) = Inr (sq_column_int D q 0) \<and>
      sq_column_text D q 1 = Some (me_top_text m) \<and> sq_column_text D q 2 = Some (me_bottom_text m))"
    using assms(1-4) d1(2) by (simp add: meme_sql_def retrieves_def fixed_queries)
  then obtain q d where q: "first_row D (mh_database h) (retrieve_query i) (w\<lparr>ms_db := d1\<rparr>) = (SQLITE_ROW, q, w\<lparr>ms_db := d\<rparr>)"
      "rows d = rows d1" "sq_finalize D q = SQLITE_OK" "sq_column_int D q 0 = n"
      "sq_column_text D q 1 = Some (me_top_text m)" "sq_column_text D q 2 = Some (me_bottom_text m)"
    by (rule read_row) (use assms(5) in auto)
  have "marked_page F (ms_files (w\<lparr>ms_db := d\<rparr>)) (mh_html_root h @ ''/view.html'') a body_target b"
    using assms(7) by simp
  then obtain res' where "edit_page B F (mh_html_root h @ ''/view.html'') body_target
      (view_text (MEME_IMAGE_URL @ name) (me_top_text m) (me_bottom_text m)) res (w\<lparr>ms_db := d\<rparr>) =
        (Inr (HTTP_STATUS_OK, res'), w\<lparr>ms_db := d\<rparr>)"
      "rs_body res' = a @ body_target @ view_text (MEME_IMAGE_URL @ name) (me_top_text m) (me_bottom_text m) @ b"
    by (rule edit_marked)
  with that d1 q assms(6) show ?thesis by (simp add: view_meme_def sqlite_defs smap_index_def)
qed

text \<open>The request for a view: the table decides by the id and the number of its rows.\<close>

lemma retrieve_counted:
  assumes "meme_sql D (c_str (mh_database h)) rows" and "rows (ms_db w) \<noteq> []"
    and "in_int (int (length (rows (ms_db w))))"
    and "rq_target req = ''/meme/view?id='' @ n" and "bs_cast_int B n = Some i"
  obtains d where "rows d = rows (ms_db w)"
    and "meme_handle_retrieve B F D h req res w =
      (if int (length (rows (ms_db w))) < i then (Inr (handle_bad_request res), w\<lparr>ms_db := d\<rparr>)
       else view_meme B F D h i res (w\<lparr>ms_db := d\<rparr>))"
proof -
  have id: "requested_id B req = Inr (Some i)" "find_str (rq_target req) ''?id='' 0 \<noteq> None"
    using assms(4,5) by (simp_all add: requested_id_def find_str_def substr_from_def)
  obtain d1 where d1: "get_meme_count D h res w = ((int (length (rows (ms_db w))), res), w\<lparr>ms_db := d1\<rparr>)"
      "rows d1 = rows (ms_db w)"
    using counted [OF assms(1,3)] by blast
  obtain d2 where "get_meme_count D h res (w\<lparr>ms_db := d1\<rparr>) = ((int (length (rows (ms_db w))), res), w\<lparr>ms_db := d2\<rparr>)"
      "rows d2 = rows (ms_db w)"
    using counted [OF assms(1), of "w\<lparr>ms_db := d1\<rparr>"] assms(3) d1(2) by auto
  with that d1 id assms(2) show ?thesis by (simp add: meme_handle_retrieve_def pure_result_def)
qed

section \<open>What is created can be viewed\<close>

lemma parse_plain:
  assumes "CHR ''&'' \<notin> set t" and "CHR ''&'' \<notin> set b" and "length (render_meme t b (to_string k)) < 2 ^ 31"
    and "plain_text (plus_to_space t)" and "plain_text (plus_to_space b)"
  shows "parse_meme_request (render_meme t b (to_string k)) =
    Inr \<lparr>me_top_text = plus_to_space t, me_bottom_text = plus_to_space b, me_image = to_string k\<rparr>"
proof -
  have "plus_to_space (to_string k) = to_string k"
    using to_string_fresh [of "CHR ''+''" k] by (auto simp: plus_to_space_def replace_char_def is_digit_def intro!: map_idI)
  moreover have "set (to_string k) \<inter> sus = {}"
    by (auto simp: sus_def is_digit_def dest!: to_string_chars)
  ultimately show ?thesis
    using parse_meme_render [OF assms(1-3)] assms(4,5)
    by (simp add: remove_sus_id plain_text_def)
qed

lemma render_meme_nonempty: "render_meme t b i \<noteq> []"
  by (simp add: render_meme_def prompt_defs)

text \<open>
  C27: a form body with plain texts and the number of an image of the handler's table
  is answered with the page that links to its meme, by its id if that is an \<open>int\<close>; the meme is in the
  table afterwards with that id, and no meme is lost; a view of the id, as long as the id and the
  number of memes are \<open>int\<close> values and the id is not above that number, shows the image and the two
  texts, with the spaces the form had written as plus signs.  The pages \<open>create.html\<close> and
  \<open>view.html\<close> have their markers.
\<close>

theorem create_then_view:
  assumes sql: "meme_sql D (c_str (mh_database h)) rows" and ids: "distinct (map fst (rows (ms_db w)))"
    and good: "\<not> mh_bad h" and create: "rq_target req = ''/meme/create''" "bs_method_string B req \<noteq> []"
    and body: "rq_body req = render_meme t b (to_string k)" "length (rq_body req) < 2 ^ 31"
    and texts: "CHR ''&'' \<notin> set t" "CHR ''&'' \<notin> set b" "plain_text (plus_to_space t)" "plain_text (plus_to_space b)"
    and image: "in_int k" "0 \<le> k" "smap_find (ms_images w) k = Some name"
    and pages: "marked_page F (ms_files w) (mh_html_root h @ ''/create.html'') ca create_target cb"
      "marked_page F (ms_files w) (mh_html_root h @ ''/view.html'') va body_target vb"
  shows "\<exists>i shown res1 w1. meme_handle_request B F D h w req res = (Inr (HTTP_STATUS_OK, res1), w1) \<and>
    rs_body res1 = ca @ create_target @ created_line shown @ cb \<and> (in_int i \<longrightarrow> shown = i) \<and>
    (i, \<lparr>me_top_text = plus_to_space t, me_bottom_text = plus_to_space b, me_image = to_string k\<rparr>)
      \<in> set (rows (ms_db w1)) \<and> set (rows (ms_db w)) \<subseteq> set (rows (ms_db w1)) \<and>
    (\<forall>req' res'. rq_target req' = ''/meme/view?id='' @ to_string i \<longrightarrow> bs_method_string B req' \<noteq> [] \<longrightarrow>
       bs_cast_int B (to_string i) = Some i \<longrightarrow> in_int i \<longrightarrow> in_int (int (length (rows (ms_db w1)))) \<longrightarrow>
       i \<le> int (length (rows (ms_db w1))) \<longrightarrow>
       (\<exists>res2 w2. meme_handle_request B F D h w1 req' res' = (Inr (HTTP_STATUS_OK, res2), w2) \<and>
          rows (ms_db w2) = rows (ms_db w1) \<and>
          rs_body res2 = va @ body_target @ view_text (MEME_IMAGE_URL @ name) (plus_to_space t) (plus_to_space b) @ vb))"
    (is "\<exists>i shown res1 w1. ?run res1 w1 \<and> ?body shown res1 \<and> ?shown i shown \<and> ?in i w1 \<and> ?kept w1 \<and> ?views i w1")
proof -
  let ?m = "\<lparr>me_top_text = plus_to_space t, me_bottom_text = plus_to_space b, me_image = to_string k\<rparr>"
  have plain: "plain_meme ?m" using texts image by (auto simp: plain_meme_def)
  have parsed: "rq_body req \<noteq> []" "parse_meme_request (rq_body req) = Inr ?m"
    using parse_plain [of t b k] texts body render_meme_nonempty by auto
  obtain i d res1 shown where run: "meme_handle_create B F D h req (res\<lparr>rs_version := rq_version req\<rparr>) w =
      (Inr (HTTP_STATUS_OK, res1), w\<lparr>ms_db := d\<rparr>)" "?body shown res1" "?shown i shown" "(i, ?m) \<in> set (rows d)"
      "distinct (map fst (rows d))" "set (rows (ms_db w)) \<subseteq> set (rows d)"
    using created [OF sql ids parsed plain pages(1)] by metis
  have row: "map_of (rows d) i = Some ?m" "rows d \<noteq> []" using run(4,5) by (auto simp: map_of_eq_Some_iff)
  have "\<exists>res2 w2. meme_handle_request B F D h (w\<lparr>ms_db := d\<rparr>) req' res' = (Inr (HTTP_STATUS_OK, res2), w2) \<and>
      rows (ms_db w2) = rows d \<and>
      rs_body res2 = va @ body_target @ view_text (MEME_IMAGE_URL @ name) (plus_to_space t) (plus_to_space b) @ vb"
    if view: "rq_target req' = ''/meme/view?id='' @ to_string i" "bs_method_string B req' \<noteq> []"
      and id: "bs_cast_int B (to_string i) = Some i" "in_int i" "in_int (int (length (rows d)))" "i \<le> int (length (rows d))"
    for req' res'
  proof -
    let ?res = "res'\<lparr>rs_version := rq_version req'\<rparr>"
    obtain d1 where d1: "rows d1 = rows d"
      "meme_handle_retrieve B F D h req' ?res (w\<lparr>ms_db := d\<rparr>) = view_meme B F D h i ?res (w\<lparr>ms_db := d1\<rparr>)"
      using retrieve_counted [OF sql, of "w\<lparr>ms_db := d\<rparr>" req' "to_string i" B i] row(2) view(1) id by auto
    obtain d2 res2 where "view_meme B F D h i ?res (w\<lparr>ms_db := d1\<rparr>) = (Inr (HTTP_STATUS_OK, res2), w\<lparr>ms_db := d2\<rparr>)"
      "rows d2 = rows d1"
      "rs_body res2 = va @ body_target @ view_text (MEME_IMAGE_URL @ name) (plus_to_space t) (plus_to_space b) @ vb"
      using viewed [OF sql, of "w\<lparr>ms_db := d1\<rparr>" i ?m k name F va vb B ?res] plain row(1) d1(1) id(2) image pages(2)
      by (simp add: stoi_to_string) blast
    then show ?thesis
      using d1 good view by (simp add: meme_handle_request_def Let_def numeral_eq_Suc)
  qed
  then have "?views i (w\<lparr>ms_db := d\<rparr>)" by simp
  moreover have "?run res1 (w\<lparr>ms_db := d\<rparr>)"
    using run(1) good create by (simp add: meme_handle_request_def)
  ultimately show ?thesis
    using run(2-4,6) by (intro exI [of _ i] exI [of _ shown] exI [of _ res1] exI [of _ "w\<lparr>ms_db := d\<rparr>"]) simp
qed

text \<open>
  C40: the id is compared with the number of memes, not with the ids that exist: a
  meme whose id is above the number of memes, as it is after a gap in the ids, is in the table, and
  its view is refused as a bad request.
\<close>

theorem view_refuses_gap:
  assumes sql: "meme_sql D (c_str (mh_database h)) rows" and row: "(i, m) \<in> set (rows (ms_db w))"
    and gap: "int (length (rows (ms_db w))) < i" "in_int i"
    and good: "\<not> mh_bad h" and view: "rq_target req = ''/meme/view?id='' @ n" "bs_method_string B req \<noteq> []"
    and cast: "bs_cast_int B n = Some i"
  shows "\<exists>res' w'. meme_handle_request B F D h w req res = (Inr (HTTP_STATUS_BAD_REQUEST, res'), w') \<and>
    (i, m) \<in> set (rows (ms_db w'))"
proof -
  let ?res = "res\<lparr>rs_version := rq_version req\<rparr>"
  have "rows (ms_db w) \<noteq> []" "in_int (int (length (rows (ms_db w))))"
    using row gap by (auto simp: in_int_def INT_MIN_def)
  then obtain d where "rows d = rows (ms_db w)"
    "meme_handle_retrieve B F D h req ?res w = (Inr (handle_bad_request ?res), w\<lparr>ms_db := d\<rparr>)"
    using retrieve_counted [OF sql, of w req n B i F ?res] view(1) cast gap(1) by auto
  then show ?thesis
    using good view row
    by (simp add: meme_handle_request_def Let_def numeral_eq_Suc handle_bad_request_def prod_eq_iff)
qed

section \<open>What is created is listed\<close>

text \<open>
  C29: as long as the ids fit an \<open>int\<close>, the list page is its file with one link per
  meme of the table right after the marker, each meme once and no other, and the table stays as it is.
\<close>

theorem list_shows_memes:
  assumes "meme_sql D (c_str (mh_database h)) rows" and "list_all (\<lambda>(i, m). in_int i) (rows (ms_db w))"
    and "\<not> mh_bad h" and "rq_target req = ''/meme/list''" and "bs_method_string B req \<noteq> []"
    and "marked_page F (ms_files w) (mh_html_root h @ ''/list.html'') a body_target b"
  shows "\<exists>ids res' w'. meme_handle_request B F D h w req res = (Inr (HTTP_STATUS_OK, res'), w') \<and>
    rs_body res' = a @ body_target @ list_html ids @ b \<and> mset ids = mset (map fst (rows (ms_db w))) \<and>
    rows (ms_db w') = rows (ms_db w)"
proof -
  have query: "c_str list_query = list_query" by (rule c_str_id) (simp add: list_query_def)
  obtain d where d: "open_db D (mh_database h) w = (SQLITE_OK, w\<lparr>ms_db := d\<rparr>)" "rows d = rows (ms_db w)"
    using opened [OF assms(1)] by blast
  have "lists D (c_str (mh_database h)) rows" using assms(1) by (simp add: meme_sql_def)
  then have "fst (sq_prepare D (c_str (mh_database h)) list_query d) = SQLITE_OK \<and>
      (\<exists>ids q' d'. yields D (snd (sq_prepare D (c_str (mh_database h)) list_query d)) d ids q' d' \<and>
         mset ids = mset (map fst (rows d)) \<and> rows d' = rows d \<and> sq_finalize D q' = SQLITE_OK)"
    unfolding lists_def using assms(2) d(2) by metis
  then obtain q ids q' d' where q: "sq_prepare D (c_str (mh_database h)) list_query d = (SQLITE_OK, q)"
    "yields D q d ids q' d'" "mset ids = mset (map fst (rows d))" "rows d' = rows d" "sq_finalize D q' = SQLITE_OK"
    by (metis prod.collapse)
  have "marked_page F (ms_files (w\<lparr>ms_db := d'\<rparr>)) (mh_html_root h @ ''/list.html'') a body_target b"
    using assms(6) by simp
  then obtain res' where "edit_page B F (mh_html_root h @ ''/list.html'') body_target (list_html ids)
      (res\<lparr>rs_version := rq_version req\<rparr>) (w\<lparr>ms_db := d'\<rparr>) = (Inr (HTTP_STATUS_OK, res'), w\<lparr>ms_db := d'\<rparr>)"
      "rs_body res' = a @ body_target @ list_html ids @ b"
    by (rule edit_marked)
  moreover have "collect_ids D q d [] = Some (ids, q', d')" using collect_ids_yields [OF q(2), of "[]"] by simp
  ultimately show ?thesis
    using assms(3-5) d q(1,3-5) query by (auto simp: meme_handle_request_def meme_handle_list_def Let_def)
qed

section \<open>A database that is its list of rows\<close>

text \<open>
  It reads the queries the handler sends by splitting them at the quotes, and numbers new rows
  from the largest id it has.
\<close>

fun quoted :: "string \<Rightarrow> string list" where
  "quoted [] = [[]]"
| "quoted (c # s) =
     (if c = DQ then [] # quoted s else case quoted s of [] \<Rightarrow> [[c]] | x # xs \<Rightarrow> (c # x) # xs)"

lemma quoted_append: "DQ \<notin> set a \<Longrightarrow> quoted (a @ DQ # s) = a # quoted s"
  by (induction a) auto

lemma quoted_last: "DQ \<notin> set a \<Longrightarrow> quoted a = [a]"
  by (induction a) auto

definition row_columns :: "meme_rows \<Rightarrow> int \<Rightarrow> (int \<times> string \<times> string) option" where
  "row_columns d i =
     (case map_of d i of
        None \<Rightarrow> None
      | Some m \<Rightarrow> (case stoi (me_image m) of Inl _ \<Rightarrow> None | Inr k \<Rightarrow> Some (k, me_top_text m, me_bottom_text m)))"

fun table_query :: "meme_rows \<Rightarrow> string list \<Rightarrow> (int \<times> string \<times> string) list" where
  "table_query d [q] =
     (if q = count_query then [(int (length d), [], [])]
      else if q = list_query then map (\<lambda>(i, _). (i, [], [])) d else [])"
| "table_query d [_, n, _] =
     (case stoi n of Inl _ \<Rightarrow> [] | Inr i \<Rightarrow> (case row_columns d i of None \<Rightarrow> [] | Some r \<Rightarrow> [r]))"
| "table_query d [_, img, _, t, _, b, _] =
     map (\<lambda>(i, _). (i, [], []))
       (filter (\<lambda>(i, m). m = \<lparr>me_top_text = t, me_bottom_text = b, me_image = img\<rparr>) d)"
| "table_query d _ = []"

text \<open>A statement is its current row and those still to come.\<close>

type_synonym table_statement = "(int \<times> string \<times> string) option \<times> (int \<times> string \<times> string) list"

fun table_step :: "table_statement \<Rightarrow> meme_rows \<Rightarrow> int \<times> table_statement \<times> meme_rows" where
  "table_step (_, []) d = (SQLITE_DONE, (None, []), d)"
| "table_step (_, r # rs) d = (SQLITE_ROW, (Some r, rs), d)"

definition insert_image :: "string \<Rightarrow> string" where
  "insert_image s = takeWhile (\<lambda>c. c \<noteq> CHR '','') (drop 52 s)"

fun table_insert :: "meme_rows \<Rightarrow> string list \<Rightarrow> int \<times> meme_rows" where
  "table_insert d [s, t, _, b, _] =
     (let m = \<lparr>me_top_text = t, me_bottom_text = b, me_image = insert_image s\<rparr>
      in if m \<in> snd ` set d then (SQLITE_CONSTRAINT, d)
         else (SQLITE_OK, d @ [(fold max (map fst d) 0 + 1, m)]))"
| "table_insert d [q] = (if q = meme_table_query then SQLITE_OK else 1, d)"
| "table_insert d _ = (1, d)"

definition table_sqlite :: "(meme_rows, table_statement) sqlite" where
  "table_sqlite = \<lparr>sq_open = \<lambda>n d. (SQLITE_OK, d), sq_exec = \<lambda>n q d. table_insert d (quoted q),
     sq_prepare = \<lambda>n q d. (SQLITE_OK, (None, table_query d (quoted q))),
     sq_step = table_step,
     sq_column_int = \<lambda>q k. (case fst q of None \<Rightarrow> 0 | Some (n, _) \<Rightarrow> n),
     sq_column_text = \<lambda>q k. map_option (\<lambda>(_, a, b). if k = 1 then a else b) (fst q),
     sq_finalize = \<lambda>q. SQLITE_OK\<rparr>"

lemma quoted_queries:
  assumes "plain_meme m"
  shows "quoted (get_query m) = [''SELECT id FROM meme_table WHERE image = '', me_image m, '' AND top = '',
      me_top_text m, '' AND bottom = '', me_bottom_text m, []]"
    and "quoted (insert_query m) = [''INSERT INTO meme_table (image, top, bottom) VALUES ('' @ me_image m @ '', '',
      me_top_text m, '', '', me_bottom_text m, '')'']"
  using plain_meme_clean [OF assms]
    quoted_append [of "''INSERT INTO meme_table (image, top, bottom) VALUES ('' @ me_image m @ '', ''"]
  by (simp_all add: get_query_def insert_query_def quoted_append quoted_last)

lemma quoted_fixed:
  "quoted count_query = [count_query]" "quoted list_query = [list_query]"
  "quoted (retrieve_query i) = [''SELECT image, top, bottom FROM meme_table WHERE id = '', to_string i, []]"
  using to_string_clean(2) [of i]
  by (simp_all add: count_query_def list_query_def retrieve_query_def quoted_append)

lemma insert_image_plain:
  assumes "plain_meme m"
  shows "insert_image (''INSERT INTO meme_table (image, top, bottom) VALUES ('' @ me_image m @ '', '') = me_image m"
proof -
  have "CHR '','' \<notin> set (me_image m)" using assms to_string_clean(3) by (auto simp: plain_meme_def)
  then have "takeWhile (\<lambda>c. c \<noteq> CHR '','') (me_image m @ '', '') = me_image m"
    by (subst takeWhile_append2) auto
  then show ?thesis by (simp add: insert_image_def)
qed

lemma fold_max_ge: "a \<le> fold max xs (a :: int)"
proof (induction xs arbitrary: a)
  case (Cons x xs)
  show ?case using Cons [of "max x a"] by simp
qed simp

lemma fold_max_less: "i \<in> set xs \<Longrightarrow> i \<le> fold max xs (a :: int)"
proof (induction xs arbitrary: a)
  case (Cons x xs)
  then show ?case using fold_max_ge [of "max x a" xs] by auto
qed simp

lemma meme_eta:
  "\<lparr>me_top_text = me_top_text m, me_bottom_text = me_bottom_text m, me_image = me_image m\<rparr> = m"
  by simp

lemma table_insert_query:
  assumes "plain_meme m"
  shows "table_insert d (quoted (insert_query m)) =
    (if m \<in> snd ` set d then (SQLITE_CONSTRAINT, d) else (SQLITE_OK, d @ [(fold max (map fst d) 0 + 1, m)]))"
  by (simp only: quoted_queries(2) [OF assms] table_insert.simps insert_image_plain [OF assms] meme_eta Let_def)

lemma table_get_query:
  assumes "plain_meme m"
  shows "table_query d (quoted (get_query m)) = map (\<lambda>(i, _). (i, [], [])) (filter (\<lambda>(i, m'). m' = m) d)"
  by (simp only: quoted_queries(1) [OF assms] table_query.simps meme_eta)

lemma fresh_id: "fold max (map fst d) 0 + 1 \<notin> fst ` set (d :: meme_rows)"
  using fold_max_less [of "fold max (map fst d) 0 + 1" "map fst d" 0] by auto

lemma filter_row:
  "case filter (\<lambda>(i, m'). m' = m) d of
     [] \<Rightarrow> m \<notin> snd ` set d
   | (i, m') # _ \<Rightarrow> m' = m \<and> (i, m) \<in> set d \<and> m \<in> snd ` set d"
  by (induction d) (auto split: list.splits)

lemma table_yields: "yields table_sqlite (c, rs) d (map fst rs) (None, []) d"
proof (induction rs arbitrary: c)
  case Nil
  show ?case
    using yields.stop [of table_sqlite "(c, [])" d SQLITE_DONE "(None, [])" d] by (simp add: table_sqlite_def sqlite_defs)
next
  case (Cons r rs)
  have "sq_step table_sqlite (c, r # rs) d = (SQLITE_ROW, (Some r, rs), d)" by (simp add: table_sqlite_def)
  from yields.row [OF this Cons.IH] show ?case by (cases r) (simp add: table_sqlite_def)
qed

lemma table_meme_sql: "meme_sql table_sqlite name (\<lambda>d. d)"
  unfolding meme_sql_def
proof (intro conjI)
  show "opens table_sqlite name (\<lambda>d. d)" by (simp add: opens_def table_sqlite_def)
  show "inserts table_sqlite name (\<lambda>d. d)"
    using fresh_id by (simp add: inserts_def table_sqlite_def table_insert_query)
  show "finds table_sqlite name (\<lambda>d. d)"
    unfolding finds_def
  proof (intro allI impI)
    fix d :: meme_rows and m
    assume plain: "plain_meme m"
    show "reads table_sqlite name (\<lambda>d. d) (get_query m) d (\<lambda>rc q.
        if m \<in> snd ` set d
        then rc = SQLITE_ROW \<and> (\<exists>i. (i, m) \<in> set d \<and> (in_int i \<longrightarrow> sq_column_int table_sqlite q 0 = i))
        else rc = SQLITE_DONE)"
      using filter_row [of m d]
      by (cases "filter (\<lambda>(i, m'). m' = m) d")
        (auto simp: reads_def first_result_def table_sqlite_def table_get_query [OF plain] split: prod.splits)
  qed
  show "counts table_sqlite name (\<lambda>d. d)"
    by (simp add: counts_def reads_def first_result_def table_sqlite_def quoted_fixed)
  show "retrieves table_sqlite name (\<lambda>d. d)"
    by (auto simp: retrieves_def reads_def first_result_def table_sqlite_def quoted_fixed row_columns_def
        stoi_to_string plain_meme_def)
  show "lists table_sqlite name (\<lambda>d. d)"
    unfolding lists_def
  proof (intro allI impI conjI)
    fix d :: meme_rows
    have prepared: "sq_prepare table_sqlite name list_query d = (SQLITE_OK, (None, map (\<lambda>(i, _). (i, [], [])) d))"
      by (simp add: table_sqlite_def quoted_fixed list_query_def count_query_def)
    then show "fst (sq_prepare table_sqlite name list_query d) = SQLITE_OK" by simp
    have names: "map fst (map (\<lambda>(i, _). (i, [] :: string, [] :: string)) d) = map fst d" by auto
    have "yields table_sqlite (snd (sq_prepare table_sqlite name list_query d)) d (map fst d) (None, []) d"
      using table_yields [of None "map (\<lambda>(i, _). (i, [], [])) d" d] by (simp only: prepared snd_conv names)
    moreover have "sq_finalize table_sqlite (None, []) = SQLITE_OK" by (simp add: table_sqlite_def)
    ultimately show "\<exists>ids q' d'. yields table_sqlite (snd (sq_prepare table_sqlite name list_query d)) d ids q' d' \<and>
        mset ids = mset (map fst d) \<and> d' = d \<and> sq_finalize table_sqlite q' = SQLITE_OK"
      by blast
  qed
qed

text \<open>A world with the two pages and two images, and a request that creates a meme.\<close>

definition store_world :: "meme_rows \<Rightarrow> (flat_fs, meme_rows) meme_state" where
  "store_world d = \<lparr>ms_images = [(0, ''a.png''), (1, ''b.png'')],
     ms_files = (\<lambda>p. None)(''/h/create.html'' := Some (Some create_target), ''/h/view.html'' := Some (Some body_target),
       ''/h/list.html'' := Some (Some body_target)),
     ms_db = d\<rparr>"

definition create_request :: "field_list request" where
  "create_request = (bs_request list_beast)\<lparr>rq_target := ''/meme/create'', rq_body := render_meme ''hi+there'' ''you'' ''1''\<rparr>"

definition view_request :: "string \<Rightarrow> field_list request" where
  "view_request n = (bs_request list_beast)\<lparr>rq_target := ''/meme/view?id='' @ n\<rparr>"

lemma store_pages:
  "marked_page flat_ops (ms_files (store_world d)) (mh_html_root demo_meme @ ''/create.html'') [] create_target []"
  "marked_page flat_ops (ms_files (store_world d)) (mh_html_root demo_meme @ ''/view.html'') [] body_target []"
  by (simp_all add: marked_page_def store_world_def demo_meme_def flat_simps create_target_def body_target_def)

lemma create_then_view_witness:
  "\<exists>i res1 w1. meme_handle_request list_beast flat_ops table_sqlite demo_meme (store_world []) create_request
      (bs_response list_beast) = (Inr (HTTP_STATUS_OK, res1), w1) \<and>
    (i, \<lparr>me_top_text = ''hi there'', me_bottom_text = ''you'', me_image = ''1''\<rparr>) \<in> set (ms_db w1)"
proof -
  have texts: "plus_to_space ''hi+there'' = ''hi there''" "plus_to_space ''you'' = ''you''" "to_string 1 = ''1''"
    by code_simp+
  have plain: "plain_text ''hi there''" "plain_text ''you''" by code_simp+
  have "length (render_meme ''hi+there'' ''you'' ''1'') < 2 ^ 31"
    by (simp add: render_meme_def prompt_defs)
  moreover have "bs_method_string list_beast create_request \<noteq> []" by code_simp
  ultimately show ?thesis
    using create_then_view [OF table_meme_sql, of "store_world []" demo_meme create_request list_beast
        "''hi+there''" "''you''" 1 "''b.png''" flat_ops "[]" "[]" "[]" "[]" "bs_response list_beast"]
      store_pages [of "[]"] plain
    by (simp add: texts demo_meme_def create_request_def in_int_def INT_MIN_def INT_MAX_def)
      (auto simp: store_world_def)
qed

lemma view_refuses_gap_witness:
  "\<exists>res' w'. meme_handle_request list_beast flat_ops table_sqlite demo_meme
      (store_world [(2, \<lparr>me_top_text = ''a'', me_bottom_text = ''b'', me_image = ''1''\<rparr>)])
      (view_request ''2'') (bs_response list_beast) = (Inr (HTTP_STATUS_BAD_REQUEST, res'), w')"
proof -
  let ?m = "\<lparr>me_top_text = ''a'', me_bottom_text = ''b'', me_image = ''1''\<rparr>"
  have "bs_method_string list_beast (view_request ''2'') \<noteq> []" by code_simp
  moreover have "bs_cast_int list_beast ''2'' = Some 2" by (simp add: list_beast_def stoi_eval)
  ultimately show ?thesis
    using view_refuses_gap [OF table_meme_sql, of 2 ?m "store_world [(2, ?m)]" demo_meme "view_request ''2''"
        "''2''" list_beast flat_ops "bs_response list_beast"]
    by (auto simp: store_world_def demo_meme_def view_request_def in_int_def INT_MIN_def INT_MAX_def)
qed

lemma list_shows_memes_witness:
  "\<exists>ids res' w'. meme_handle_request list_beast flat_ops table_sqlite demo_meme
      (store_world [(4, \<lparr>me_top_text = ''a'', me_bottom_text = ''b'', me_image = ''1''\<rparr>),
        (7, \<lparr>me_top_text = ''c'', me_bottom_text = ''d'', me_image = ''0''\<rparr>)])
      ((bs_request list_beast)\<lparr>rq_target := ''/meme/list''\<rparr>) (bs_response list_beast) =
        (Inr (HTTP_STATUS_OK, res'), w') \<and>
    rs_body res' = body_target @ list_html ids \<and> mset ids = {#4, 7#}"
proof -
  let ?rows = "[(4, \<lparr>me_top_text = ''a'', me_bottom_text = ''b'', me_image = ''1''\<rparr>),
    (7, \<lparr>me_top_text = ''c'', me_bottom_text = ''d'', me_image = ''0''\<rparr>)]"
  let ?req = "(bs_request list_beast)\<lparr>rq_target := ''/meme/list''\<rparr>"
  have "marked_page flat_ops (ms_files (store_world ?rows)) (mh_html_root demo_meme @ ''/list.html'') [] body_target []"
    by (simp add: marked_page_def store_world_def demo_meme_def flat_simps body_target_def)
  moreover have "bs_method_string list_beast ?req \<noteq> []" by code_simp
  moreover have "list_all (\<lambda>(i, m). in_int i) ?rows" by (simp add: in_int_def INT_MIN_def INT_MAX_def)
  ultimately show ?thesis
    using list_shows_memes [OF table_meme_sql, of "store_world ?rows" demo_meme ?req list_beast flat_ops "[]" "[]"
        "bs_response list_beast"]
    by (auto simp: demo_meme_def store_world_def)
qed

end
