(* ===== verification/Meme_Locks.thy ===== *)
theory Meme_Locks
  imports Shared_Lock Meme_Store
begin

text \<open>
  The meme handler on several threads: \<open>meme_lock\<close> (\<open>src/meme_request_handler.cc\<close>) guards the
  database.

  A create has two critical sections, one for the insertion and one for the id of what was inserted;
  a view has up to three, as the number of memes is asked for first.  Between two sections of one
  request those of others can run.  The pages are made after the last section from HTML files that
  no handler writes, so the files are a parameter here, and so is each handler's table of images.
\<close>

section \<open>The operations as jobs\<close>

datatype 'f meme_reply = Initialised | Page "int \<times> 'f response"

datatype 'f meme_call =
    Call_init
  | Call_create "'f request" "'f response"
  | Call_view "(int, string) std_map" "'f request" "'f response"
  | Call_list "'f request" "'f response"

type_synonym ('d, 'f) meme_prog = "('d, 'f meme_reply result) prog"
type_synonym ('d, 'f) meme_job = "('d, 'f meme_reply result) job"

definition paged :: "int \<times> 'f response \<Rightarrow> ('d, 'f) meme_prog" where
  "paged x = Done (Inr (Page x))"

definition answer_page :: "int \<times> 'f response \<Rightarrow> ('d, 'f) meme_job" where
  "answer_page x = Answered (Inr (Page x))"

definition db_open :: "('d, 'q) sqlite \<Rightarrow> string \<Rightarrow> ('d, int) prog" where
  "db_open D database = atomically (sq_open D (c_str database))"

definition db_exec :: "('d, 'q) sqlite \<Rightarrow> string \<Rightarrow> string \<Rightarrow> ('d, int) prog" where
  "db_exec D database query = atomically (sq_exec D (c_str database) (c_str query))"

definition db_row :: "('d, 'q) sqlite \<Rightarrow> string \<Rightarrow> string \<Rightarrow> ('d, int \<times> 'q) prog" where
  "db_row D database query =
     bind_prog (observe (\<lambda>d. snd (sq_prepare D (c_str database) (c_str query) d))) (\<lambda>statement.
       atomically (\<lambda>d. let (rc, statement', d') = sq_step D statement d in ((rc, statement'), d')))"

definition page_reply ::
  "'f beast \<Rightarrow> 's file_ops \<Rightarrow> 's \<Rightarrow> string \<Rightarrow> string \<Rightarrow> string \<Rightarrow> 'f response \<Rightarrow> 'f meme_reply result" where
  "page_reply B F files path target text res =
     rbind (fst (edit_page B F path target text res \<lparr>ms_images = [], ms_files = files, ms_db = ()\<rparr>)) (\<lambda>x. Inr (Page x))"

definition get_section ::
  "'f beast \<Rightarrow> 's file_ops \<Rightarrow> ('d, 'q) sqlite \<Rightarrow> meme_handler \<Rightarrow> 's \<Rightarrow> Meme \<Rightarrow> 'f response \<Rightarrow> ('d, 'f) meme_prog" where
  "get_section B F D h files meme res =
     bind_prog (db_open D (mh_database h)) (\<lambda>rc.
     if rc \<noteq> SQLITE_OK then paged (handle_internal_server_error res)
     else
       bind_prog (db_row D (mh_database h) (get_query meme)) (\<lambda>(rc, statement).
       if rc \<noteq> SQLITE_ROW \<and> rc \<noteq> SQLITE_DONE then paged (handle_internal_server_error res)
       else
         let meme_id = sq_column_int D statement 0 in
         if sq_finalize D statement \<noteq> SQLITE_OK then paged (handle_internal_server_error res)
         else Done (page_reply B F files (mh_html_root h @ ''/create.html'') create_target (created_line meme_id) res)))"

definition meme_create_job ::
  "'f beast \<Rightarrow> 's file_ops \<Rightarrow> ('d, 'q) sqlite \<Rightarrow> meme_handler \<Rightarrow> 's \<Rightarrow> 'f request \<Rightarrow> 'f response \<Rightarrow> ('d, 'f) meme_job" where
  "meme_create_job B F D h files req res =
     (if rq_body req = [] then answer_page (handle_bad_request res)
      else
        case parse_meme_request (rq_body req) of
          Inl e \<Rightarrow> answer_page (handle_bad_request res)
        | Inr meme \<Rightarrow>
            Locked Unique
              (bind_prog (db_open D (mh_database h)) (\<lambda>rc.
               if rc \<noteq> SQLITE_OK then Done (answer_page (handle_internal_server_error res))
               else
                 bind_prog (db_exec D (mh_database h) (insert_query meme)) (\<lambda>rc.
                 if rc \<noteq> SQLITE_OK \<and> rc \<noteq> SQLITE_CONSTRAINT
                 then Done (answer_page (handle_internal_server_error res))
                 else Done (last_section Unique (get_section B F D h files meme res))))))"

definition count_section ::
  "('d, 'q) sqlite \<Rightarrow> meme_handler \<Rightarrow> 'f response \<Rightarrow> ('d, int \<times> 'f response) prog" where
  "count_section D h res =
     bind_prog (db_open D (mh_database h)) (\<lambda>rc.
     if rc \<noteq> SQLITE_OK then Done (handle_internal_server_error res)
     else
       bind_prog (db_row D (mh_database h) count_query) (\<lambda>(rc, statement).
       if rc = SQLITE_DONE then Done (handle_bad_request res)
       else if rc \<noteq> SQLITE_ROW then Done (handle_internal_server_error res)
       else
         let meme_count = sq_column_int D statement 0 in
         if sq_finalize D statement \<noteq> SQLITE_OK then Done (handle_internal_server_error res)
         else Done (meme_count, res)))"

definition view_section ::
  "'f beast \<Rightarrow> 's file_ops \<Rightarrow> ('d, 'q) sqlite \<Rightarrow> meme_handler \<Rightarrow> 's \<Rightarrow> (int, string) std_map \<Rightarrow> int \<Rightarrow>
     'f response \<Rightarrow> ('d, 'f) meme_prog" where
  "view_section B F D h files images meme_id res =
     bind_prog (db_open D (mh_database h)) (\<lambda>rc.
     if rc \<noteq> SQLITE_OK then paged (handle_internal_server_error res)
     else
       bind_prog (db_row D (mh_database h) (retrieve_query meme_id)) (\<lambda>(rc, statement).
       if rc = SQLITE_DONE then paged (handle_bad_request res)
       else if rc \<noteq> SQLITE_ROW then paged (handle_internal_server_error res)
       else
         let image = sq_column_int D statement 0 in
         case sq_column_text D statement 1 of None \<Rightarrow> Done (Inl Logic_error) | Some top_text \<Rightarrow>
         case sq_column_text D statement 2 of None \<Rightarrow> Done (Inl Logic_error) | Some bottom_text \<Rightarrow>
         if sq_finalize D statement \<noteq> SQLITE_OK then paged (handle_internal_server_error res)
         else
           let (name, images') = smap_index [] image images
           in Done (page_reply B F files (mh_html_root h @ ''/view.html'') body_target
                (view_text (MEME_IMAGE_URL @ name) top_text bottom_text) res)))"

definition meme_view_job ::
  "'f beast \<Rightarrow> 's file_ops \<Rightarrow> ('d, 'q) sqlite \<Rightarrow> meme_handler \<Rightarrow> 's \<Rightarrow> (int, string) std_map \<Rightarrow>
     'f request \<Rightarrow> 'f response \<Rightarrow> ('d, 'f) meme_job" where
  "meme_view_job B F D h files images req res =
     (if rq_body req = [] \<and> find_str (rq_target req) ''?id='' 0 = None then answer_page (handle_bad_request res)
      else
        case requested_id B req of
          Inl e \<Rightarrow> Answered (Inl e)
        | Inr None \<Rightarrow> answer_page (handle_bad_request res)
        | Inr (Some meme_id) \<Rightarrow>
            Locked Shared (bind_prog (count_section D h res) (\<lambda>(count, res).
              Done (if count = 0 then answer_page (handle_bad_request res)
                else Locked Shared (bind_prog (count_section D h res) (\<lambda>(count, res).
                  Done (if meme_id > count then answer_page (handle_bad_request res)
                    else last_section Shared (view_section B F D h files images meme_id res))))))))"

definition list_section ::
  "'f beast \<Rightarrow> 's file_ops \<Rightarrow> ('d, 'q) sqlite \<Rightarrow> meme_handler \<Rightarrow> 's \<Rightarrow> 'f response \<Rightarrow> ('d, 'f) meme_prog" where
  "list_section B F D h files res =
     bind_prog (db_open D (mh_database h)) (\<lambda>rc.
     if rc \<noteq> SQLITE_OK then paged (handle_internal_server_error res)
     else
       bind_prog (observe (sq_prepare D (c_str (mh_database h)) (c_str list_query))) (\<lambda>(rc, statement).
       if rc \<noteq> SQLITE_OK then paged (handle_internal_server_error res)
       else
         bind_prog (atomically (\<lambda>d. case collect_ids D statement d [] of
                                      None \<Rightarrow> (None, d)
                                    | Some (meme_ids, statement', d') \<Rightarrow> (Some (meme_ids, statement'), d'))) (\<lambda>rows.
         case rows of
           None \<Rightarrow> Done (Inl No_return)
         | Some (meme_ids, statement') \<Rightarrow>
             if sq_finalize D statement' \<noteq> SQLITE_OK then paged (handle_internal_server_error res)
             else Done (page_reply B F files (mh_html_root h @ ''/list.html'') body_target (list_html meme_ids) res))))"

definition init_section :: "('d, 'q) sqlite \<Rightarrow> string \<Rightarrow> ('d, 'f) meme_prog" where
  "init_section D database_name =
     bind_prog (db_open D database_name) (\<lambda>rc.
     if rc \<noteq> SQLITE_OK then Done (Inl Process_exit)
     else
       bind_prog (db_exec D database_name meme_table_query) (\<lambda>rc.
       if rc \<noteq> SQLITE_OK then Done (Inl Process_exit) else Done (Inr Initialised)))"

fun meme_job ::
  "'f beast \<Rightarrow> 's file_ops \<Rightarrow> ('d, 'q) sqlite \<Rightarrow> meme_handler \<Rightarrow> 's \<Rightarrow> 'f meme_call \<Rightarrow> ('d, 'f) meme_job" where
  "meme_job B F D h files Call_init = last_section Unique (init_section D (mh_database h))"
| "meme_job B F D h files (Call_create req res) = meme_create_job B F D h files req res"
| "meme_job B F D h files (Call_view images req res) = meme_view_job B F D h files images req res"
| "meme_job B F D h files (Call_list req res) = last_section Shared (list_section B F D h files res)"

section \<open>Run alone, they are the operations\<close>

definition as_page ::
  "(int \<times> 'f response) result \<times> ('s, 'd) meme_state \<Rightarrow> 'f meme_reply result \<times> 'd" where
  "as_page x = (rbind (fst x) (\<lambda>p. Inr (Page p)), ms_db (snd x))"

fun meme_operation ::
  "'f beast \<Rightarrow> 's file_ops \<Rightarrow> ('d, 'q) sqlite \<Rightarrow> meme_handler \<Rightarrow> 's \<Rightarrow> 'f meme_call \<Rightarrow> 'd \<Rightarrow> 'f meme_reply result \<times> 'd" where
  "meme_operation B F D h files Call_init d =
     (let (r, d') = init_meme_database D (mh_database h) d in (rbind r (\<lambda>_. Inr Initialised), d'))"
| "meme_operation B F D h files (Call_create req res) d =
     as_page (meme_handle_create B F D h req res \<lparr>ms_images = [], ms_files = files, ms_db = d\<rparr>)"
| "meme_operation B F D h files (Call_view images req res) d =
     as_page (meme_handle_retrieve B F D h req res \<lparr>ms_images = images, ms_files = files, ms_db = d\<rparr>)"
| "meme_operation B F D h files (Call_list req res) d =
     as_page (meme_handle_list B F D h req res \<lparr>ms_images = [], ms_files = files, ms_db = d\<rparr>)"

lemma edit_page_state: "edit_page B F p t i res w = (fst (edit_page B F p t i res w), w)"
  by (auto simp: edit_page_def pure_result_def split: ebind_split option.split)

lemma edit_page_files:
  "fst (edit_page B F p t i res w) =
     fst (edit_page B F p t i res \<lparr>ms_images = [], ms_files = ms_files w, ms_db = ()\<rparr>)"
  by (auto simp: edit_page_def pure_result_def split: ebind_split option.split)

lemma as_page_edit: "as_page (edit_page B F p t i res w) = (page_reply B F (ms_files w) p t i res, ms_db w)"
  by (subst edit_page_state) (simp add: as_page_def page_reply_def edit_page_files [of B F p t i res w])

lemma as_page_simps [simp]: "as_page (Inr x, w) = (Inr (Page x), ms_db w)" "as_page (Inl e, w) = (Inl e, ms_db w)"
  by (simp_all add: as_page_def)

lemma run_db [run_simps]:
  "run (db_open D database) d = sq_open D (c_str database) d"
  "run (db_exec D database query) d = sq_exec D (c_str database) (c_str query) d"
  by (simp_all add: db_open_def db_exec_def run_simps)

lemma run_row [run_simps]:
  "run (db_row D database query) d =
     (let (rc, statement, d') = sq_step D (snd (sq_prepare D (c_str database) (c_str query) d)) d in ((rc, statement), d'))"
  by (simp add: db_row_def run_simps)

lemma run_paged [run_simps]: "run (paged x) d = (Inr (Page x), d)" "run_job (answer_page x) d = (Inr (Page x), d)"
  by (simp_all add: paged_def answer_page_def)

lemmas meme_run_simps = run_simps open_db_def exec_db_def first_row_def Let_def case_prod_beta as_page_edit

lemma run_create_job:
  "run_job (meme_create_job B F D h files req res) d = meme_operation B F D h files (Call_create req res) d"
  by (simp add: meme_create_job_def meme_handle_create_def get_section_def meme_run_simps split: sum.split)

lemma run_count: "run (count_section D h res) (ms_db w) =
    (fst (get_meme_count D h res w), ms_db (snd (get_meme_count D h res w)))"
  "snd (get_meme_count D h res w) = w\<lparr>ms_db := ms_db (snd (get_meme_count D h res w))\<rparr>"
  by (simp_all add: count_section_def get_meme_count_def meme_run_simps)

lemma run_view_section:
  "run (view_section B F D h files images i res) d =
     as_page (view_meme B F D h i res \<lparr>ms_images = images, ms_files = files, ms_db = d\<rparr>)"
  by (simp add: view_section_def view_meme_def meme_run_simps split: option.split)

lemma run_list_section:
  "run (list_section B F D h files res) d = meme_operation B F D h files (Call_list req res) d"
  by (simp add: list_section_def meme_handle_list_def meme_run_simps split: option.split)

lemma run_init: "run (init_section D (mh_database h)) d = meme_operation B F D h files Call_init d"
  by (simp add: init_section_def init_meme_database_def meme_run_simps)

lemma count_cases:
  obtains count res' d' where
    "get_meme_count D h res \<lparr>ms_images = images, ms_files = files, ms_db = d\<rparr> =
      ((count, res'), \<lparr>ms_images = images, ms_files = files, ms_db = d'\<rparr>)"
    and "run (count_section D h res) d = ((count, res'), d')"
  using run_count(1) [of D h res "\<lparr>ms_images = images, ms_files = files, ms_db = d\<rparr>"]
    run_count(2) [of D h res "\<lparr>ms_images = images, ms_files = files, ms_db = d\<rparr>"]
  by (cases "get_meme_count D h res \<lparr>ms_images = images, ms_files = files, ms_db = d\<rparr>";
      cases "fst (get_meme_count D h res \<lparr>ms_images = images, ms_files = files, ms_db = d\<rparr>)") simp

lemma run_view_job:
  "run_job (meme_view_job B F D h files images req res) d = meme_operation B F D h files (Call_view images req res) d"
proof (cases "requested_id B req")
  case (Inl e)
  then show ?thesis
    by (simp add: meme_view_job_def meme_handle_retrieve_def pure_result_def run_simps)
next
  case (Inr id)
  obtain c1 res1 d1 where 1:
    "get_meme_count D h res \<lparr>ms_images = images, ms_files = files, ms_db = d\<rparr> =
      ((c1, res1), \<lparr>ms_images = images, ms_files = files, ms_db = d1\<rparr>)"
    "run (count_section D h res) d = ((c1, res1), d1)"
    by (rule count_cases)
  obtain c2 res2 d2 where 2:
    "get_meme_count D h res1 \<lparr>ms_images = images, ms_files = files, ms_db = d1\<rparr> =
      ((c2, res2), \<lparr>ms_images = images, ms_files = files, ms_db = d2\<rparr>)"
    "run (count_section D h res1) d1 = ((c2, res2), d2)"
    by (rule count_cases)
  show ?thesis
    using Inr 1 2
    by (cases id) (simp_all add: meme_view_job_def meme_handle_retrieve_def pure_result_def run_simps run_view_section)
qed

lemma meme_job_runs: "run_job (meme_job B F D h files call) d = meme_operation B F D h files call d"
  by (cases call) (simp_all add: run_create_job run_view_job run_list_section run_init run_last_section del: meme_operation.simps)

section \<open>On many threads\<close>

text \<open>
  What SQLite documents of statements that read: to open the database and to step a \<open>SELECT\<close> leave
  the data as they are.
\<close>

definition select_queries :: "string set" where
  "select_queries = {c_str count_query, c_str list_query} \<union> range (\<lambda>i. c_str (retrieve_query i))"

inductive select_statement :: "('d, 'q) sqlite \<Rightarrow> 'q \<Rightarrow> bool" for D where
  prepared: "query \<in> select_queries \<Longrightarrow> select_statement D (snd (sq_prepare D name query d))"
| stepped: "select_statement D q \<Longrightarrow> select_statement D (fst (snd (sq_step D q d)))"

definition selects_read :: "('d, 'q) sqlite \<Rightarrow> bool" where
  "selects_read D \<longleftrightarrow> (\<forall>name d. snd (sq_open D name d) = d) \<and>
     (\<forall>q d. select_statement D q \<longrightarrow> snd (snd (sq_step D q d)) = d)"

lemma read_only_open: "selects_read D \<Longrightarrow> read_only (db_open D database)"
  unfolding db_open_def by (rule read_only_atomically) (simp add: selects_read_def)

lemma read_only_row:
  assumes "selects_read D" and "c_str query \<in> select_queries"
  shows "read_only (db_row D database query)"
  unfolding db_row_def
proof (rule read_only_bind [OF read_only_observe])
  fix q
  assume "q \<in> set_prog (observe (\<lambda>d. snd (sq_prepare D (c_str database) (c_str query) d)))"
  then have "select_statement D q" using assms(2) by (auto intro: select_statement.prepared)
  then show "read_only (atomically (\<lambda>d. let (rc, statement', d') = sq_step D q d in ((rc, statement'), d')))"
    using assms(1) by (intro read_only_atomically) (auto simp: selects_read_def case_prod_beta)
qed

lemma read_only_paged [simp]: "read_only (paged x)"
  by (simp add: paged_def)

lemma select_queries_mem [simp]:
  "c_str count_query \<in> select_queries" "c_str (retrieve_query i) \<in> select_queries"
  by (simp_all add: select_queries_def)

lemma collect_ids_reads:
  assumes "selects_read D" and "select_statement D q" and "collect_ids D q d ids = Some (ids', q', d')"
  shows "d' = d"
proof -
  have "selects_read D \<longrightarrow> select_statement D q \<longrightarrow> snd (snd (ids', q', d')) = d"
  proof (rule collect_ids.raw_induct [where
        P = "\<lambda>D q d ids x. selects_read D \<longrightarrow> select_statement D q \<longrightarrow> snd (snd x) = d", OF _ assms(3)])
    fix f and D :: "('d, 'q) sqlite" and q d ids and x :: "int list \<times> 'q \<times> 'd"
    assume IH: "\<And>D q d ids x. f D q d ids = Some x \<Longrightarrow> selects_read D \<longrightarrow> select_statement D q \<longrightarrow> snd (snd x) = d"
      and x: "(let (rc, statement', db') = sq_step D q d
        in if rc = SQLITE_ROW then f D statement' db' (ids @ [sq_column_int D statement' 0]) else Some (ids, statement', db')) =
        Some x"
    obtain rc q1 d1 where step: "sq_step D q d = (rc, q1, d1)" by (metis prod_cases3)
    show "selects_read D \<longrightarrow> select_statement D q \<longrightarrow> snd (snd x) = d"
    proof (intro impI)
      assume "selects_read D" "select_statement D q"
      then have "d1 = d" "select_statement D q1" "selects_read D"
        using step select_statement.stepped [of D q d] by (auto simp: selects_read_def) (metis snd_conv)
      then show "snd (snd x) = d" using x IH step by (auto split: if_splits)
    qed
  qed
  with assms(1,2) show ?thesis by simp
qed

lemma read_only_count: "selects_read D \<Longrightarrow> read_only (count_section D h res)"
  unfolding count_section_def
  by (auto intro!: read_only_bind read_only_open read_only_row simp: Let_def split: prod.split)

lemma read_only_view: "selects_read D \<Longrightarrow> read_only (view_section B F D h files images i res)"
  unfolding view_section_def
  by (auto intro!: read_only_bind read_only_open read_only_row simp: Let_def split: prod.split option.split)

lemma read_only_list:
  assumes "selects_read D"
  shows "read_only (list_section B F D h files res)"
proof -
  have collect: "read_only (atomically (\<lambda>d. case collect_ids D st d [] of
      None \<Rightarrow> (None, d) | Some (ids, st', d') \<Rightarrow> (Some (ids, st'), d')))" if "select_statement D st" for st
    using collect_ids_reads [OF assms that] by (intro read_only_atomically) (auto split: option.split)
  have select: "select_statement D st" if "(rc, st) = sq_prepare D (c_str (mh_database h)) (c_str list_query) d" for rc st d
    using select_statement.prepared [of "c_str list_query" D "c_str (mh_database h)" d] that [symmetric]
    by (simp add: select_queries_def)
  then show ?thesis
    unfolding list_section_def
    by (intro read_only_bind read_only_open assms)
      (auto intro!: read_only_bind read_only_observe collect intro: select split: prod.split option.split)
qed

lemma meme_job_reads:
  assumes "selects_read D"
  shows "shared_reads (meme_job B F D h files call)"
proof (cases call)
  case (Call_create req res)
  then show ?thesis
    by (auto simp: meme_create_job_def answer_page_def shared_reads_Locked shared_reads_last split: sum.split)
next
  case (Call_view images req res)
  then show ?thesis
    using assms
    by (auto simp: meme_view_job_def answer_page_def shared_reads_Locked shared_reads_last
        intro!: read_only_bind read_only_count read_only_view split: sum.split option.split if_splits)
qed (simp_all add: shared_reads_last read_only_list assms)

lemma meme_locked: "selects_read D \<Longrightarrow> locked_jobs (map (meme_job B F D h files) calls)"
  by unfold_locales (auto intro: meme_job_reads)

section \<open>What a create gets between the operations of others\<close>

text \<open>\<open>CREATE TABLE IF NOT EXISTS\<close> leaves the rows of the table as they are.\<close>

definition creates_table :: "('d, 'q) sqlite \<Rightarrow> string \<Rightarrow> ('d \<Rightarrow> meme_rows) \<Rightarrow> bool" where
  "creates_table D name rows \<longleftrightarrow> (\<forall>d. rows (snd (sq_exec D name meme_table_query d)) = rows d)"

text \<open>The sections of a job that leave the rows as they are.\<close>

inductive keeps_rows :: "('d \<Rightarrow> meme_rows) \<Rightarrow> ('d, 'r) job \<Rightarrow> bool" for rows where
  answered: "keeps_rows rows (Answered r)"
| locked: "(\<And>d. rows (snd (run p d)) = rows d) \<Longrightarrow> (\<And>j. j \<in> set_prog p \<Longrightarrow> keeps_rows rows j) \<Longrightarrow>
    keeps_rows rows (Locked m p)"

inductive_simps keeps_rows_Answered [simp]: "keeps_rows rows (Answered r)"
inductive_simps keeps_rows_Locked: "keeps_rows rows (Locked m p)"

lemma keeps_rows_reads:
  "read_only p \<Longrightarrow> (\<And>j. j \<in> set_prog p \<Longrightarrow> keeps_rows rows j) \<Longrightarrow> keeps_rows rows (Locked m p)"
  by (simp add: keeps_rows_Locked read_only_run)

lemma keeps_rows_last: "keeps_rows rows (last_section m p) \<longleftrightarrow> (\<forall>d. rows (snd (run p d)) = rows d)"
  by (auto simp: last_section_def keeps_rows_Locked prog.set_map run_simps case_prod_beta)

lemma meme_table_query_clean: "c_str meme_table_query = meme_table_query"
  by (rule c_str_id) (simp add: meme_table_query_def)

lemma others_keep_rows:
  assumes "selects_read D" and "opens D (c_str (mh_database h)) rows" and "creates_table D (c_str (mh_database h)) rows"
    and "\<And>req res. call \<noteq> Call_create req res"
  shows "keeps_rows rows (meme_job B F D h files call)"
proof (cases call)
  case Call_init
  then show ?thesis
    using assms(2,3)
    by (simp add: keeps_rows_last init_section_def run_simps case_prod_beta opens_def creates_table_def
        meme_table_query_clean)
next
  case (Call_view images req res)
  then show ?thesis
    using assms(1)
    by (auto simp: meme_view_job_def answer_page_def keeps_rows_last read_only_run [OF read_only_view]
        intro!: keeps_rows_reads read_only_bind read_only_count read_only_view split: sum.split option.split if_splits)
next
  case (Call_list req res)
  then show ?thesis using assms(1) by (simp add: keeps_rows_last read_only_run read_only_list)
qed (use assms(4) in simp)

text \<open>The two sections of a create, in the terms of the table.\<close>

lemma insert_section_run:
  assumes "meme_sql D (c_str (mh_database h)) rows" and "plain_meme m" and "distinct (map fst (rows d))"
    and "rq_body req \<noteq> []" and "parse_meme_request (rq_body req) = Inr m"
  obtains p d' where "meme_create_job B F D h files req res = Locked Unique p"
    and "run p d = (last_section Unique (get_section B F D h files m res), d')"
    and "m \<in> snd ` set (rows d')" and "distinct (map fst (rows d'))" and "set (rows d) \<subseteq> set (rows d')"
proof -
  let ?w = "\<lambda>d. \<lparr>ms_images = [], ms_files = (), ms_db = d\<rparr>"
  obtain d1 where d1: "open_db D (mh_database h) (?w d) = (SQLITE_OK, ?w d1)" "rows d1 = rows d"
    using opened [OF assms(1), of "?w d"] by auto
  obtain rc d2 where d2: "exec_db D (mh_database h) (insert_query m) (?w d1) = (rc, ?w d2)"
      "rc = SQLITE_OK \<or> rc = SQLITE_CONSTRAINT" "m \<in> snd ` set (rows d2)" "distinct (map fst (rows d2))"
      "set (rows d) \<subseteq> set (rows d2)"
    using inserted [OF assms(1,2), of "?w d1"] assms(3) d1(2) by auto
  show ?thesis
  proof (rule that)
    show "m \<in> snd ` set (rows d2)" "distinct (map fst (rows d2))" "set (rows d) \<subseteq> set (rows d2)" using d2 by simp_all
  qed (use assms(4,5) d1(1) d2(1,2) in
      \<open>auto simp: meme_create_job_def run_simps open_db_def exec_db_def case_prod_beta prod_eq_iff\<close>)
qed

lemma get_section_run:
  assumes "meme_sql D (c_str (mh_database h)) rows" and "plain_meme m" and "m \<in> snd ` set (rows d)"
  obtains d' i shown where
    "run (get_section B F D h files m res) d =
      (page_reply B F files (mh_html_root h @ ''/create.html'') create_target (created_line shown) res, d')"
    and "rows d' = rows d" and "(i, m) \<in> set (rows d)" and "in_int i \<longrightarrow> shown = i"
proof -
  let ?w = "\<lambda>d. \<lparr>ms_images = [], ms_files = (), ms_db = d\<rparr>"
  obtain d1 where d1: "open_db D (mh_database h) (?w d) = (SQLITE_OK, ?w d1)" "rows d1 = rows d"
    using opened [OF assms(1), of "?w d"] by auto
  obtain q d2 i where q: "first_row D (mh_database h) (get_query m) (?w d1) = (SQLITE_ROW, q, ?w d2)"
      "rows d2 = rows d1" "sq_finalize D q = SQLITE_OK" "(i, m) \<in> set (rows d2)" "in_int i \<longrightarrow> sq_column_int D q 0 = i"
    using found [OF assms(1,2), of "?w d1"] assms(3) d1(2) by auto
  have "run (get_section B F D h files m res) d =
      (page_reply B F files (mh_html_root h @ ''/create.html'') create_target (created_line (sq_column_int D q 0)) res, d2)"
    using d1(1) q(1,3)
    by (auto simp: get_section_def run_simps open_db_def first_row_def case_prod_beta prod_eq_iff Let_def)
  with that q(2,4,5) d1(2) show ?thesis by simp
qed

text \<open>How far a create has come, and what is in the table by then.\<close>

definition create_stage ::
  "'f beast \<Rightarrow> 's file_ops \<Rightarrow> ('d, 'q) sqlite \<Rightarrow> meme_handler \<Rightarrow> 's \<Rightarrow> 'f request \<Rightarrow> 'f response \<Rightarrow> Meme \<Rightarrow>
     meme_rows \<Rightarrow> ('d, 'f) meme_job \<Rightarrow> bool" where
  "create_stage B F D h files req res m rws j \<longleftrightarrow>
     j = meme_create_job B F D h files req res \<or>
     j = last_section Unique (get_section B F D h files m res) \<and> m \<in> snd ` set rws \<or>
     (\<exists>i shown. j = Answered (page_reply B F files (mh_html_root h @ ''/create.html'') create_target (created_line shown) res) \<and>
        (i, m) \<in> set rws \<and> (in_int i \<longrightarrow> shown = i))"

lemma create_stage_mono:
  "create_stage B F D h files req res m rws j \<Longrightarrow> set rws \<subseteq> set rws' \<Longrightarrow> create_stage B F D h files req res m rws' j"
  by (auto simp: create_stage_def)

lemma create_stage_next:
  assumes "meme_sql D (c_str (mh_database h)) rows" and "plain_meme m" and "distinct (map fst (rows d))"
    and "rq_body req \<noteq> []" and "parse_meme_request (rq_body req) = Inr m"
    and "create_stage B F D h files req res m (rows d) (Locked n p)" and "run p d = (j, d')"
  shows "create_stage B F D h files req res m (rows d') j \<and> distinct (map fst (rows d')) \<and> set (rows d) \<subseteq> set (rows d')"
  using assms(6) [unfolded create_stage_def]
proof (elim disjE)
  assume "Locked n p = meme_create_job B F D h files req res"
  moreover obtain p' d1 where "meme_create_job B F D h files req res = Locked Unique p'"
    "run p' d = (last_section Unique (get_section B F D h files m res), d1)"
    "m \<in> snd ` set (rows d1)" "distinct (map fst (rows d1))" "set (rows d) \<subseteq> set (rows d1)"
    using assms(1-5) by (rule insert_section_run)
  ultimately show ?thesis using assms(7) by (simp add: create_stage_def)
next
  assume *: "Locked n p = last_section Unique (get_section B F D h files m res) \<and> m \<in> snd ` set (rows d)"
  obtain d1 i shown where "run (get_section B F D h files m res) d =
      (page_reply B F files (mh_html_root h @ ''/create.html'') create_target (created_line shown) res, d1)"
    "rows d1 = rows d" "(i, m) \<in> set (rows d)" "in_int i \<longrightarrow> shown = i"
    using get_section_run [OF assms(1,2) conjunct2 [OF *]] .
  with * assms(3,7) show ?thesis by (auto simp: create_stage_def last_section_def run_simps)
qed simp_all

text \<open>Creates whose bodies are read, and mean the same in SQL.\<close>

definition plain_call :: "'f meme_call \<Rightarrow> bool" where
  "plain_call call \<longleftrightarrow>
     (case call of
        Call_create req res \<Rightarrow> rq_body req \<noteq> [] \<and> (\<exists>m. parse_meme_request (rq_body req) = Inr m \<and> plain_meme m)
      | _ \<Rightarrow> True)"

definition created_meme :: "'f request \<Rightarrow> Meme" where
  "created_meme req = (case parse_meme_request (rq_body req) of Inl e \<Rightarrow> undefined | Inr m \<Rightarrow> m)"

definition call_stage ::
  "'f beast \<Rightarrow> 's file_ops \<Rightarrow> ('d, 'q) sqlite \<Rightarrow> ('d \<Rightarrow> meme_rows) \<Rightarrow> meme_handler \<Rightarrow> 's \<Rightarrow> 'f meme_call \<Rightarrow>
     meme_rows \<Rightarrow> ('d, 'f) meme_job \<Rightarrow> bool" where
  "call_stage B F D rows h files call rws j \<longleftrightarrow>
     (case call of
        Call_create req res \<Rightarrow> create_stage B F D h files req res (created_meme req) rws j
      | _ \<Rightarrow> keeps_rows rows j)"

definition stages ::
  "'f beast \<Rightarrow> 's file_ops \<Rightarrow> ('d, 'q) sqlite \<Rightarrow> ('d \<Rightarrow> meme_rows) \<Rightarrow> meme_handler \<Rightarrow> 's \<Rightarrow> 'f meme_call list \<Rightarrow>
     'd \<Rightarrow> ('d, 'f) meme_job list \<times> 'd \<Rightarrow> bool" where
  "stages B F D rows h files calls d0 c \<longleftrightarrow>
     length (fst c) = length calls \<and> distinct (map fst (rows (snd c))) \<and> set (rows d0) \<subseteq> set (rows (snd c)) \<and>
     (\<forall>i < length calls. call_stage B F D rows h files (calls ! i) (rows (snd c)) (fst c ! i))"

lemma call_stage_mono:
  "call_stage B F D rows h files call rws j \<Longrightarrow> set rws \<subseteq> set rws' \<Longrightarrow> call_stage B F D rows h files call rws' j"
  by (auto simp: call_stage_def create_stage_mono split: meme_call.splits)

lemma call_stage_next:
  assumes "meme_sql D (c_str (mh_database h)) rows" and "plain_call call" and "distinct (map fst (rows d))"
    and "call_stage B F D rows h files call (rows d) (Locked n p)" and "run p d = (j, d')"
  shows "call_stage B F D rows h files call (rows d') j \<and> distinct (map fst (rows d')) \<and> set (rows d) \<subseteq> set (rows d')"
proof (cases "\<exists>req res. call = Call_create req res")
  case True
  then obtain req res m where call: "call = Call_create req res"
    and m: "rq_body req \<noteq> []" "parse_meme_request (rq_body req) = Inr m" "plain_meme m"
    using assms(2) by (auto simp: plain_call_def)
  then show ?thesis
    using create_stage_next [OF assms(1) m(3) assms(3) m(1,2) _ assms(5)] assms(4)
    by (simp add: call_stage_def created_meme_def)
next
  case False
  then have keeps: "call_stage B F D rows h files call rws = keeps_rows rows" for rws
    by (auto simp: call_stage_def fun_eq_iff split: meme_call.split)
  then have "rows d' = rows d" "keeps_rows rows j"
    using assms(4,5) run_in_set_prog [of p d] by (auto simp: keeps_rows_Locked) (metis snd_conv)
  with assms(3) keeps show ?thesis by simp
qed

lemma stages_next:
  assumes "meme_sql D (c_str (mh_database h)) rows" and "list_all plain_call calls"
    and "stages B F D rows h files calls d0 c" and "i < length calls" and "fst c ! i = Locked n p"
  shows "stages B F D rows h files calls d0 (next_section i c)"
proof -
  obtain j d' where run: "run p (snd c) = (j, d')" by fastforce
  have c: "length (fst c) = length calls" "distinct (map fst (rows (snd c)))" "set (rows d0) \<subseteq> set (rows (snd c))"
    "\<And>k. k < length calls \<Longrightarrow> call_stage B F D rows h files (calls ! k) (rows (snd c)) (fst c ! k)"
    using assms(3) by (simp_all add: stages_def)
  have plain: "plain_call (calls ! i)" using assms(2,4) by (simp add: list_all_length)
  have "call_stage B F D rows h files (calls ! i) (rows (snd c)) (Locked n p)"
    using c(4) [OF assms(4)] assms(5) by simp
  from call_stage_next [OF assms(1) plain c(2) this run]
  have next_i: "call_stage B F D rows h files (calls ! i) (rows d') j" "distinct (map fst (rows d'))"
    "set (rows (snd c)) \<subseteq> set (rows d')" by auto
  have "call_stage B F D rows h files (calls ! k) (rows d') ((fst c)[i := j] ! k)" if "k < length calls" for k
    using next_i call_stage_mono [OF c(4) [OF that] next_i(3)] that c(1) by (cases "k = i") simp_all
  then show ?thesis
    using next_i c assms(5) run by (auto simp: stages_def next_section_def)
qed

lemma stages_run:
  assumes "meme_sql D (c_str (mh_database h)) rows" and "selects_read D"
    and "creates_table D (c_str (mh_database h)) rows" and "distinct (map fst (rows d0))"
    and "list_all plain_call calls" and "pool_run (start_pool (map (meme_job B F D h files) calls) d0) hist pl"
  shows "stages B F D rows h files calls d0 (serial (map (meme_job B F D h files) calls) hist d0)"
  using assms(6)
proof (induction rule: pool_run.induct)
  case start
  have "opens D (c_str (mh_database h)) rows" using assms(1) by (simp add: meme_sql_def)
  then have "call_stage B F D rows h files call rws (meme_job B F D h files call)" for call rws
    using others_keep_rows [OF assms(2) _ assms(3), of call B F files]
    by (auto simp: call_stage_def create_stage_def split: meme_call.split)
  with assms(4) show ?case by (simp add: stages_def)
next
  case (step hist pl l pl')
  show ?case
  proof (cases l)
    case (Some i)
    with step.hyps(2) have "pool_step (Some i) pl pl'" by simp
    from locked_jobs.released_section [OF meme_locked [OF assms(2)] step.hyps(1) this]
    obtain n p where "i < length calls" "fst (serial (map (meme_job B F D h files) calls) hist d0) ! i = Locked n p"
      unfolding length_map by blast
    with stages_next [OF assms(1,5) step.IH] Some show ?thesis by (simp add: serial_snoc)
  qed (use step.IH in simp)
qed

text \<open>
  C30: a create releases the lock between its insertion and the query for the
  new id, so that other creates, views, lists and initialisations can run in between.  Where the
  fields of every create of the run, of this one and of the others, are plain (they mean the same
  inside an SQL statement as outside: no text with a quote, no image that is not a number), then,
  however these operations interleave, the page of a create that is done shows the id of the meme it
  was sent, if that id is an \<open>int\<close>; the meme is in the table, no meme is lost, and the ids in the
  table are different.
\<close>

theorem meme_create_interleaved:
  assumes "meme_sql D (c_str (mh_database h)) rows" and "selects_read D"
    and "creates_table D (c_str (mh_database h)) rows" and "distinct (map fst (rows d0))"
    and "list_all plain_call calls"
    and "marked_page F files (mh_html_root h @ ''/create.html'') ca create_target cb"
    and "pool_run (start_pool (map (meme_job B F D h files) calls) d0) hist pl" and "\<not> pl_writer pl"
    and "i < length calls" and "calls ! i = Call_create req res" and "parse_meme_request (rq_body req) = Inr m"
    and "pl_threads pl ! i = Finished r"
  shows "\<exists>res' n shown. r = Inr (Page (HTTP_STATUS_OK, res')) \<and>
    rs_body res' = ca @ create_target @ created_line shown @ cb \<and> (in_int n \<longrightarrow> shown = n) \<and>
    (n, m) \<in> set (rows (pl_shared pl)) \<and> distinct (map fst (rows (pl_shared pl))) \<and>
    set (rows d0) \<subseteq> set (rows (pl_shared pl))"
proof -
  let ?js = "map (meme_job B F D h files) calls"
  note facts = locked_jobs.interleaving_is_serial [OF meme_locked [OF assms(2)] assms(7)]
  have shared: "pl_shared pl = snd (serial ?js hist d0)" using facts(1) assms(8) .
  have answered: "fst (serial ?js hist d0) ! i = Answered r" using facts(2) assms(9,12) by simp
  have all_stages: "stages B F D rows h files calls d0 (serial ?js hist d0)"
    using stages_run [OF assms(1-5,7)] .
  then have "call_stage B F D rows h files (calls ! i) (rows (snd (serial ?js hist d0))) (fst (serial ?js hist d0) ! i)"
    using assms(9) by (simp add: stages_def)
  then have stage: "create_stage B F D h files req res m (rows (pl_shared pl)) (Answered r)"
    by (simp add: call_stage_def assms(10) answered shared created_meme_def assms(11))
  have "plain_call (calls ! i)" using assms(5,9) by (simp add: list_all_length)
  then have "meme_create_job B F D h files req res \<noteq> Answered r"
    using assms(10,11) by (simp add: plain_call_def meme_create_job_def)
  with stage obtain n shown where n: "(n, m) \<in> set (rows (pl_shared pl))" "in_int n \<longrightarrow> shown = n"
    "r = page_reply B F files (mh_html_root h @ ''/create.html'') create_target (created_line shown) res"
    by (auto simp: create_stage_def last_section_def)
  have "marked_page F (ms_files \<lparr>ms_images = [], ms_files = files, ms_db = ()\<rparr>) (mh_html_root h @ ''/create.html'')
      ca create_target cb"
    using assms(6) by simp
  then obtain res' where
    "edit_page B F (mh_html_root h @ ''/create.html'') create_target (created_line shown) res
        \<lparr>ms_images = [], ms_files = files, ms_db = ()\<rparr> =
      (Inr (HTTP_STATUS_OK, res'), \<lparr>ms_images = [], ms_files = files, ms_db = ()\<rparr>)"
    "rs_body res' = ca @ create_target @ created_line shown @ cb"
    by (rule edit_marked)
  then show ?thesis
    using n all_stages shared by (auto simp: page_reply_def stages_def)
qed

section \<open>Two creates at once\<close>

lemma table_selects_read: "selects_read table_sqlite"
proof -
  have "snd (snd (table_step q d)) = d" for q d by (cases "(q, d)" rule: table_step.cases) simp_all
  then show ?thesis by (simp add: selects_read_def table_sqlite_def)
qed

lemma table_creates: "creates_table table_sqlite name (\<lambda>d. d)"
proof -
  have "DQ \<notin> set meme_table_query" by (simp add: meme_table_query_def)
  then have "quoted meme_table_query = [meme_table_query]" by (rule quoted_last)
  then show ?thesis by (simp add: creates_table_def table_sqlite_def)
qed

definition demo_form :: "string \<Rightarrow> field_list request" where
  "demo_form top_text = (bs_request list_beast)\<lparr>rq_body := render_meme top_text ''you'' ''1''\<rparr>"

lemma demo_form_parsed:
  assumes "plain_text t" and "CHR ''&'' \<notin> set t" and "CHR ''+'' \<notin> set t" and "length t < 100"
  shows "parse_meme_request (rq_body (demo_form t)) = Inr \<lparr>me_top_text = t, me_bottom_text = ''you'', me_image = ''1''\<rparr>"
    and "plain_meme \<lparr>me_top_text = t, me_bottom_text = ''you'', me_image = ''1''\<rparr>"
proof -
  have one: "to_string 1 = ''1''" by (simp add: to_string_eval)
  have you: "plain_text ''you''" by (simp add: plain_text_def sus_def column_names_def lower_def)
  have plus: "plus_to_space t = t" "plus_to_space ''you'' = ''you''"
    using assms(3) by (auto simp: plus_to_space_def replace_char_def intro!: map_idI)
  have len: "length (render_meme t ''you'' (to_string 1)) < 2 ^ 31"
    using assms(4) by (simp add: render_meme_def prompt_defs one)
  show "parse_meme_request (rq_body (demo_form t)) = Inr \<lparr>me_top_text = t, me_bottom_text = ''you'', me_image = ''1''\<rparr>"
    using parse_plain [OF assms(2) _ len] assms(1) you plus by (simp add: demo_form_def one)
  show "plain_meme \<lparr>me_top_text = t, me_bottom_text = ''you'', me_image = ''1''\<rparr>"
    using assms(1) you one by (auto simp: plain_meme_def in_int_def INT_MIN_def INT_MAX_def intro!: exI [of _ 1])
qed

lemma meme_create_interleaved_witness:
  "\<exists>hist pl n res' shown.
     pool_run (start_pool (map (meme_job list_beast flat_ops table_sqlite demo_meme (ms_files (store_world [])))
       [Call_create (demo_form ''hi'') (bs_response list_beast), Call_create (demo_form ''ho'') (bs_response list_beast)]) []) hist pl \<and>
     pl_threads pl ! 1 = Finished (Inr (Page (HTTP_STATUS_OK, res'))) \<and>
     rs_body res' = create_target @ created_line shown \<and> (in_int n \<longrightarrow> shown = n) \<and>
     (n, \<lparr>me_top_text = ''ho'', me_bottom_text = ''you'', me_image = ''1''\<rparr>) \<in> set (pl_shared pl)"
proof -
  let ?calls = "[Call_create (demo_form ''hi'') (bs_response list_beast), Call_create (demo_form ''ho'') (bs_response list_beast)]"
  let ?files = "ms_files (store_world [])"
  let ?js = "map (meme_job list_beast flat_ops table_sqlite demo_meme ?files) ?calls"
  obtain hist pl r where run: "pool_run (start_pool ?js []) hist pl" "\<not> pl_writer pl" "pl_threads pl ! 1 = Finished r"
    using locked_jobs.finished_run [OF meme_locked [OF table_selects_read], of list_beast flat_ops demo_meme ?files ?calls "[]"]
    by fastforce
  have words: "plain_text ''hi''" "plain_text ''ho''"
    by (simp_all add: plain_text_def sus_def column_names_def lower_def)
  have hi: "parse_meme_request (rq_body (demo_form ''hi'')) = Inr \<lparr>me_top_text = ''hi'', me_bottom_text = ''you'', me_image = ''1''\<rparr>"
    "plain_meme \<lparr>me_top_text = ''hi'', me_bottom_text = ''you'', me_image = ''1''\<rparr>"
    using demo_form_parsed [OF words(1)] by simp_all
  have ho: "parse_meme_request (rq_body (demo_form ''ho'')) = Inr \<lparr>me_top_text = ''ho'', me_bottom_text = ''you'', me_image = ''1''\<rparr>"
    "plain_meme \<lparr>me_top_text = ''ho'', me_bottom_text = ''you'', me_image = ''1''\<rparr>"
    using demo_form_parsed [OF words(2)] by simp_all
  have body: "rq_body (demo_form t) \<noteq> []" for t by (simp add: demo_form_def render_meme_nonempty)
  have plain: "list_all plain_call ?calls" using hi ho body by (simp add: plain_call_def)
  have page: "marked_page flat_ops ?files (mh_html_root demo_meme @ ''/create.html'') [] create_target []"
    by (simp add: marked_page_def flat_simps store_world_def demo_meme_def create_target_def)
  have "1 < length ?calls" "?calls ! 1 = Call_create (demo_form ''ho'') (bs_response list_beast)" by simp_all
  from meme_create_interleaved [OF table_meme_sql table_selects_read table_creates _ plain page run(1,2) this ho(1) run(3)]
  obtain res' n shown where "r = Inr (Page (HTTP_STATUS_OK, res'))" "rs_body res' = create_target @ created_line shown"
    "in_int n \<longrightarrow> shown = n" "(n, \<lparr>me_top_text = ''ho'', me_bottom_text = ''you'', me_image = ''1''\<rparr>) \<in> set (pl_shared pl)"
    by auto
  with run show ?thesis by blast
qed

end
