(* ===== verification/Config_Grammar.thy ===== *)
theory Config_Grammar
  imports Config_Parser_Sound
begin

text \<open>
  The language of the configuration parser: \<open>Parse\<close> accepts an input exactly if its tokens, without
  white space and comments, are the tokens of a tree, and then it returns that tree.

  A tree's tokens are \<open>flatten\<close>; \<open>lexes\<close> is the condition on the characters: the lexer finds no
  error, and no two words touch.  \<open>build\<close> is a deterministic reader of the token sequence, between the
  parser's loop and the grammar: the loop refines it, and it inverts \<open>flatten\<close>.
\<close>

section \<open>The grammar\<close>

definition punctuation :: "string set" where
  "punctuation = {'';'', ''{'', ''}''}"

definition is_word :: "string \<Rightarrow> bool" where
  "is_word t \<longleftrightarrow> t \<noteq> [] \<and> t \<notin> punctuation"

text \<open>Every statement of the tree has a word, and its tokens are words.\<close>

fun words_ok :: "NginxConfig \<Rightarrow> bool"
  and statements_words :: "NginxConfigStatement list \<Rightarrow> bool"
  and statement_words :: "NginxConfigStatement \<Rightarrow> bool" where
  "words_ok (NginxConfig ss) = statements_words ss"
| "statements_words [] = True"
| "statements_words (s # ss) = (statement_words s \<and> statements_words ss)"
| "statement_words (NginxConfigStatement ts None) = (ts \<noteq> [] \<and> list_all is_word ts)"
| "statement_words (NginxConfigStatement ts (Some block)) = (ts \<noteq> [] \<and> list_all is_word ts \<and> words_ok block)"

lemma statements_words_append [simp]:
  "statements_words (ss @ rs) \<longleftrightarrow> statements_words ss \<and> statements_words rs"
  by (induction ss) auto

definition is_word_type :: "TokenType \<Rightarrow> bool" where
  "is_word_type tt \<longleftrightarrow> tt = TOKEN_TYPE_NORMAL \<or> tt = TOKEN_TYPE_QUOTED_STRING"

text \<open>\<open>lexes prev inp\<close>: \<open>prev\<close> is the token before \<open>inp\<close> that is no comment.\<close>

function lexes :: "TokenType \<Rightarrow> string \<Rightarrow> bool" where
  "lexes prev inp =
     (case ParseToken inp of (tt, v, rest) \<Rightarrow>
        if tt = TOKEN_TYPE_EOF then True
        else if tt = TOKEN_TYPE_ERROR then False
        else \<not> (is_word_type prev \<and> is_word_type tt) \<and>
          lexes (if tt = TOKEN_TYPE_COMMENT then prev else tt) rest)"
  by pat_completeness auto
termination
  by (relation "measure (\<lambda>(prev, inp). length inp)") (auto dest: ParseToken_rest_less [OF sym])

declare lexes.simps [simp del]

section \<open>Reading a token sequence\<close>

text \<open>\<open>build frames inword ts\<close>: the frames of the open blocks, and whether a statement is open.\<close>

definition push_word :: "string \<Rightarrow> NginxConfigStatement list \<Rightarrow> NginxConfigStatement list" where
  "push_word t ss = butlast ss @ [NginxConfigStatement (tokens (last ss) @ [t]) (child_block (last ss))]"

fun build :: "NginxConfigStatement list list \<Rightarrow> bool \<Rightarrow> string list \<Rightarrow> NginxConfig option" where
  "build fs inword [] = (if \<not> inword \<and> length fs = 1 then Some (NginxConfig (hd fs)) else None)"
| "build [] inword (t # ts) = None"
| "build (ss # fs) inword (t # ts) =
     (if t = '';'' then (if inword then build (ss # fs) False ts else None)
      else if t = ''{'' then
        (if inword then build ([] # set_child [] ss # fs) False ts else None)
      else if t = ''}'' then
        (if \<not> inword \<and> fs \<noteq> [] then build (set_child ss (hd fs) # tl fs) False ts else None)
      else if inword then build (push_word t ss # fs) True ts
      else build ((ss @ [NginxConfigStatement [t] None]) # fs) True ts)"

text \<open>It inverts \<open>flatten\<close>.\<close>

lemma push_word_snoc [simp]:
  "push_word t (ss @ [NginxConfigStatement ts c]) = ss @ [NginxConfigStatement (ts @ [t]) c]"
  by (simp add: push_word_def)

lemma set_child_snoc [simp]:
  "set_child block (ss @ [NginxConfigStatement ts c]) = ss @ [NginxConfigStatement ts (Some (NginxConfig block))]"
  by (simp add: set_child_def)

lemma is_wordD: "is_word t \<Longrightarrow> t \<noteq> '';'' \<and> t \<noteq> ''{'' \<and> t \<noteq> ''}''"
  by (simp add: is_word_def punctuation_def)

lemma build_more_words:
  "list_all is_word ts \<Longrightarrow>
     build ((ss @ [NginxConfigStatement us None]) # fs) True (ts @ rest) =
       build ((ss @ [NginxConfigStatement (us @ ts) None]) # fs) True rest"
  by (induction ts arbitrary: us) (auto dest: is_wordD)

lemma build_words:
  assumes "ts \<noteq> []" and "list_all is_word ts"
  shows "build (ss # fs) False (ts @ rest) = build ((ss @ [NginxConfigStatement ts None]) # fs) True rest"
  using assms build_more_words [of "tl ts" ss "[hd ts]" fs rest]
  by (cases ts) (auto dest: is_wordD)

lemma build_flatten:
  "words_ok c \<Longrightarrow> build (ss # fs) False (flatten c @ rest) = build ((ss @ statements c) # fs) False rest"
  "statements_words rs \<Longrightarrow>
     build (ss # fs) False (flatten_statements rs @ rest) = build ((ss @ rs) # fs) False rest"
  "statement_words s \<Longrightarrow>
     build (ss # fs) False (flatten_statement s @ rest) = build ((ss @ [s]) # fs) False rest"
proof (induction c and rs and s arbitrary: ss fs rest and ss fs rest and ss fs rest
    rule: words_ok_statements_words_statement_words.induct)
  case (3 s rs)
  then show ?case by simp
next
  case (4 ts)
  then show ?case by (simp add: build_words)
next
  case (5 ts block)
  then show ?case by (cases block) (simp add: build_words)
qed simp_all

lemma build_flatten_all: "words_ok c \<Longrightarrow> build [[]] False (flatten c) = Some c"
  using build_flatten(1) [of c "[]" "[]" "[]"] by (cases c) simp

section \<open>What it reads is what it was given\<close>

definition built :: "NginxConfigStatement list list \<Rightarrow> bool \<Rightarrow> string list" where
  "built fs inword =
     concat (map (\<lambda>ss. open_frame ss @ [''{'']) (rev (tl fs))) @
     (if inword then open_frame (hd fs) else flatten_statements (hd fs))"

text \<open>The last statement of a block, while it is open, has no block yet but has words.\<close>

definition frames_words :: "NginxConfigStatement list list \<Rightarrow> bool \<Rightarrow> bool" where
  "frames_words fs inword \<longleftrightarrow>
     fs \<noteq> [] \<and> [] \<notin> set (tl fs) \<and> list_all statements_words fs \<and>
     (inword \<longrightarrow> hd fs \<noteq> [] \<and> child_block (last (hd fs)) = None)"

lemma statements_words_last:
  "statements_words ss \<Longrightarrow> ss \<noteq> [] \<Longrightarrow>
     statements_words (butlast ss) \<and> tokens (last ss) \<noteq> [] \<and> list_all is_word (tokens (last ss))"
  by (induction ss rule: rev_induct, simp)
    (auto split: option.splits, (metis NginxConfigStatement.exhaust NginxConfigStatement.sel(1) option.exhaust
      statement_words.simps)+)

lemma set_child_words:
  "statements_words ss \<Longrightarrow> ss \<noteq> [] \<Longrightarrow> statements_words block \<Longrightarrow> statements_words (set_child block ss)"
  using statements_words_last [of ss] by (simp add: set_child_def)

lemma push_word_words:
  "statements_words ss \<Longrightarrow> ss \<noteq> [] \<Longrightarrow> child_block (last ss) = None \<Longrightarrow> is_word t \<Longrightarrow>
     statements_words (push_word t ss)"
  using statements_words_last [of ss] by (simp add: push_word_def)

lemma open_frame_push_word [simp]: "open_frame (push_word t ss) = open_frame ss @ [t]"
  by (simp add: push_word_def open_frame_def)

lemma build_sound:
  "build fs inword ts = Some c \<Longrightarrow> frames_words fs inword \<Longrightarrow> [] \<notin> set ts \<Longrightarrow>
     flatten c = built fs inword @ ts \<and> words_ok c"
proof (induction fs inword ts rule: build.induct)
  case (1 fs inword)
  then show ?case by (cases fs) (auto simp: built_def frames_words_def split: if_splits)
next
  case (2 inword t ts)
  then show ?case by simp
next
  case (3 ss fs inword t ts)
  consider (semi) "t = '';''" | (start) "t = ''{''" | (stop) "t = ''}''" | (word) "is_word t"
    using 3(8) by (auto simp: is_word_def punctuation_def)
  then show ?case
  proof cases
    case semi
    with 3(6) have w: inword "build (ss # fs) False ts = Some c" by (auto split: if_splits)
    with 3(7) flatten_last [of ss] have "built (ss # fs) False = built (ss # fs) inword @ [t]"
      using semi by (simp add: built_def frames_words_def)
    moreover have "frames_words (ss # fs) False" using 3(7) by (simp add: frames_words_def)
    ultimately show ?thesis using 3(1) [OF semi w(1,2)] 3(8) by simp
  next
    case start
    with 3(6) have w: inword "build ([] # set_child [] ss # fs) False ts = Some c" by (auto split: if_splits)
    have "built ([] # set_child [] ss # fs) False = built (ss # fs) inword @ [t]"
      using start w(1) by (simp add: built_def set_child_def open_frame_def)
    moreover have "frames_words ([] # set_child [] ss # fs) False"
      using 3(7) w(1) set_child_words [of ss "[]"] by (auto simp: frames_words_def set_child_def)
    ultimately show ?thesis using 3(2) [OF _ start w(1,2)] start 3(8) by simp
  next
    case stop
    with 3(6) have w: "\<not> inword" "fs \<noteq> []" "build (set_child ss (hd fs) # tl fs) False ts = Some c"
      by (auto split: if_splits)
    have "built (set_child ss (hd fs) # tl fs) False = built (ss # fs) inword @ [t]"
      using stop w(1,2) by (cases fs) (auto simp: built_def flatten_set_child)
    moreover have "frames_words (set_child ss (hd fs) # tl fs) False"
      using 3(7) w(2) set_child_words [of "hd fs" ss] by (cases fs) (auto simp: frames_words_def)
    ultimately show ?thesis using 3(3) [OF _ _ stop _ w(3)] w(1,2) stop 3(8) by simp
  next
    case word
    then have t: "t \<noteq> '';''" "t \<noteq> ''{''" "t \<noteq> ''}''" by (auto dest: is_wordD)
    show ?thesis
    proof (cases inword)
      case True
      with 3(6) t have b: "build (push_word t ss # fs) True ts = Some c" by simp
      have "frames_words (push_word t ss # fs) True"
        using 3(7) True word push_word_words [of ss t] by (auto simp: frames_words_def push_word_def)
      moreover have "built (push_word t ss # fs) True = built (ss # fs) inword @ [t]"
        using True by (simp add: built_def)
      ultimately show ?thesis using 3(4) [OF t True b] 3(8) by simp
    next
      case False
      with 3(6) t have b: "build ((ss @ [NginxConfigStatement [t] None]) # fs) True ts = Some c" by simp
      have "frames_words ((ss @ [NginxConfigStatement [t] None]) # fs) True"
        using 3(7) word by (auto simp: frames_words_def)
      moreover have "built ((ss @ [NginxConfigStatement [t] None]) # fs) True = built (ss # fs) inword @ [t]"
        using False by (simp add: built_def)
      ultimately show ?thesis using 3(5) [OF t False b] 3(8) by simp
    qed
  qed
qed

lemma build_iff:
  assumes "[] \<notin> set ts"
  shows "build [[]] False ts = Some c \<longleftrightarrow> words_ok c \<and> flatten c = ts"
proof
  assume "build [[]] False ts = Some c"
  then show "words_ok c \<and> flatten c = ts"
    using build_sound [of "[[]]" False ts c] assms by (simp add: frames_words_def built_def)
next
  assume "words_ok c \<and> flatten c = ts"
  then show "build [[]] False ts = Some c" using build_flatten_all [of c] by simp
qed

section \<open>The parser's loop is that reader\<close>

text \<open>What the last two token types can be: white space is not repeated, and the start is outside.\<close>

definition types_ok :: "parse_state \<Rightarrow> bool" where
  "types_ok p \<longleftrightarrow>
     last_token_type p \<notin> {TOKEN_TYPE_COMMENT, TOKEN_TYPE_EOF, TOKEN_TYPE_ERROR} \<and>
     (last_token_type p = TOKEN_TYPE_WHITESPACE \<longrightarrow>
        second_last_token_type p \<notin> {TOKEN_TYPE_COMMENT, TOKEN_TYPE_EOF, TOKEN_TYPE_ERROR, TOKEN_TYPE_WHITESPACE}) \<and>
     (last_token_type p = TOKEN_TYPE_START \<or> ws_after TOKEN_TYPE_START p \<longrightarrow> depth p = 0) \<and>
     (last_token_type p = TOKEN_TYPE_START_BLOCK \<or> ws_after TOKEN_TYPE_START_BLOCK p \<longrightarrow> 1 \<le> depth p)"

lemma ParseToken_loop_hd:
  "v \<noteq> [] \<Longrightarrow> st \<noteq> TOKEN_STATE_INITIAL_WHITESPACE \<Longrightarrow> hd (fst (snd (ParseToken_loop st v inp))) = hd v"
proof (induction st v inp rule: lexer_induct)
  case (single v c inp)
  then show ?case by (subst ParseToken_loop.simps) (auto split: list.split option.split)
next
  case (double v c inp)
  then show ?case by (subst ParseToken_loop.simps) (auto split: list.split option.split)
qed auto

lemma ParseToken_word_value:
  assumes "ParseToken inp = (tt, v, rest)" and "is_word_type tt"
  shows "is_word v"
proof -
  have ne: "v \<noteq> []" using assms ParseToken_value_nonempty by (auto simp: is_word_type_def)
  obtain c inp' where inp: "inp = c # inp'"
    using assms by (cases inp) (auto simp: ParseToken_def is_word_type_def)
  have ws: "\<not> is_ws c"
    using assms inp ParseToken_loop_type [of TOKEN_STATE_WHITESPACE "[]" inp']
    by (auto simp: ParseToken_def is_word_type_def is_ws_def split: if_splits)
  have "hd v = c"
    using assms inp ws ParseToken_loop_hd [of "[c]" _ inp']
    by (auto simp: ParseToken_def is_word_type_def split: if_splits)
      (metis TokenParserState.distinct fst_conv list.sel(1) not_Cons_self2 snd_conv)+
  moreover have "c \<noteq> CHR '';'' \<and> c \<noteq> CHR ''{'' \<and> c \<noteq> CHR ''}''"
    using assms inp by (auto simp: ParseToken_def is_word_type_def)
  ultimately show ?thesis using ne by (auto simp: is_word_def punctuation_def)
qed

lemma ParseToken_no_start: "ParseToken inp = (tt, v, rest) \<Longrightarrow> tt \<noteq> TOKEN_TYPE_START"
  using ParseToken_loop_type [of TOKEN_STATE_INITIAL_WHITESPACE "[]" inp] by (auto simp: ParseToken_def)

text \<open>One token, for each kind of token: \<open>follows\<close> is what the loop and the reader have in common.\<close>

definition follows :: "parse_state \<Rightarrow> TokenType \<Rightarrow> string \<Rightarrow> string list \<Rightarrow> parse_outcome \<Rightarrow> bool" where
  "follows p tt v ts out \<longleftrightarrow>
     (case out of
        Continue q \<Rightarrow>
          \<not> (is_word_type (last_token_type p) \<and> is_word_type tt) \<and> types_ok q \<and>
          last_token_type q = (if tt = TOKEN_TYPE_COMMENT then last_token_type p else tt) \<and>
          build (config_stack p) (word_before p) ((if is_blank tt then [] else [v]) @ ts) =
            build (config_stack q) (word_before q) ts
      | Return b q \<Rightarrow>
          \<not> b \<and> (is_word_type (last_token_type p) \<and> is_word_type tt \<or>
            build (config_stack p) (word_before p) (v # ts) = None))"

lemma word_before_word: "is_word_type (last_token_type p) \<Longrightarrow> word_before p"
  by (auto simp: is_word_type_def word_before_def)

lemma step_word_follows:
  assumes "parse_inv p" and "types_ok p" and "is_word v" and "is_word_type tt"
    and "step_word tt v p = Inr out"
  shows "follows p tt v ts out"
proof -
  from assms(1) obtain ss fs where f: "config_stack p = ss # fs"
    "word_before p \<Longrightarrow> ss \<noteq> [] \<and> child_block (last ss) = None"
    by (rule parse_inv_frames) blast
  show ?thesis
  proof (cases "is_word_type (last_token_type p)")
    case True
    with assms(4,5) show ?thesis by (auto simp: step_word_def follows_def is_word_type_def ws_after_def)
  next
    case False
    then have wb: "word_before p \<longleftrightarrow> ws_after TOKEN_TYPE_NORMAL p \<or> ws_after TOKEN_TYPE_QUOTED_STRING p"
      by (auto simp: word_before_def is_word_type_def)
    have last: "last_token_type p \<in> {TOKEN_TYPE_START, TOKEN_TYPE_WHITESPACE, TOKEN_TYPE_STATEMENT_END,
        TOKEN_TYPE_START_BLOCK, TOKEN_TYPE_END_BLOCK}"
      using False assms(2) by (cases "last_token_type p") (auto simp: types_ok_def is_word_type_def)
    let ?ss = "if word_before p then push_word v ss else ss @ [NginxConfigStatement [v] None]"
    have "out = Continue (shift_token tt (with_top ?ss p))"
      using assms(5) f last wb
      by (auto simp: step_word_def Let_def result_iff back_push_token_def push_word_def split: if_splits)
    moreover have "types_ok (shift_token tt (with_top ?ss p))" "word_before (shift_token tt (with_top ?ss p))"
      using assms(4) by (auto simp: types_ok_def is_word_type_def ws_after_def word_before_shift)
    ultimately show ?thesis
      using f(1) False assms(3,4) by (auto simp: follows_def is_word_type_def is_blank_def dest: is_wordD)
  qed
qed

lemma step_statement_end_follows:
  assumes "parse_inv p" and "types_ok p" and "step_statement_end p = Inr out"
  shows "follows p TOKEN_TYPE_STATEMENT_END '';'' ts out"
proof -
  from assms(1) obtain ss fs where f: "config_stack p = ss # fs" by (rule parse_inv_frames) blast
  with assms(3) show ?thesis
    by (auto simp: step_statement_end_def follows_def is_word_type_def is_blank_def types_ok_def ws_after_def
        word_before_shift split: if_splits)
qed

lemma step_start_block_follows:
  assumes "parse_inv p" and "types_ok p" and "step_start_block p = Inr out"
  shows "follows p TOKEN_TYPE_START_BLOCK ''{'' ts out"
proof -
  from assms(1) obtain ss fs where f: "config_stack p = ss # fs" "depth p = int (length fs)"
    "word_before p \<Longrightarrow> ss \<noteq> []"
    by (rule parse_inv_frames) blast
  have "back_reset_child (NginxConfig []) ss = Inr (set_child [] ss)" if "word_before p"
    using f(3) [OF that] by (simp add: back_reset_child_def set_child_def)
  with assms(3) f show ?thesis
    by (auto simp: step_start_block_def follows_def is_word_type_def is_blank_def types_ok_def ws_after_def
        word_before_shift split: if_splits)
qed

lemma step_end_block_follows:
  assumes "parse_inv p" and "types_ok p" and "step_end_block p = Inr out"
  shows "follows p TOKEN_TYPE_END_BLOCK ''}'' ts out"
proof -
  from assms(1) obtain ss fs where f: "config_stack p = ss # fs" "depth p = int (length fs)"
    by (rule parse_inv_frames) blast
  show ?thesis
  proof (cases "word_before p \<or> fs = []")
    case True
    with assms(3) f have "\<exists>q. out = Return False q"
      by (auto simp: step_end_block_def word_before_def ws_after_def split: if_splits)
    with True f show ?thesis by (auto simp: follows_def)
  next
    case False
    then obtain ps fs' where fs: "fs = ps # fs'" by (cases fs) auto
    have "last_token_type p \<in> {TOKEN_TYPE_STATEMENT_END, TOKEN_TYPE_START_BLOCK, TOKEN_TYPE_END_BLOCK} \<or>
        ws_after TOKEN_TYPE_STATEMENT_END p \<or> ws_after TOKEN_TYPE_START_BLOCK p \<or> ws_after TOKEN_TYPE_END_BLOCK p"
      using False assms(2) f(2) fs
      by (cases "last_token_type p"; cases "second_last_token_type p")
        (auto simp: types_ok_def word_before_def ws_after_def)
    then have "out = Continue (shift_token TOKEN_TYPE_END_BLOCK
        (p\<lparr>config_stack := set_child ss ps # fs', depth := depth p - 1\<rparr>))"
      using assms(3) f fs by (auto simp: step_end_block_def split: if_splits)
    with False f fs show ?thesis
      by (auto simp: follows_def is_word_type_def is_blank_def types_ok_def ws_after_def word_before_shift)
  qed
qed

lemma parse_step_follows:
  assumes "parse_inv p" and "types_ok p" and "ParseToken inp = (tt, v, rest)"
    and "tt \<noteq> TOKEN_TYPE_EOF" and "tt \<noteq> TOKEN_TYPE_ERROR" and "parse_step tt v p = Inr out"
  shows "follows p tt v ts out"
proof (cases tt)
  case TOKEN_TYPE_START
  with ParseToken_no_start [OF assms(3)] show ?thesis by simp
next
  case TOKEN_TYPE_COMMENT
  with assms(2,6) show ?thesis by (auto simp: parse_step_def follows_def is_word_type_def is_blank_def)
next
  case TOKEN_TYPE_WHITESPACE
  with assms(2,6) word_before_ws [of p] show ?thesis
    by (auto simp: parse_step_def follows_def is_word_type_def is_blank_def types_ok_def ws_after_def split: if_splits)
next
  case TOKEN_TYPE_NORMAL
  with assms step_word_follows ParseToken_word_value show ?thesis
    by (simp add: parse_step_def is_word_type_def)
next
  case TOKEN_TYPE_QUOTED_STRING
  with assms step_word_follows ParseToken_word_value show ?thesis
    by (simp add: parse_step_def is_word_type_def)
next
  case TOKEN_TYPE_STATEMENT_END
  with assms step_statement_end_follows ParseToken_punctuation_value [OF assms(3)] show ?thesis
    by (simp add: parse_step_def)
next
  case TOKEN_TYPE_START_BLOCK
  with assms step_start_block_follows ParseToken_punctuation_value [OF assms(3)] show ?thesis
    by (simp add: parse_step_def)
next
  case TOKEN_TYPE_END_BLOCK
  with assms step_end_block_follows ParseToken_punctuation_value [OF assms(3)] show ?thesis
    by (simp add: parse_step_def)
qed (use assms(4,5) in simp_all)

lemma step_eof_follows:
  assumes "parse_inv p" and "types_ok p"
  shows "\<exists>b. step_eof p = Inr (Return b p) \<and> (b \<longleftrightarrow> \<not> word_before p \<and> length (config_stack p) = 1)"
proof -
  from assms(1) obtain ss fs where f: "config_stack p = ss # fs" "depth p = int (length fs)"
    by (rule parse_inv_frames) blast
  with assms(2) show ?thesis
    by (cases "last_token_type p"; cases "second_last_token_type p")
      (auto simp: step_eof_def types_ok_def word_before_def ws_after_def)
qed

text \<open>The loop, from any state: its flag says whether the reader succeeds, and on what.\<close>

lemma parse_loop_build:
  "parse_inv p \<Longrightarrow> types_ok p \<Longrightarrow> parse_loop p inp = Inr (b, p') \<Longrightarrow>
     (if b then lexes (last_token_type p) inp \<and>
         build (config_stack p) (word_before p) (significant_tokens inp) = Some (collapse (config_stack p'))
      else \<not> lexes (last_token_type p) inp \<or>
         build (config_stack p) (word_before p) (significant_tokens inp) = None)"
proof (induction p inp rule: parse_loop.induct)
  case (1 p inp)
  obtain tt v rest where tok: "ParseToken inp = (tt, v, rest)" by (metis prod_cases3)
  obtain out where out: "parse_step tt v p = Inr out" "parse_inv (outcome_state out)"
    using parse_step_inv [OF 1(2)] ParseToken_value_nonempty [OF tok] by blast
  consider (eof) "tt = TOKEN_TYPE_EOF" | (error) "tt = TOKEN_TYPE_ERROR"
    | (token) "tt \<noteq> TOKEN_TYPE_EOF" "tt \<noteq> TOKEN_TYPE_ERROR" by blast
  then show ?case
  proof cases
    case eof
    obtain a where a: "step_eof p = Inr (Return a p)" "a \<longleftrightarrow> \<not> word_before p \<and> length (config_stack p) = 1"
      using step_eof_follows [OF 1(2,3)] by blast
    then have "b = a" "p' = p"
      using 1(4) tok eof by (subst (asm) parse_loop.simps, simp add: parse_step_def)+
    moreover have "significant_tokens inp = []" "lexes (last_token_type p) inp"
      using tok eof by (simp_all add: significant_tokens.simps [of inp] lexes.simps [of _ inp])
    moreover have "collapse (config_stack p) = NginxConfig (hd (config_stack p))" if "length (config_stack p) = 1"
      using that by (cases "config_stack p") auto
    ultimately show ?thesis using a(2) by auto
  next
    case error
    then have "b = False"
      using 1(4) tok by (subst (asm) parse_loop.simps, simp add: parse_step_def)
    moreover have "\<not> lexes (last_token_type p) inp"
      using tok error by (simp add: lexes.simps [of _ inp])
    ultimately show ?thesis by simp
  next
    case token
    have sig: "significant_tokens inp = (if is_blank tt then [] else [v]) @ significant_tokens rest"
      and lex: "lexes (last_token_type p) inp \<longleftrightarrow> \<not> (is_word_type (last_token_type p) \<and> is_word_type tt) \<and>
        lexes (if tt = TOKEN_TYPE_COMMENT then last_token_type p else tt) rest"
      using tok token by (simp_all add: significant_tokens.simps [of inp] lexes.simps [of _ inp])
    have fol: "follows p tt v (significant_tokens rest) out"
      using parse_step_follows [OF 1(2,3) tok token out(1)] .
    show ?thesis
    proof (cases out)
      case (Continue q)
      have "parse_loop q rest = Inr (b, p')"
        using 1(4) tok out(1) Continue by (subst (asm) parse_loop.simps) simp
      moreover have "parse_inv q" "types_ok q" using out(2) fol Continue by (simp_all add: follows_def)
      ultimately have "if b then lexes (last_token_type q) rest \<and>
            build (config_stack q) (word_before q) (significant_tokens rest) = Some (collapse (config_stack p'))
          else \<not> lexes (last_token_type q) rest \<or>
            build (config_stack q) (word_before q) (significant_tokens rest) = None"
        using 1(1) [OF tok [symmetric] refl _ refl, of q] out(1) Continue by simp
      then show ?thesis using fol Continue by (auto simp: follows_def sig lex)
    next
      case (Return a q)
      then have "b = a" using 1(4) tok out(1) by (subst (asm) parse_loop.simps) simp
      moreover have "\<not> is_blank tt \<or> is_word_type tt"
        using Return out(1) by (cases tt) (auto simp: parse_step_def is_blank_def)
      ultimately show ?thesis
        using fol Return by (auto simp: follows_def sig lex is_blank_def is_word_type_def)
    qed
  qed
qed

lemma significant_tokens_nonempty: "[] \<notin> set (significant_tokens inp)"
proof (induction inp rule: significant_tokens.induct)
  case (1 inp)
  obtain tt v rest where tok: "ParseToken inp = (tt, v, rest)" by (metis prod_cases3)
  have "v \<noteq> []" if "\<not> is_blank tt" "tt \<noteq> TOKEN_TYPE_EOF" "tt \<noteq> TOKEN_TYPE_ERROR"
    using that ParseToken_no_start [OF tok] ParseToken_punctuation_value [OF tok]
      ParseToken_value_nonempty [OF tok] by (cases tt) (auto simp: is_blank_def)
  with 1 [OF tok [symmetric] refl] tok show ?case by (subst significant_tokens.simps) auto
qed

text \<open>
  C4: the parser accepts exactly the inputs of its grammar: \<open>Parse\<close> succeeds with a tree
  if and only if the lexer finds no error and no two words that touch, every statement of the tree
  has words for its tokens, and the tokens of the input are those of the tree, with a semicolon
  after each simple statement and a pair of braces around each block.
\<close>

theorem Parse_grammar:
  "Parse inp (NginxConfig []) = Inr (True, c) \<longleftrightarrow>
     lexes TOKEN_TYPE_START inp \<and> words_ok c \<and> flatten c = significant_tokens inp"
proof -
  let ?p = "initial_parse_state (NginxConfig [])"
  have inv: "parse_inv ?p" by (rule parse_inv_initial) simp
  then obtain b p' where loop: "parse_loop ?p inp = Inr (b, p')"
    using parse_loop_inv by blast
  have "types_ok ?p" by (simp add: types_ok_def initial_parse_state_def ws_after_def)
  moreover have "last_token_type ?p = TOKEN_TYPE_START" "config_stack ?p = [[]]" "word_before ?p = False"
    by (simp_all add: initial_parse_state_def word_before_def ws_after_def)
  ultimately have
    "if b then lexes TOKEN_TYPE_START inp \<and> build [[]] False (significant_tokens inp) = Some (collapse (config_stack p'))
     else \<not> lexes TOKEN_TYPE_START inp \<or> build [[]] False (significant_tokens inp) = None"
    using parse_loop_build [OF inv _ loop] by metis
  then have "Parse inp (NginxConfig []) = Inr (True, c) \<longleftrightarrow>
      lexes TOKEN_TYPE_START inp \<and> build [[]] False (significant_tokens inp) = Some c"
    by (auto simp: Parse_def loop split: if_splits)
  also have "\<dots> \<longleftrightarrow> lexes TOKEN_TYPE_START inp \<and> words_ok c \<and> flatten c = significant_tokens inp"
    using build_iff [OF significant_tokens_nonempty] by simp
  finally show ?thesis .
qed

lemma Parse_grammar_witness:
  "Parse ''x { y 1; } # end'' (NginxConfig []) = Inr (True, NginxConfig
     [NginxConfigStatement [''x''] (Some (NginxConfig [NginxConfigStatement [''y'', ''1''] None]))]) \<and>
   \<not> lexes TOKEN_TYPE_START [CHR ''a'', DQ, CHR ''b'', DQ, CHR '';'']"
proof -
  have "lexes TOKEN_TYPE_START ''x { y 1; } # end''" "\<not> lexes TOKEN_TYPE_START [CHR ''a'', DQ, CHR ''b'', DQ, CHR '';'']"
    and "significant_tokens ''x { y 1; } # end'' = [''x'', ''{'', ''y'', ''1'', '';'', ''}'']"
    by code_simp+
  then show ?thesis
    using Parse_grammar [of "''x { y 1; } # end''"] by (auto simp: is_word_def punctuation_def)
qed

end
