(* ===== verification/Spec2Isabelle.thy ===== *)
theory Spec2Isabelle
  imports Main_Threads Api_Code Meme_Locks Config_Grammar
begin

text \<open>
  A model of the meme generator web server: an asynchronous HTTP server in C++ on Boost.Asio and
  Boost.Beast, configured by an nginx-like file, with handlers for echoes, static files, health
  checks, a JSON entity store (the API handler) and a meme application on SQLite.

  \<^bold>\<open>How the program works.\<close>  \<open>main\<close> (\<open>src/src/server_main.cc\<close>) parses the configuration
  file, takes the port and the location table from it, and builds a \<open>Server\<close>, which makes one
  handler factory per location and accepts connections.  Every connection is a \<open>RealSession\<close>: it
  reads into a buffer, parses the request twice (with Beast's parser, for errors, and with its own
  \<open>httpParser\<close>, for the fields), picks the longest location that covers the target, makes a fresh
  handler of that location's kind with that location's block, lets it answer, and writes the answer.
  The handlers share the file system, the static table of the API handler, and the database.

  \<^bold>\<open>Theories\<close> (paths under \<open>src/src\<close> and \<open>src/include\<close>):
  \<^item> \<open>Prelude\<close>: faults (one constructor per exception or undefined access), results, the binds
    \<open>rbind\<close> and \<open>ebind\<close> (the second keeps the state of the world through a throw), list lemmas.
  \<^item> \<open>Std_String\<close>, \<open>Std_Map\<close>: \<open>std::string\<close>, \<open>stoi\<close>, \<open>to_string\<close>, \<open>std::map\<close> as the source uses them;
    \<open>Std_Map\<close> has the interface \<open>ordered_map\<close>, interpreted on sorted association lists.
  \<^item> \<open>Config\<close>, \<open>Config_Lexer\<close>, \<open>Config_Parser\<close> (\<open>config_parser.cc\<close>): the tree, its printing, the port
    and the location table; the lexer as a function on the rest of the input; the parser as a step
    function on the locals of \<open>Parse\<close>.  The pointers on the parser's stack are the open blocks, kept
    apart from their parents until they are closed; \<open>collapse\<close> is the tree they belong to.
    \<open>Config_Parser_Sound\<close> has the parser's invariant, and that an accepted file's tree has exactly
    its tokens; \<open>Config_Grammar\<close>, that it accepts exactly the texts of a grammar;
    \<open>Config_Roundtrip\<close>, that parsing inverts printing.
  \<^item> \<open>Http_Message\<close> (\<open>request_handler.h\<close>): messages, the error answers, and the interface
    \<open>request_handler\<close> (a handler returns the status that it wrote, one of five), which every
    handler's theory interprets.  \<open>Http_Parser\<close> (\<open>http_parser.cc\<close>): \<open>getFields\<close>.
  \<^item> \<open>File_System\<close>, \<open>Mime\<close>, \<open>Simple_Handlers\<close>, \<open>Static_Handler\<close>: the operations on files, and the
    handlers without state of their own.
  \<^item> \<open>Json_Storage\<close>, \<open>Api_Handler\<close>, \<open>Api_Props\<close> (\<open>api_request_handler.cc\<close>): the static table with the
    interface \<open>entity_store\<close>, the handler, and its properties; the abstract specification is the
    relation \<open>crud_step\<close> on a map from names and ids to entities.  \<open>Shared_Lock\<close> is a pool of threads
    whose critical sections are programs of single steps under a \<open>std::shared_mutex\<close>, with the
    interface \<open>locked_jobs\<close> (sections under the shared lock only read); \<open>Api_Locks\<close> has the handler's
    operations as such sections, under \<open>api_lock\<close>, and shows that run alone they are the operations of
    \<open>Api_Handler\<close>.  Jobs of one section are the locale \<open>single_jobs\<close>, which extends \<open>locked_jobs\<close>.
    \<open>Lock_Discipline\<close> has code in which each locking and unlocking is an instruction, so that a path
    that forgets to unlock, a second lock or an endless loop can be written down, and the interface
    \<open>disciplined\<close> of code that does none of this; \<open>Api_Code\<close> has the handler's operations as such code,
    path by path, shows that they are the code of the jobs of \<open>Api_Locks\<close>, and that they never deadlock.
  \<^item> \<open>Meme_Parse\<close>, \<open>Meme_Handler\<close>, \<open>Meme_Props\<close> (\<open>meme_request_handler.cc\<close>): the form body with its
    arithmetic on \<open>int\<close> (32 bits) and \<open>size_t\<close> (64 bits), the pages, the queries.  \<open>Meme_Store\<close> states
    what SQLite does with these queries as the hypothesis \<open>meme_sql\<close>, with a database that satisfies
    it, and follows a meme from its creation to its view.  \<open>Meme_Locks\<close> has the operations as jobs of one
    to three critical sections under \<open>meme_lock\<close>, between which others can run.
  \<^item> \<open>Logging\<close> (\<open>logging.cc\<close>, \<open>logging.h\<close>): the logger, its sinks and its severities.
  \<^item> \<open>Routing\<close>, \<open>Handler_Factory\<close>, \<open>Handler_Faults\<close> (\<open>server.cc\<close>, \<open>request_factory.h\<close>, \<open>*_handler_factory.cc\<close>):
    the tables, the longest match, the factories and the virtual calls \<open>create\<close> and \<open>handle_request\<close>,
    and which exceptions can leave them.
  \<^item> \<open>Session\<close>, \<open>Session_Props\<close>, \<open>Server_Loop\<close>, \<open>Server_Main\<close>, \<open>Main_Threads\<close> (\<open>session.cc\<close>, \<open>server.cc\<close>,
    \<open>server_main.cc\<close>, \<open>config_parser_main.cc\<close>): one connection, from its \<open>Start\<close>, as a step relation
    over what the network reports, all connections and the accept loop as a step relation, start-up, and the whole
    \<open>main\<close> with its log and its threads.
  \<^item> this theory: the two properties that run from the configuration file to an answer.

  \<^bold>\<open>Parameters.\<close>  Code that is not in the repository is an argument of the definitions: Boost.Beast
  (\<open>beast\<close>), the operating system's files and Boost.Filesystem (\<open>file_ops\<close>), SQLite (\<open>sqlite\<close>),
  Boost.Log (\<open>boost_log\<close>), the ports and threads the system grants (\<open>os\<close>), the order in which an
  unordered map is iterated.  What the properties use of it are the hypotheses \<open>set_laws\<close> (a header
  field reads back), \<open>file_laws\<close> (a file reads back, a removed file is gone), \<open>fs_faults\<close>
  (Boost.Filesystem throws its own exception only), \<open>meme_sql\<close> (an insert that succeeds adds a row
  with a new id, a query finds the rows it names), \<open>selects_read\<close> and \<open>creates_table\<close> (a \<open>SELECT\<close> and
  \<open>CREATE TABLE IF NOT EXISTS\<close> leave the rows as they are), \<open>rows_end\<close> (a query has finitely many rows) and
  \<open>log_laws\<close> (a message goes to every sink whose filter lets it pass); \<open>list_beast\<close>, \<open>flat_ops\<close>,
  \<open>table_sqlite\<close>, \<open>closed_sqlite\<close> and \<open>list_boost_log\<close> are concrete instances that satisfy them.

  \<^bold>\<open>What the lemmas show.\<close>  Functional behaviour and round trips of both parsers, of the API handler
  and of the form body; that the configuration parser accepts exactly its grammar; the refinement
  of the abstract store, and that operations on several threads take effect one after the other,
  keep the ids apart, never deadlock and all come to their end, and that a create of the meme handler
  shows the id of its own meme, if all memes that are created are plain; invariants of the parser, of the entity table, of a
  session's buffer, of the server's sessions and of the log; which faults can leave each operation
  and end the server (an exception that leaves a completion handler is not caught: also that of
  \<open>remote_endpoint\<close> in \<open>RealSession::Start\<close>), and for which input they do.  Loops that may not end (\<open>insert_options\<close>, \<open>collect_ids\<close>) are partial
  functions; \<open>handlers_return\<close> shows that they end in every answer of the server.  No fuel is used:
  every other loop is a recursion with a proof of termination.

  \<^bold>\<open>Not modelled.\<close>  The messages of the handlers and of a session to the log (those of \<open>main\<close> and of the
  server's constructor are), and the messages that the configuration parser prints.  In the model of
  the sessions a completion handler is one atomic step; the interleaving of threads inside a handler
  is modelled for the critical sections of the API handler and of the meme handler, not for what they
  do before and after.  The API handler's constructor walks its directory recursively while it loads
  the files: the model takes the walk as one reading of the directory (\<open>fo_recursive\<close>) and the
  loading of one file as one step; no other operation of the handler runs in between, as the lock is
  held alone.  The index \<open>i\<close> of \<open>getFields\<close>, an \<open>int\<close>, is a position in a list (\<open>fields_loop\<close>): the
  8192 bytes of the buffer are far from where it would overflow.  The file sink and the filter that
  is set on it next are one step of the logger's construction (\<open>server_file_log\<close>).  That
  \<open>std::vector::reserve\<close> can throw in \<open>main\<close> is left out.  The lifetime of the response buffer
  during an asynchronous write, the handlers that are never deleted, the server's destructor and
  \<open>sqlite3_close\<close> are outside the model as well.
\<close>

section \<open>From the configuration file to the answer\<close>

lemma loaded_server_ok:
  assumes "Parse_file read_file name (NginxConfig []) = Inr (b, c)" and "usable c"
    and "load_server read_file name = Inr sv"
  shows "server_ok sv" and "sv_handler_map sv = assign_all (location_entries (statements c)) []"
proof -
  from assms(3) obtain p where "config_ok c" "sv = Server p (assign_all (location_entries (statements c)) [])"
    using assms(1) by (elim load_server_Inr) auto
  then show "server_ok sv" "sv_handler_map sv = assign_all (location_entries (statements c)) []"
    using usable_server_ok [OF _ assms(2)] by (simp_all add: Server_def)
qed

text \<open>
  C2: a server that was started on a configuration file all of whose
  locations name a known handler and have a block, one of them \<open>/\<close>, never dereferences a null
  pointer and never fails on an argument that is no number, whatever its clients do.
\<close>

theorem configured_server_safe:
  assumes "Parse_file read_file name (NginxConfig []) = Inr (b, c)" and "usable c"
    and "load_server read_file name = Inr sv" and "fs_faults (en_files E)"
    and "server_reachable E sv st" and "ss_crashed st = Some e"
  shows "e \<noteq> Null_deref \<and> e \<noteq> Invalid_argument"
  using server_reachable_faults [OF loaded_server_ok(1) [OF assms(1-3)] assms(4-6)] serve_faults_sub [of E] by auto

text \<open>What is left of a cleared buffer is empty.\<close>

lemma zeroed_stale:
  assumes "drop n zeroed = stale @ NUL # rest" and "NUL \<notin> set stale"
  shows "stale = []"
proof -
  have "set stale \<subseteq> set zeroed" using set_drop_subset [of n zeroed] assms(1) by simp
  then show ?thesis using assms(2) by (cases stale) (auto simp: zeroed_def)
qed

lemma render_request_append: "render_request m t v hs b @ stale = render_request m t v hs (b @ stale)"
  by (simp add: render_request_def)

text \<open>
  C1: on such a server, a well-formed request that a session reads in one piece is
  answered by a new handler of the kind, and with the block, that the configuration's last statement
  for the location gives, where the location is the longest that covers the target; the handler gets
  the method, the target and the header fields that were sent.  Its body is the one that was sent
  and, after that, what the buffer still held up to a \<open>NUL\<close>: nothing in a cleared buffer, as it is
  after the first answer, and what the memory happened to hold at the first read of a connection.
  The request has no \<open>NUL\<close>, there is one in the buffer after it, and Beast's parser finds no error.
\<close>

theorem request_served:
  assumes "Parse_file read_file name (NginxConfig []) = Inr (flag, c)" and "usable c"
    and "load_server read_file name = Inr sv" and "has_tables sv s"
    and "verb_of m = Some vb" and "SP \<notin> set t" and "CR \<notin> set v" and "list_all header_ok hs"
    and "NUL \<notin> set (render_request m t v hs b)"
    and "drop (length (render_request m t v hs b)) (se_data s) = stale @ NUL # rest" and "NUL \<notin> set stale"
    and "bs_parser_put (en_beast E) (render_request m t v hs (b @ stale)) = No_error"
  shows "(se_data s = zeroed \<longrightarrow> stale = []) \<and>
   (\<exists>location kind conf factory s'.
    route_of (sv_routes sv) t location \<and>
    map_of (rev (location_entries (statements c))) location = Some (kind, conf) \<and>
    createHandlerFactory kind = Some factory \<and> has_tables sv s' \<and> se_data s' = zeroed \<and>
    HandleRead E (Some (render_request m t v hs b)) s w =
      ebind (serve E factory location conf w
          ((bs_request (en_beast E))\<lparr>rq_method := vb, rq_target := t,
             rq_fields := set_fields (en_beast E) hs (rq_fields (bs_request (en_beast E))), rq_body := b @ stale\<rparr>)
          (bs_response (en_beast E)))
        (\<lambda>x w. (Inr (s'\<lparr>se_phase := Writing (getResponse (en_beast E) (snd x))\<rparr>), w)))"
proof (rule conjI)
  let ?msg = "render_request m t v hs (b @ stale)" and ?B = "en_beast E"
  let ?s = "s\<lparr>se_data := received (render_request m t v hs b) (se_data s)\<rparr>"
  let ?req = "(bs_request ?B)\<lparr>rq_method := vb, rq_target := t,
    rq_fields := set_fields ?B hs (rq_fields (bs_request ?B)), rq_body := b @ stale\<rparr>"
  show "se_data s = zeroed \<longrightarrow> stale = []" using zeroed_stale assms(10,11) by metis
  note sv = loaded_server_ok [OF assms(1-3)]
  have tables: "tables_ok (se_handler_map ?s) (se_routes ?s)"
    using sv(1) assms(4) by (simp add: server_ok_def has_tables_def)
  have fields: "getFields ?B ?msg (bs_request ?B) = Inr ?req"
    using assms(5-8) by (rule getFields_rendered)
  have put: "bs_parser_put ?B ?msg \<in> {No_error, Bad_version}" using assms(12) by simp
  have find: "smap_find (se_handler_map s) l = map_of (rev (location_entries (statements c))) l" for l
    using sv(2) assms(4) by (simp add: has_tables_def smap_find_assign_all split: option.split)
  show "\<exists>location kind conf factory s'.
    route_of (sv_routes sv) t location \<and>
    map_of (rev (location_entries (statements c))) location = Some (kind, conf) \<and>
    createHandlerFactory kind = Some factory \<and> has_tables sv s' \<and> se_data s' = zeroed \<and>
    HandleRead E (Some (render_request m t v hs b)) s w =
      ebind (serve E factory location conf w ?req (bs_response ?B))
        (\<lambda>x w. (Inr (s'\<lparr>se_phase := Writing (getResponse ?B (snd x))\<rparr>), w))"
    using tables fields put
  proof (rule answer_served)
    fix location kind conf factory
    assume *: "route_of (se_routes ?s) (rq_target ?req) location"
      "smap_find (se_handler_map ?s) location = Some (kind, conf)" "createHandlerFactory kind = Some factory"
      "answer E ?msg ?s w = ebind (serve E factory location conf w ?req (bs_response ?B)) (\<lambda>x w. (Inr (snd x, ?s), w))"
    have "HandleRead E (Some (render_request m t v hs b)) s w =
        ebind (serve E factory location conf w ?req (bs_response ?B))
          (\<lambda>x w. (Inr ((s\<lparr>se_data := zeroed\<rparr>)\<lparr>se_phase := Writing (getResponse ?B (snd x))\<rparr>), w))"
      using session_first_read [OF assms(9-11), of E w] *(4) by (simp add: render_request_append split: ebind_split)
    moreover have "route_of (sv_routes sv) t location"
        "map_of (rev (location_entries (statements c))) location = Some (kind, conf)"
      using * assms(4) find [of location] by (simp_all add: has_tables_def)
    ultimately show ?thesis
      using *(3) has_tables_update(1) [of sv zeroed s] assms(4)
      by (intro exI [of _ location] exI [of _ kind] exI [of _ conf] exI [of _ factory] exI [of _ "s\<lparr>se_data := zeroed\<rparr>"]) simp
  qed
qed

section \<open>A configuration\<close>

definition demo_file :: string where
  "demo_file = ''port 80; location / HealthHandler { root /www; } location /echo/ EchoHandler { root /www; }''"

definition demo_config :: NginxConfig where
  "demo_config = NginxConfig
     [NginxConfigStatement [''port'', ''80''] None,
      NginxConfigStatement [''location'', ''/'', ''HealthHandler''] (Some demo_block),
      NginxConfigStatement [''location'', ''/echo/'', ''EchoHandler''] (Some demo_block)]"

lemma demo_parsed: "Parse_file (\<lambda>n. Some demo_file) name (NginxConfig []) = Inr (True, demo_config)"
proof -
  have "Parse demo_file (NginxConfig []) = Inr (True, demo_config)" by code_simp
  then show ?thesis by (simp add: Parse_file_def)
qed

lemma demo_entries:
  "location_entries (statements demo_config) =
     [(''/'', (''HealthHandler'', Some demo_block)), (''/echo'', (''EchoHandler'', Some demo_block))]"
  by code_simp

lemma demo_usable: "usable demo_config"
  by (simp add: usable_def demo_entries createHandlerFactory_def)

lemma demo_loaded: "load_server (\<lambda>n. Some demo_file) name = Inr demo_server"
proof -
  have "GetPort demo_config = Inr 80" by (simp add: demo_config_def GetPort_def stoi_eval)
  moreover have "populateHandlerMap demo_config [] = Inr demo_map" by code_simp
  ultimately show ?thesis by (simp add: load_server_def demo_parsed demo_server_def)
qed

lemma configured_server_safe_witness:
  "\<exists>st e. server_reachable demo_env demo_server st \<and> ss_crashed st = Some e \<and> e \<noteq> Null_deref"
proof -
  let ?st = "session_result 0 (Inl Out_of_range) (ss_world demo_state) demo_state"
  have "server_step demo_env demo_state ?st"
    by (rule server_step.session [OF demo_running _ bare_request_step]) (simp_all add: demo_session RealSession_def)
  then have st: "server_reachable demo_env demo_server ?st" "ss_crashed ?st = Some Out_of_range"
    by (auto intro: server_reachable.step [OF demo_reachable] simp: session_result_def)
  have fs: "fs_faults (en_files demo_env)" by (simp add: demo_env_def flat_fs_faults)
  from configured_server_safe [OF demo_parsed demo_usable demo_loaded fs st] st show ?thesis by blast
qed

text \<open>The first request of a connection: the buffer's memory held a word that becomes its body.\<close>

definition demo_request_text :: string where
  "demo_request_text = render_request ''GET'' ''/echo/x'' ''HTTP/1.1'' [(''Host'', ''a'')] []"

definition demo_memory :: string where
  "demo_memory =
     replicate (length demo_request_text) (CHR ''x'') @ ''old'' @ replicate (max_length - length demo_request_text - 3) NUL"

lemma demo_request_facts:
  "length demo_request_text < max_length - 3" "NUL \<notin> set demo_request_text"
  by (simp_all add: demo_request_text_def header_ok_def render_request_def header_line_def max_length_def)

lemma demo_memory_length: "length demo_memory = max_length"
  using demo_request_facts(1) by (simp add: demo_memory_def)

lemma demo_memory_rest:
  "drop (length demo_request_text) demo_memory = ''old'' @ NUL # replicate (max_length - length demo_request_text - 4) NUL"
proof -
  have "max_length - length demo_request_text - 3 = Suc (max_length - length demo_request_text - 4)"
    using demo_request_facts(1) by simp
  then show ?thesis by (simp add: demo_memory_def)
qed

lemma request_served_witness:
  "\<exists>s. session_reachable demo_env 0 s \<and> se_data s = demo_memory \<and>
    (\<exists>location kind conf factory s'.
      route_of (sv_routes demo_server) ''/echo/x'' location \<and>
      map_of (rev (location_entries (statements demo_config))) location = Some (kind, conf) \<and>
      createHandlerFactory kind = Some factory \<and>
      HandleRead demo_env (Some demo_request_text) s demo_wo =
        ebind (serve demo_env factory location conf demo_wo
            ((bs_request list_beast)\<lparr>rq_method := Verb_get, rq_target := ''/echo/x'',
               rq_fields := set_fields list_beast [(''Host'', ''a'')] (rq_fields (bs_request list_beast)), rq_body := ''old''\<rparr>)
            (bs_response list_beast))
          (\<lambda>x w. (Inr (s'\<lparr>se_phase := Writing (getResponse list_beast (snd x))\<rparr>), w)))"
proof -
  let ?s = "(RealSession demo_memory demo_map (sv_routes demo_server))\<lparr>se_client_ip := ''10.0.0.1'', se_phase := Reading\<rparr>"
  have start: "session_reachable demo_env 0 ?s" "se_data ?s = demo_memory"
    by (rule session_reachable.start [of demo_memory "Some ''10.0.0.1''"])
      (simp_all add: Start_def demo_memory_length RealSession_def)
  have session: "has_tables demo_server ?s"
    by (simp add: has_tables_def RealSession_def demo_server_def Server_def)
  have msg: "verb_of ''GET'' = Some Verb_get" "SP \<notin> set ''/echo/x''" "CR \<notin> set ''HTTP/1.1''"
    "list_all header_ok [(''Host'', ''a'')]"
    by (simp_all add: verb_of_def header_ok_def)
  have rest: "drop (length demo_request_text) (se_data ?s) = ''old'' @ NUL # replicate (max_length - length demo_request_text - 4) NUL"
    "NUL \<notin> set ''old''"
    using demo_memory_rest by (simp_all add: RealSession_def)
  have put: "bs_parser_put (en_beast demo_env) x = No_error" and beast: "en_beast demo_env = list_beast" for x
    by (simp_all add: demo_env_def list_beast_def)
  note served = request_served [OF demo_parsed demo_usable demo_loaded session msg
    demo_request_facts(2) [unfolded demo_request_text_def] rest [unfolded demo_request_text_def] put, where w = demo_wo]
  show ?thesis
    using served start unfolding beast demo_request_text_def append_Nil by blast
qed

end
